(* ===== verification/Rcp_Prelude.thy ===== *)
theory Rcp_Prelude
  imports "HOL-Library.Word"
begin

text \<open>
  Shared vocabulary of the development: the machine integers and byte strings of the Rust
  code, its \<open>Result\<close> type with the \<open>?\<close> operator, the big-endian conversions
  \<open>to_be_bytes\<close> and \<open>from_be_bytes\<close> of the standard library, sub-slices of a buffer,
  the saturating and checked arithmetic the code calls, and hexadecimal rendering.
\<close>

unbundle bit_operations_syntax

section \<open>Machine integers, byte strings and results\<close>

type_synonym u8 = "8 word"
type_synonym u16 = "16 word"
type_synonym u32 = "32 word"
type_synonym u64 = "64 word"
type_synonym bytes = "u8 list"

text \<open>
  The collections of the development. \<open>rcp_consts\<close> holds the defining equations of the
  named constants of the source; \<open>rcp_codec\<close> the length and slicing facts of encoders.
\<close>

named_theorems rcp_consts
named_theorems rcp_codec

text \<open>
  A Rust \<open>Result\<close> is a sum with the error on the left. \<open>and_then\<close> is the \<open>?\<close>
  operator (and \<open>Result::and_then\<close>): an error returns early, a value goes on.
\<close>

fun and_then :: "'e + 'a \<Rightarrow> ('a \<Rightarrow> 'e + 'b) \<Rightarrow> 'e + 'b" where
  "and_then (Inl e) k = Inl e"
| "and_then (Inr x) k = k x"

lemma and_then_eq_Inr: "and_then r k = Inr y \<longleftrightarrow> (\<exists>x. r = Inr x \<and> k x = Inr y)"
  by (cases r) auto

lemma and_then_eq_Inl: "and_then r k = Inl e \<longleftrightarrow> r = Inl e \<or> (\<exists>x. r = Inr x \<and> k x = Inl e)"
  by (cases r) auto

lemma and_then_split:
  "P (and_then r k) \<longleftrightarrow> (\<forall>e. r = Inl e \<longrightarrow> P (Inl e)) \<and> (\<forall>x. r = Inr x \<longrightarrow> P (k x))"
  by (cases r) auto

fun ok_or :: "'a option \<Rightarrow> 'e \<Rightarrow> 'e + 'a" where
  "ok_or None e = Inl e"
| "ok_or (Some x) e = Inr x"

lemma ok_or_eq_Inr [simp]: "ok_or x e = Inr y \<longleftrightarrow> x = Some y"
  by (cases x) auto

lemma ok_or_eq_Inl [simp]: "ok_or x e = Inl e' \<longleftrightarrow> x = None \<and> e' = e"
  by (cases x) auto

section \<open>Bits of bounded words\<close>

lemma bit_word_beyond [simp]: "LENGTH('a) \<le> n \<Longrightarrow> \<not> bit (w :: 'a::len word) n"
  using bit_imp_le_length [of w n] by auto

lemma bit_u8_beyond [simp]: "8 \<le> n \<Longrightarrow> \<not> bit (w :: u8) n"
  by (rule bit_word_beyond) simp

lemma bit_u16_beyond [simp]: "16 \<le> n \<Longrightarrow> \<not> bit (w :: u16) n"
  by (rule bit_word_beyond) simp

lemma bit_u32_beyond [simp]: "32 \<le> n \<Longrightarrow> \<not> bit (w :: u32) n"
  by (rule bit_word_beyond) simp

lemma bit_u64_beyond [simp]: "64 \<le> n \<Longrightarrow> \<not> bit (w :: u64) n"
  by (rule bit_word_beyond) simp

text \<open>A word below \<open>2 ^ k\<close> has no bit at or above position \<open>k\<close>.\<close>

lemma uint_less_imp_not_bit:
  assumes "uint (w :: 'a::len word) < 2 ^ k" and "k \<le> n"
  shows "\<not> bit w n"
proof -
  have "w AND mask k = w"
    using assms(1) by (simp add: mask_eq_iff)
  then have "take_bit k w = w"
    by (simp add: take_bit_eq_mask)
  then show ?thesis
    using assms(2) by (metis bit_take_bit_iff not_less)
qed

lemma not_bit_imp_le_mask:
  assumes "\<And>n. k \<le> n \<Longrightarrow> \<not> bit x n"
  shows "(x :: 'a::len word) \<le> mask k"
proof -
  have "take_bit k x = x"
    using assms by (intro bit_word_eqI) (auto simp: bit_simps intro: leI)
  then show ?thesis
    by (metis take_bit_eq_mask word_and_le1)
qed

lemma bit_times_two [bit_simps]:
  "bit ((w :: 'a::len word) * 2) n \<longleftrightarrow> n < LENGTH('a) \<and> 0 < n \<and> bit w (n - 1)"
  by (subst mult.commute) (auto simp: bit_simps)

text \<open>
  Words of the two small widths, compared bit by bit at literal positions: packed fields are
  proved equal by evaluating each bit.
\<close>

lemma upt_0_8: "[0..<8] = [0, 1, 2, 3, 4, 5, 6, 7]"
  by code_simp

lemma upt_0_16: "[0..<16] = [0, 1, 2, 3, 4, 5, 6, 7, 8, 9, 10, 11, 12, 13, 14, 15]"
  by code_simp

lemma u8_eq_iff:
  "(a :: u8) = b \<longleftrightarrow>
    (bit a 0 \<longleftrightarrow> bit b 0) \<and> (bit a 1 \<longleftrightarrow> bit b 1) \<and> (bit a 2 \<longleftrightarrow> bit b 2) \<and> (bit a 3 \<longleftrightarrow> bit b 3) \<and>
    (bit a 4 \<longleftrightarrow> bit b 4) \<and> (bit a 5 \<longleftrightarrow> bit b 5) \<and> (bit a 6 \<longleftrightarrow> bit b 6) \<and> (bit a 7 \<longleftrightarrow> bit b 7)"
  (is "_ \<longleftrightarrow> ?R")
proof
  assume r: ?R
  show "a = b"
  proof (rule bit_word_eqI)
    fix n
    assume "n < LENGTH(8)"
    then have "n \<in> set [0..<8]" by simp
    then have "n \<in> {0, 1, 2, 3, 4, 5, 6, 7}" unfolding upt_0_8 by simp
    with r show "bit a n \<longleftrightarrow> bit b n" by auto
  qed
qed simp

lemma u16_eq_iff:
  "(a :: u16) = b \<longleftrightarrow>
    (bit a 0 \<longleftrightarrow> bit b 0) \<and> (bit a 1 \<longleftrightarrow> bit b 1) \<and> (bit a 2 \<longleftrightarrow> bit b 2) \<and> (bit a 3 \<longleftrightarrow> bit b 3) \<and>
    (bit a 4 \<longleftrightarrow> bit b 4) \<and> (bit a 5 \<longleftrightarrow> bit b 5) \<and> (bit a 6 \<longleftrightarrow> bit b 6) \<and> (bit a 7 \<longleftrightarrow> bit b 7) \<and>
    (bit a 8 \<longleftrightarrow> bit b 8) \<and> (bit a 9 \<longleftrightarrow> bit b 9) \<and> (bit a 10 \<longleftrightarrow> bit b 10) \<and> (bit a 11 \<longleftrightarrow> bit b 11) \<and>
    (bit a 12 \<longleftrightarrow> bit b 12) \<and> (bit a 13 \<longleftrightarrow> bit b 13) \<and> (bit a 14 \<longleftrightarrow> bit b 14) \<and> (bit a 15 \<longleftrightarrow> bit b 15)"
  (is "_ \<longleftrightarrow> ?R")
proof
  assume r: ?R
  show "a = b"
  proof (rule bit_word_eqI)
    fix n
    assume "n < LENGTH(16)"
    then have "n \<in> set [0..<16]" by simp
    then have "n \<in> {0, 1, 2, 3, 4, 5, 6, 7, 8, 9, 10, 11, 12, 13, 14, 15}" unfolding upt_0_16 by simp
    with r show "bit a n \<longleftrightarrow> bit b n" by auto
  qed
qed simp

section \<open>Slices of a buffer\<close>

text \<open>\<open>subslice off n bs\<close> is \<open>bs[off..off + n]\<close>; the code indexes only after a length check.\<close>

definition subslice :: "nat \<Rightarrow> nat \<Rightarrow> 'a list \<Rightarrow> 'a list" where
  "subslice off n bs = take n (drop off bs)"

lemma length_subslice [rcp_codec]: "length (subslice off n bs) = min n (length bs - off)"
  by (simp add: subslice_def)

lemma subslice_append_drop:
  "subslice off n bs @ drop (off + n) bs = drop off bs"
  by (simp add: subslice_def add.commute flip: drop_drop)

lemma subslice_append_subslice:
  "subslice off n bs @ subslice (off + n) m bs = subslice off (n + m) bs"
  unfolding subslice_def take_add drop_drop by (simp add: add.commute)

lemma subslice_Suc_nth:
  "off < length bs \<Longrightarrow> subslice off (Suc 0) bs = [bs ! off]"
  by (simp add: subslice_def take_Suc hd_drop_conv_nth)

lemma subslice_zero_take: "subslice 0 n bs = take n bs"
  by (simp add: subslice_def)

section \<open>Big-endian conversions\<close>

text \<open>
  \<open>be_bytes k w\<close> lists the low \<open>k\<close> bytes of \<open>w\<close>, most significant first; the
  standard library's \<open>to_be_bytes\<close> is the case where \<open>k\<close> is the width in bytes.
  \<open>from_be_bytes\<close> shifts the bytes in one after the other.
\<close>

primrec be_bytes :: "nat \<Rightarrow> 'a::len word \<Rightarrow> bytes" where
  "be_bytes 0 w = []"
| "be_bytes (Suc k) w = ucast (drop_bit (8 * k) w) # be_bytes k w"

definition to_be_bytes :: "'a::len word \<Rightarrow> bytes" where
  "to_be_bytes w = be_bytes (LENGTH('a) div 8) w"

definition shift_in :: "'a::len word \<Rightarrow> bytes \<Rightarrow> 'a word" where
  "shift_in acc bs = foldl (\<lambda>w b. push_bit 8 w OR ucast b) acc bs"

definition from_be_bytes :: "bytes \<Rightarrow> 'a::len word" where
  "from_be_bytes bs = shift_in 0 bs"

lemma length_be_bytes [simp]: "length (be_bytes k w) = k"
  by (induction k) simp_all

lemma length_to_be_bytes: "length (to_be_bytes (w :: 'a::len word)) = LENGTH('a) div 8"
  by (simp add: to_be_bytes_def)

lemma length_to_be_bytes_widths [simp]:
  "length (to_be_bytes (a :: u8)) = 1"
  "length (to_be_bytes (b :: u16)) = 2"
  "length (to_be_bytes (c :: u32)) = 4"
  "length (to_be_bytes (d :: u64)) = 8"
  by (simp_all add: length_to_be_bytes)

lemma shift_in_Nil [simp]: "shift_in acc [] = acc"
  by (simp add: shift_in_def)

lemma shift_in_Cons: "shift_in acc (b # bs) = shift_in (push_bit 8 acc OR ucast b) bs"
  by (simp add: shift_in_def)

lemma shift_in_be_bytes:
  "shift_in acc (be_bytes k w) = push_bit (8 * k) acc OR take_bit (8 * k) (w :: 'a::len word)"
proof (induction k arbitrary: acc)
  case 0
  then show ?case by simp
next
  case (Suc k)
  have "shift_in acc (be_bytes (Suc k) w)
      = push_bit (8 * k) (push_bit 8 acc OR ucast (ucast (drop_bit (8 * k) w) :: u8))
        OR take_bit (8 * k) w"
    by (simp add: shift_in_Cons Suc.IH)
  also have "\<dots> = push_bit (8 * Suc k) acc OR take_bit (8 * Suc k) w"
    by (rule bit_word_eqI) (auto simp: bit_simps not_less le_diff_conv2 add.commute split: if_splits)
  finally show ?case .
qed

lemma from_to_be_bytes_gen:
  assumes "8 dvd LENGTH('a)"
  shows "from_be_bytes (to_be_bytes (w :: 'a::len word)) = w"
  using assms
  by (simp add: from_be_bytes_def to_be_bytes_def shift_in_be_bytes take_bit_word_eq_self)

lemma from_to_be_bytes [simp]:
  "from_be_bytes (to_be_bytes (a :: u8)) = a"
  "from_be_bytes (to_be_bytes (b :: u16)) = b"
  "from_be_bytes (to_be_bytes (c :: u32)) = c"
  "from_be_bytes (to_be_bytes (d :: u64)) = d"
  by (rule from_to_be_bytes_gen, simp)+

lemma drop_bit_shift_in:
  assumes "8 * length bs \<le> LENGTH('a)"
  shows "drop_bit (8 * length bs) (shift_in (acc :: 'a::len word) bs)
       = take_bit (LENGTH('a) - 8 * length bs) acc"
  using assms
proof (induction bs rule: rev_induct)
  case Nil
  then show ?case by (simp add: take_bit_word_eq_self)
next
  case (snoc b bs)
  let ?w = "shift_in acc bs"
  have "drop_bit (8 * length (bs @ [b])) (shift_in acc (bs @ [b]))
      = drop_bit (8 * length bs) (drop_bit 8 (push_bit 8 ?w OR ucast b))"
    by (simp add: shift_in_def ac_simps)
  also have "drop_bit 8 (push_bit 8 ?w OR ucast b) = take_bit (LENGTH('a) - 8) ?w"
    by (rule bit_word_eqI) (auto simp: bit_simps)
  also have "drop_bit (8 * length bs) (take_bit (LENGTH('a) - 8) ?w)
      = take_bit (LENGTH('a) - 8 - 8 * length bs) (drop_bit (8 * length bs) ?w)"
    by (simp add: drop_bit_take_bit)
  also have "\<dots> = take_bit (LENGTH('a) - 8 * length (bs @ [b])) acc"
    using snoc by (simp add: min_def)
  finally show ?case .
qed

lemma be_bytes_shift_in:
  "8 * length bs \<le> LENGTH('a) \<Longrightarrow> be_bytes (length bs) (shift_in (acc :: 'a::len word) bs) = bs"
proof (induction bs arbitrary: acc)
  case Nil
  then show ?case by simp
next
  case (Cons b bs)
  let ?acc = "push_bit 8 acc OR ucast b :: 'a word"
  have "drop_bit (8 * length bs) (shift_in ?acc bs) = take_bit (LENGTH('a) - 8 * length bs) ?acc"
    using Cons.prems by (intro drop_bit_shift_in) simp
  moreover have "(ucast (take_bit (LENGTH('a) - 8 * length bs) ?acc) :: u8) = b"
    using Cons.prems by (intro bit_word_eqI) (auto simp: bit_simps)
  ultimately show ?case
    using Cons by (simp add: shift_in_Cons)
qed

lemma to_from_be_bytes_gen:
  assumes "8 * length bs = LENGTH('a)"
  shows "to_be_bytes (from_be_bytes bs :: 'a::len word) = bs"
proof -
  have "LENGTH('a) div 8 = length bs"
    using assms by (metis nonzero_mult_div_cancel_left zero_neq_numeral)
  then show ?thesis
    using be_bytes_shift_in [of bs "0 :: 'a word"] assms
    by (simp add: to_be_bytes_def from_be_bytes_def)
qed

lemma to_from_be_bytes [simp]:
  "length bs = 1 \<Longrightarrow> to_be_bytes (from_be_bytes bs :: u8) = bs"
  "length bs = 2 \<Longrightarrow> to_be_bytes (from_be_bytes bs :: u16) = bs"
  "length bs = 4 \<Longrightarrow> to_be_bytes (from_be_bytes bs :: u32) = bs"
  "length bs = 8 \<Longrightarrow> to_be_bytes (from_be_bytes bs :: u64) = bs"
  by (rule to_from_be_bytes_gen, simp)+

lemma be_bytes_numeral:
  "be_bytes (numeral n) w = ucast (drop_bit (8 * pred_numeral n) w) # be_bytes (pred_numeral n) w"
  by (simp add: numeral_eq_Suc)

text \<open>The same for the padding, so that concrete encodings evaluate.\<close>

lemma replicate_unfold: "replicate (numeral n) x = x # replicate (pred_numeral n) x"
  by (simp add: numeral_eq_Suc)

lemma to_be_bytes_u8 [simp]: "to_be_bytes (b :: u8) = [b]"
  by (simp add: to_be_bytes_def)

lemma from_be_bytes_u8 [simp]: "from_be_bytes [b] = (b :: u8)"
  using from_to_be_bytes(1) [of b] by simp

lemma to_be_bytes_u16: "to_be_bytes (w :: u16) = [ucast (drop_bit 8 w), ucast w]"
  by (simp add: to_be_bytes_def be_bytes_numeral)

lemma from_be_bytes_u16: "from_be_bytes [a, b] = (push_bit 8 (ucast a) OR ucast b :: u16)"
  by (simp add: from_be_bytes_def shift_in_def)

section \<open>Checked and saturating arithmetic\<close>

definition checked_add :: "'a::len word \<Rightarrow> 'a word \<Rightarrow> 'a word option" where
  "checked_add a b = (if uint a + uint b < 2 ^ LENGTH('a) then Some (a + b) else None)"

definition checked_sub :: "'a::len word \<Rightarrow> 'a word \<Rightarrow> 'a word option" where
  "checked_sub a b = (if b \<le> a then Some (a - b) else None)"

definition saturating_add :: "'a::len word \<Rightarrow> 'a word \<Rightarrow> 'a word" where
  "saturating_add a b = (if uint a + uint b < 2 ^ LENGTH('a) then a + b else - 1)"

definition saturating_sub :: "'a::len word \<Rightarrow> 'a word \<Rightarrow> 'a word" where
  "saturating_sub a b = (if b \<le> a then a - b else 0)"

lemma unat_saturating_add:
  "unat (saturating_add a b) = min (unat a + unat b) (2 ^ LENGTH('a) - 1)" for a b :: "'a::len word"
proof -
  have fits: "uint a + uint b < 2 ^ LENGTH('a) \<longleftrightarrow> unat a + unat b < 2 ^ LENGTH('a)"
    using of_nat_less_iff [of "unat a + unat b" "2 ^ LENGTH('a)", where 'a = int] by simp
  show ?thesis
  proof (cases "unat a + unat b < 2 ^ LENGTH('a)")
    case True
    then have "unat (a + b) = unat a + unat b" by (rule unat_add_lem [THEN iffD1])
    with True show ?thesis unfolding saturating_add_def fits by simp
  next
    case False
    have "unat (- 1 :: 'a word) = 2 ^ LENGTH('a) - 1" by (simp add: unsigned_minus_1_eq_mask mask_eq_exp_minus_1)
    with False show ?thesis unfolding saturating_add_def fits by simp
  qed
qed

lemma unat_saturating_sub: "unat (saturating_sub a b) = unat a - unat b" for a b :: "'a::len word"
  by (simp add: saturating_sub_def unat_sub word_le_nat_alt)

lemma unat_ucast_u16_u64: "unat (ucast (w :: u16) :: u64) = unat w"
  by (simp add: unsigned_ucast_eq take_bit_nat_eq_self less_le_trans [OF unsigned_less])

text \<open>\<open>usize::checked_sub\<close>, on buffer lengths.\<close>

definition checked_sub_nat :: "nat \<Rightarrow> nat \<Rightarrow> nat option" where
  "checked_sub_nat a b = (if b \<le> a then Some (a - b) else None)"

definition u8_of_bool :: "bool \<Rightarrow> u8" where
  "u8_of_bool b = (if b then 1 else 0)"

lemma bit_u8_of_bool [bit_simps]: "bit (u8_of_bool b) n \<longleftrightarrow> b \<and> n = 0"
  by (auto simp: u8_of_bool_def bit_simps)

text \<open>\<open>u16::try_from\<close> of a buffer length.\<close>

definition u16_try_from :: "nat \<Rightarrow> u16 option" where
  "u16_try_from n = (if n < 65536 then Some (of_nat n) else None)"

lemma u16_try_from_eq_Some: "u16_try_from n = Some w \<longleftrightarrow> n < 65536 \<and> n = unat w"
  by (auto simp: u16_try_from_def unat_of_nat)

section \<open>Hexadecimal rendering\<close>

text \<open>The format specification \<open>{:02X}\<close> of the error messages.\<close>

definition hex_digit :: "nat \<Rightarrow> char" where
  "hex_digit n = ''0123456789ABCDEF'' ! (n mod 16)"

definition hex02 :: "u8 \<Rightarrow> string" where
  "hex02 b = [hex_digit (unat b div 16), hex_digit (unat b)]"

end
