(* ===== verification/Rcp_Timestamp.thy ===== *)
theory Rcp_Timestamp
  imports Rcp_Prelude
begin

text \<open>
  The two timestamp newtypes of \<open>src/timestamp.rs\<close>: the 32-bit AVTP presentation timestamp
  and the 64-bit message timestamp, with the all-zero "untimed" rule and the wrap-around
  aware comparison. The signed results (an \<open>i64\<close> of the source) are integers here; both
  conversions of the source into \<open>i64\<close> are exact, so no width is lost.
\<close>

section \<open>Definitions\<close>

datatype timestamp_meaning = Untimed | Timed

datatype avtp_timestamp = AvtpTimestamp (avtp_to_u32: u32)

datatype message_timestamp = MessageTimestamp (msg_to_u64: u64)

definition AVTP_ROLLOVER_PERIOD :: u64 where
  "AVTP_ROLLOVER_PERIOD = push_bit 32 1"

definition MESSAGE_ROLLOVER_PERIOD :: "128 word" where
  "MESSAGE_ROLLOVER_PERIOD = push_bit 64 1"

definition avtp_semantics :: "avtp_timestamp \<Rightarrow> timestamp_meaning" where
  "avtp_semantics t = (if avtp_to_u32 t = 0 then Untimed else Timed)"

definition avtp_is_untimed :: "avtp_timestamp \<Rightarrow> bool" where
  "avtp_is_untimed t \<longleftrightarrow> avtp_semantics t = Untimed"

definition avtp_wrapping_delta :: "avtp_timestamp \<Rightarrow> avtp_timestamp \<Rightarrow> int" where
  "avtp_wrapping_delta t earlier = sint (avtp_to_u32 t - avtp_to_u32 earlier)"

definition avtp_is_after :: "avtp_timestamp \<Rightarrow> avtp_timestamp \<Rightarrow> bool" where
  "avtp_is_after t other \<longleftrightarrow> 0 < avtp_wrapping_delta t other"

definition msg_semantics :: "message_timestamp \<Rightarrow> timestamp_meaning" where
  "msg_semantics t = (if msg_to_u64 t = 0 then Untimed else Timed)"

definition msg_is_untimed :: "message_timestamp \<Rightarrow> bool" where
  "msg_is_untimed t \<longleftrightarrow> msg_semantics t = Untimed"

definition msg_wrapping_delta :: "message_timestamp \<Rightarrow> message_timestamp \<Rightarrow> int" where
  "msg_wrapping_delta t earlier = sint (msg_to_u64 t - msg_to_u64 earlier)"

definition msg_is_after :: "message_timestamp \<Rightarrow> message_timestamp \<Rightarrow> bool" where
  "msg_is_after t other \<longleftrightarrow> 0 < msg_wrapping_delta t other"

section \<open>The signed difference of two words\<close>

text \<open>
  \<open>sint (a - b)\<close> is the one integer in the signed range that leads from \<open>b\<close> to \<open>a\<close>
  modulo the rollover period.
\<close>

lemma sint_diff_eq_iff:
  fixes a b :: "'a::len word"
  shows "sint (a - b) = d \<longleftrightarrow>
    a = b + of_int d \<and> - (2 ^ (LENGTH('a) - 1)) \<le> d \<and> d < 2 ^ (LENGTH('a) - 1)"
proof
  assume d: "sint (a - b) = d"
  have "of_int (sint (a - b)) = a - b" by simp
  moreover have "- (2 ^ (LENGTH('a) - 1)) \<le> sint (a - b)" "sint (a - b) < 2 ^ (LENGTH('a) - 1)"
    by (rule sint_ge, rule sint_lt)
  ultimately show "a = b + of_int d \<and> - (2 ^ (LENGTH('a) - 1)) \<le> d \<and> d < 2 ^ (LENGTH('a) - 1)"
    using d by simp
next
  assume r: "a = b + of_int d \<and> - (2 ^ (LENGTH('a) - 1)) \<le> d \<and> d < 2 ^ (LENGTH('a) - 1)"
  then have "sint (a - b) = signed_take_bit (LENGTH('a) - 1) d"
    by (simp add: signed_of_int)
  then show "sint (a - b) = d"
    using r by (simp add: signed_take_bit_int_eq_self)
qed

lemma sint_minus_cases:
  fixes x :: "'a::len word"
  shows "sint (- x) = (if sint x = - (2 ^ (LENGTH('a) - 1)) then sint x else - sint x)"
proof (cases "sint x = - (2 ^ (LENGTH('a) - 1))")
  case True
  have "sint x + sint x = - (2 ^ LENGTH('a))"
    using True by (simp flip: power_Suc)
  then have "(of_int (sint x + sint x) :: 'a word) = 0"
    by (simp only: of_int_minus) (simp add: word_of_int_2p_len)
  then have "x + x = 0" by simp
  then have "sint (0 - x) = sint x"
    unfolding sint_diff_eq_iff using sint_ge [of x] sint_lt [of x] by simp
  then show ?thesis using True by simp
next
  case False
  have "sint (0 - x) = - sint x"
    unfolding sint_diff_eq_iff
    using False sint_ge [of x] sint_lt [of x] by auto
  then show ?thesis using False by simp
qed

section \<open>The comparison of timestamps\<close>

text \<open>
  The difference is the unique signed step in half a rollover period, and two different
  timestamps are ordered one way exactly, unless they are half a period apart, in which case
  neither is after the other.
\<close>

lemma avtp_wrapping_delta_iff:
  "avtp_wrapping_delta a b = d \<longleftrightarrow>
    avtp_to_u32 a = avtp_to_u32 b + of_int d \<and> - (2 ^ 31) \<le> d \<and> d < 2 ^ 31"
  using sint_diff_eq_iff [of "avtp_to_u32 a" "avtp_to_u32 b" d]
  by (simp add: avtp_wrapping_delta_def)

lemma msg_wrapping_delta_iff:
  "msg_wrapping_delta a b = d \<longleftrightarrow>
    msg_to_u64 a = msg_to_u64 b + of_int d \<and> - (2 ^ 63) \<le> d \<and> d < 2 ^ 63"
  using sint_diff_eq_iff [of "msg_to_u64 a" "msg_to_u64 b" d]
  by (simp add: msg_wrapping_delta_def)

lemma avtp_wrapping_delta_swap:
  "avtp_wrapping_delta b a =
    (if avtp_wrapping_delta a b = - (2 ^ 31) then - (2 ^ 31) else - avtp_wrapping_delta a b)"
  using sint_minus_cases [of "avtp_to_u32 a - avtp_to_u32 b"]
  by (simp add: avtp_wrapping_delta_def)

lemma avtp_wrapping_delta_zero: "avtp_wrapping_delta a b = 0 \<longleftrightarrow> a = b"
  by (cases a; cases b) (simp add: avtp_wrapping_delta_iff)

lemma avtp_after_trichotomy:
  "(avtp_is_after a b \<longrightarrow> \<not> avtp_is_after b a) \<and>
   (\<not> avtp_is_after a b \<and> \<not> avtp_is_after b a \<longleftrightarrow> a = b \<or> avtp_to_u32 a - avtp_to_u32 b = 0x80000000)"
proof -
  have "avtp_to_u32 a - avtp_to_u32 b = 0x80000000 \<longleftrightarrow> avtp_wrapping_delta a b = - (2 ^ 31)"
    unfolding avtp_wrapping_delta_iff by (auto simp: diff_eq_eq)
  then show ?thesis
    using avtp_wrapping_delta_swap [of b a] avtp_wrapping_delta_zero [of a b]
    by (auto simp: avtp_is_after_def split: if_splits)
qed

text \<open>
  A step forward of less than half a period is after, across the rollover too.
\<close>

lemma avtp_is_after_advance:
  assumes "0 < n" and "n < 2 ^ 31"
  shows "avtp_is_after (AvtpTimestamp (avtp_to_u32 t + word_of_nat n)) t"
proof -
  have "avtp_wrapping_delta (AvtpTimestamp (avtp_to_u32 t + word_of_nat n)) t = int n"
    unfolding avtp_wrapping_delta_iff using assms by simp
  then show ?thesis using assms by (simp add: avtp_is_after_def)
qed

section \<open>Further facts\<close>

text \<open>Wrapping timestamps compare consistently. Of two AVTP timestamps at most one is after the other; neither is exactly when they are equal or half a rollover period apart.\<close>

theorem avtp_order_consistent:
  "\<not> (avtp_is_after a b \<and> avtp_is_after b a)
    \<and> ((\<not> avtp_is_after a b \<and> \<not> avtp_is_after b a)
        = (a = b \<or> avtp_to_u32 a - avtp_to_u32 b = 0x80000000))"
  using avtp_after_trichotomy [of a b] by blast


end
