(* ===== verification/Rcp_Error.thy ===== *)
theory Rcp_Error
  imports Rcp_Prelude
begin

text \<open>
  The crate's error type \<open>RcpError\<close> of \<open>src/lib.rs\<close>: its variants in the order of the
  source, the membership queries over them, and the numeric codes an error response carries
  on the wire, and the \<open>Display\<close> texts.
\<close>

section \<open>The error type\<close>

datatype rcp_error =
    Closed | NotConnected | Timeout | PayloadTooLarge
  | NotFound | AlreadyExists | Busy
  | ShortFrame
  | UnsupportedCmd | SequencerNotKnown | UnauthorizedAccess | LockedMemAccess
  | RequestCanceled | RequestNotFound | EpError | EpNotFound | ReqStorageOvfl
  | RequestRejected | InvalidParameter
  | ChainAborted | ChainError
  | CrcError
  | ConfigWriteNotImplemented
  | PwmInNoSignal | PociFailure | PresentationTimeTooFar | GptpFail
  | InvalidSize
  | Other string

type_synonym 'a rcp_result = "rcp_error + 'a"

definition is_relay_closed :: "rcp_error \<Rightarrow> bool" where
  "is_relay_closed e \<longleftrightarrow> e = Closed"

definition is_relay_not_connected :: "rcp_error \<Rightarrow> bool" where
  "is_relay_not_connected e \<longleftrightarrow> e = NotConnected \<or> e = NotFound"

definition is_relay_timeout :: "rcp_error \<Rightarrow> bool" where
  "is_relay_timeout e \<longleftrightarrow> e = Timeout \<or> e = Busy"

definition is_relay_payload_too_large :: "rcp_error \<Rightarrow> bool" where
  "is_relay_payload_too_large e \<longleftrightarrow> e = PayloadTooLarge"

definition is_already_exists :: "rcp_error \<Rightarrow> bool" where
  "is_already_exists e \<longleftrightarrow> e = AlreadyExists"

fun is_tc18_error_code :: "rcp_error \<Rightarrow> bool" where
  "is_tc18_error_code UnsupportedCmd = True"
| "is_tc18_error_code SequencerNotKnown = True"
| "is_tc18_error_code UnauthorizedAccess = True"
| "is_tc18_error_code LockedMemAccess = True"
| "is_tc18_error_code RequestCanceled = True"
| "is_tc18_error_code RequestNotFound = True"
| "is_tc18_error_code EpError = True"
| "is_tc18_error_code EpNotFound = True"
| "is_tc18_error_code ReqStorageOvfl = True"
| "is_tc18_error_code RequestRejected = True"
| "is_tc18_error_code InvalidParameter = True"
| "is_tc18_error_code _ = False"

fun tc18_wire_code :: "rcp_error \<Rightarrow> u8 option" where
  "tc18_wire_code UnsupportedCmd = Some 1"
| "tc18_wire_code SequencerNotKnown = Some 2"
| "tc18_wire_code UnauthorizedAccess = Some 3"
| "tc18_wire_code LockedMemAccess = Some 4"
| "tc18_wire_code RequestCanceled = Some 5"
| "tc18_wire_code RequestNotFound = Some 6"
| "tc18_wire_code EpError = Some 7"
| "tc18_wire_code EpNotFound = Some 8"
| "tc18_wire_code PwmInNoSignal = Some 9"
| "tc18_wire_code ReqStorageOvfl = Some 10"
| "tc18_wire_code RequestRejected = Some 11"
| "tc18_wire_code PociFailure = Some 12"
| "tc18_wire_code PresentationTimeTooFar = Some 13"
| "tc18_wire_code GptpFail = Some 14"
| "tc18_wire_code InvalidParameter = Some 15"
| "tc18_wire_code ChainAborted = Some 16"
| "tc18_wire_code ChainError = Some 17"
| "tc18_wire_code _ = None"

section \<open>Messages\<close>

text \<open>The \<open>Display\<close> texts of the errors. Strings are their UTF-8 octets.\<close>

definition em_dash :: string where "em_dash = [CHR 0xE2, CHR 0x80, CHR 0x94]"
definition section_sign :: string where "section_sign = [CHR 0xC2, CHR 0xA7]"

fun rcp_error_display :: "rcp_error \<Rightarrow> string" where
  "rcp_error_display Closed = ''rcp: server closed''"
| "rcp_error_display NotConnected = ''rcp: not connected''"
| "rcp_error_display Timeout = ''rcp: request timeout''"
| "rcp_error_display PayloadTooLarge = ''rcp: payload too large''"
| "rcp_error_display NotFound = ''rcp: not found''"
| "rcp_error_display AlreadyExists = ''rcp: already exists''"
| "rcp_error_display Busy = ''rcp: busy''"
| "rcp_error_display ShortFrame = ''rcp/wire: frame too short''"
| "rcp_error_display UnsupportedCmd = ''rcp/error: UNSUPPORTED_CMD '' @ em_dash @ '' command or protocol feature not supported by this RC Server''"
| "rcp_error_display SequencerNotKnown = ''rcp/error: SEQUENCER_NOT_KNOWN '' @ em_dash @ '' referenced sequencer is not known to this RC Server''"
| "rcp_error_display UnauthorizedAccess = ''rcp/error: UNAUTHORIZED_ACCESS '' @ em_dash @ '' access not authorized by the RC Server's current lifecycle state or the requesting stream's privileges''"
| "rcp_error_display LockedMemAccess = ''rcp/error: LOCKED_MEM_ACCESS '' @ em_dash @ '' target register is reachable but locked against writes''"
| "rcp_error_display RequestCanceled = ''rcp/error: REQUEST_CANCELED '' @ em_dash @ '' request was canceled before completion''"
| "rcp_error_display RequestNotFound = ''rcp/error: REQUEST_NOT_FOUND '' @ em_dash @ '' referenced request id is not known to this RC Server''"
| "rcp_error_display EpError = ''rcp/error: EP_ERROR '' @ em_dash @ '' endpoint-level error''"
| "rcp_error_display EpNotFound = ''rcp/error: EP_NOT_FOUND '' @ em_dash @ '' referenced endpoint is not known to this RC Server''"
| "rcp_error_display ReqStorageOvfl = ''rcp/error: REQ_STORAGE_OVFL '' @ em_dash @ '' request storage capacity exceeded''"
| "rcp_error_display RequestRejected = ''rcp/error: REQUEST_REJECTED '' @ em_dash @ '' request rejected''"
| "rcp_error_display InvalidParameter = ''rcp/error: INVALID_PARAMETER '' @ em_dash @ '' one or more supplied parameter values is invalid''"
| "rcp_error_display ChainAborted = ''rcp/error: CHAIN_ABORTED '' @ em_dash @ '' chained request link skipped because a preceding link in the same chain errored''"
| "rcp_error_display ChainError = ''rcp/error: CHAIN_ERROR '' @ em_dash @ '' chained request link's own execution failed''"
| "rcp_error_display CrcError = ''rcp/error: CRC_ERROR '' @ em_dash @ '' end-to-end CRC-32 safe-point verification failed''"
| "rcp_error_display ConfigWriteNotImplemented = ''rcp/can: functional-config write (evt[2:0] = 111b, TC18 '' @ section_sign @ ''12.7.1) is not yet decoded by this crate''"
| "rcp_error_display PwmInNoSignal = ''rcp/error: PWM_IN_NO_SIGNAL '' @ em_dash @ '' PWM_IN endpoint has no signal to report''"
| "rcp_error_display PociFailure = ''rcp/error: POCI_FAILURE '' @ em_dash @ '' POCI (peripheral-on-chip-interconnect) transaction failed''"
| "rcp_error_display PresentationTimeTooFar = ''rcp/error: PRESENTATION_TIME_TOO_FAR '' @ em_dash @ '' requested presentation time is too far in the future''"
| "rcp_error_display GptpFail = ''rcp/error: GPTP_FAIL '' @ em_dash @ '' gPTP time is not available or not synchronized''"
| "rcp_error_display InvalidSize = ''rcp: invalid size''"
| "rcp_error_display (Other s) = ''rcp: '' @ s"

section \<open>The wire codes name the errors\<close>

lemma tc18_wire_code_inj:
  "tc18_wire_code e = Some c \<Longrightarrow> tc18_wire_code e' = Some c \<Longrightarrow> e = e'"
  by (cases e; cases e'; simp; force)

lemma tc18_wire_code_range:
  "tc18_wire_code e = Some c \<Longrightarrow> 1 \<le> c \<and> c \<le> 17"
  by (cases e) auto

lemma is_tc18_error_code_has_wire_code:
  "is_tc18_error_code e \<Longrightarrow> \<exists>c. tc18_wire_code e = Some c"
  by (cases e) simp_all

lemma relay_sentinels_have_no_wire_code:
  "is_relay_closed e \<or> is_relay_not_connected e \<or> is_relay_timeout e
     \<or> is_relay_payload_too_large e \<or> is_already_exists e \<Longrightarrow> tc18_wire_code e = None"
  by (auto simp: is_relay_closed_def is_relay_not_connected_def is_relay_timeout_def
      is_relay_payload_too_large_def is_already_exists_def)

end
