(* ===== verification/Rcp_Interfaces.thy ===== *)
theory Rcp_Interfaces
  imports Rcp_Error
begin

text \<open>
  The interfaces several components share, as locales. A \<open>wire_codec\<close> is a value type with
  a fixed-length encoding and a decoder that reads it back from the front of a buffer: every
  register block and configuration row of \<open>src/regmap.rs\<close> provides one. A
  \<open>guarded_machine\<close> is a state machine whose attempts either reach the requested state
  along a defined transition or leave the state alone: the server lifecycle, the request
  lifecycle and the power modes provide one.
\<close>

section \<open>Fixed-length wire codecs\<close>

locale wire_codec =
  fixes enc :: "'a \<Rightarrow> bytes"
    and dec :: "bytes \<Rightarrow> 'a rcp_result"
    and len :: nat
  assumes length_enc: "length (enc x) = len"
    and dec_enc_append: "dec (enc x @ rest) = Inr x"
    and dec_short: "length bs < len \<Longrightarrow> dec bs = Inl ShortFrame"
begin

lemma dec_enc: "dec (enc x) = Inr x"
  using dec_enc_append [of x "[]"] by simp

lemma enc_inj: "enc x = enc y \<longleftrightarrow> x = y"
  by (metis dec_enc sum.inject(2))

lemma dec_Inr_length: "dec bs = Inr x \<Longrightarrow> len \<le> length bs"
  using dec_short [of bs] by fastforce

end

text \<open>
  An exact codec has no reserved bits: every buffer of the right length is the encoding of
  the value it decodes to.
\<close>

locale exact_codec = wire_codec +
  assumes dec_exact: "length bs = len \<Longrightarrow> \<exists>x. dec bs = Inr x \<and> enc x = bs"
begin

lemma enc_dec: "length bs = len \<Longrightarrow> dec bs = Inr x \<Longrightarrow> enc x = bs"
  using dec_exact [of bs] by auto

lemma bij_enc: "bij_betw enc UNIV {bs. length bs = len}"
proof (rule bij_betwI')
  fix x y
  show "enc x = enc y \<longleftrightarrow> x = y" by (rule enc_inj)
next
  fix x
  show "enc x \<in> {bs. length bs = len}" by (simp add: length_enc)
next
  fix bs :: bytes
  assume "bs \<in> {bs. length bs = len}"
  then show "\<exists>x\<in>UNIV. bs = enc x" using dec_exact [of bs] by auto
qed

end

section \<open>Frames of variable length\<close>

text \<open>
  A frame takes the whole buffer. The decoder accepts exactly the encodings of the well-formed
  frames: nothing malformed gets through, and nothing well-formed is refused.
\<close>

locale frame_codec =
  fixes enc :: "'a \<Rightarrow> bytes"
    and dec :: "bytes \<Rightarrow> 'a rcp_result"
    and ok :: "'a \<Rightarrow> bool"
  assumes dec_Inr_iff: "dec b = Inr x \<longleftrightarrow> b = enc x \<and> ok x"
begin

lemma dec_enc: "ok x \<Longrightarrow> dec (enc x) = Inr x"
  by (simp add: dec_Inr_iff)

lemma dec_ok: "dec b = Inr x \<Longrightarrow> ok x"
  by (simp add: dec_Inr_iff)

lemma enc_dec: "dec b = Inr x \<Longrightarrow> enc x = b"
  by (simp add: dec_Inr_iff)

lemma enc_inj: "ok x \<Longrightarrow> ok y \<Longrightarrow> enc x = enc y \<longleftrightarrow> x = y"
  by (metis dec_enc sum.inject(2))

lemma dec_refuses: "(\<exists>e. dec b = Inl e) \<longleftrightarrow> b \<notin> enc ` {x. ok x}"
proof -
  have "(\<exists>e. dec b = Inl e) \<longleftrightarrow> \<not> (\<exists>x. dec b = Inr x)" by (cases "dec b") auto
  then show ?thesis by (auto simp: dec_Inr_iff)
qed

end

section \<open>Guarded state machines\<close>

text \<open>
  \<open>attempts step s xs\<close> runs a list of transition attempts from \<open>s\<close>, each a target state
  and the guard's input; a rejected attempt leaves the state as it is.
\<close>

fun attempts :: "('s \<Rightarrow> 's \<Rightarrow> 'i \<Rightarrow> 's rcp_result) \<Rightarrow> 's \<Rightarrow> ('s \<times> 'i) list \<Rightarrow> 's" where
  "attempts step s [] = s"
| "attempts step s ((t, i) # xs) =
     (case step s t i of Inl _ \<Rightarrow> attempts step s xs | Inr u \<Rightarrow> attempts step u xs)"

lemma attempts_append: "attempts step s (xs @ ys) = attempts step (attempts step s xs) ys"
  by (induction step s xs rule: attempts.induct) (auto split: sum.splits)

locale guarded_machine =
  fixes is_defined :: "'s \<Rightarrow> 's \<Rightarrow> bool"
    and step :: "'s \<Rightarrow> 's \<Rightarrow> 'i \<Rightarrow> 's rcp_result"
  assumes step_Inr: "step s t i = Inr u \<Longrightarrow> u = t \<and> is_defined s t"
    and step_undefined: "\<not> is_defined s t \<Longrightarrow> step s t i = Inl RequestRejected"
begin

lemma attempts_reachable: "is_defined\<^sup>*\<^sup>* s (attempts step s xs)"
proof (induction xs arbitrary: s)
  case Nil
  then show ?case by simp
next
  case (Cons x xs)
  obtain t i where x: "x = (t, i)" by (cases x)
  show ?case
  proof (cases "step s t i")
    case (Inl e)
    then show ?thesis using Cons.IH [of s] by (simp add: x)
  next
    case (Inr u)
    then have "is_defined s u" using step_Inr by blast
    moreover have "is_defined\<^sup>*\<^sup>* u (attempts step u xs)" by (rule Cons.IH)
    ultimately show ?thesis
      using Inr by (simp add: x)
  qed
qed

text \<open>A set of states closed under the defined transitions is never left.\<close>

lemma attempts_invariant:
  assumes closed: "\<And>s t. P s \<Longrightarrow> is_defined s t \<Longrightarrow> P t" and start: "P s"
  shows "P (attempts step s xs)"
proof -
  have "is_defined\<^sup>*\<^sup>* s (attempts step s xs)" by (rule attempts_reachable)
  then show ?thesis
    using start by (induction rule: rtranclp_induct) (auto intro: closed)
qed

text \<open>A state without defined transitions is final.\<close>

lemma attempts_final:
  assumes "\<And>t. \<not> is_defined s t"
  shows "attempts step s xs = s"
  by (rule attempts_invariant [where P = "\<lambda>u. u = s"]) (use assms in auto)

end

end
