(* ===== verification/Rcp_Acf.thy ===== *)
theory Rcp_Acf
  imports Rcp_Interfaces
begin

text \<open>
  ACF messages, \<open>src/acf.rs\<close>: the 8-octet \<open>byte_message_info\<close> header with its packed
  fields, the quadlet arithmetic behind \<open>acf_msg_length\<close> and \<open>pad\<close>, the ACF_ABB and
  ACF_GBB messages, the loop that splits concatenated ACF_ABB messages, the echo-back rule
  and the wire-level error response.
\<close>

section \<open>The header \<open>byte_message_info\<close>\<close>

definition ACF_MSG_TYPE_7BIT_MAX :: u8 where [rcp_consts]: "ACF_MSG_TYPE_7BIT_MAX = 0x7F"
definition ACF_MSG_LENGTH_9BIT_MAX :: u16 where [rcp_consts]: "ACF_MSG_LENGTH_9BIT_MAX = 0x01FF"
definition PAD_2BIT_MAX :: u8 where [rcp_consts]: "PAD_2BIT_MAX = 0x03"
definition BYTE_MESSAGE_INFO_11BIT_MAX :: u16 where
  [rcp_consts]: "BYTE_MESSAGE_INFO_11BIT_MAX = 0x07FF"
definition EVT_SUB_OPCODE_MAX :: u8 where [rcp_consts]: "EVT_SUB_OPCODE_MAX = 0x07"
definition READ_SIZE_SEGMENT_12BIT_MAX :: u16 where
  [rcp_consts]: "READ_SIZE_SEGMENT_12BIT_MAX = 0x0FFF"
definition BYTE_MESSAGE_INFO_LEN :: nat where [rcp_consts]: "BYTE_MESSAGE_INFO_LEN = 8"

record evt =
  evt_ack :: bool
  evt_sub_opcode :: u8

definition raw_nibble :: "evt \<Rightarrow> u8" where
  "raw_nibble e = push_bit 3 (u8_of_bool (evt_ack e)) OR (evt_sub_opcode e AND 0x7)"

datatype read_size_or_segment = ReadSizeOrSegment (as_read_size: u16)

definition as_segment_num :: "read_size_or_segment \<Rightarrow> u16" where
  "as_segment_num r = (case r of ReadSizeOrSegment v \<Rightarrow> v)"

record byte_message_info =
  acf_msg_type :: u8
  acf_msg_length :: u16
  bmi_pad :: u8
  bmi_mtv :: bool
  byte_bus_id :: u16
  bmi_evt :: evt
  bmi_hs :: bool
  bmi_cs :: bool
  transaction_num :: u8
  bmi_op :: bool
  bmi_rsp :: bool
  bmi_err :: bool
  bmi_ms :: bool
  read_size_segment :: read_size_or_segment

definition evt_default :: evt where
  "evt_default = \<lparr>evt_ack = False, evt_sub_opcode = 0\<rparr>"

definition byte_message_info_default :: byte_message_info where
  "byte_message_info_default =
    \<lparr>acf_msg_type = 0, acf_msg_length = 0, bmi_pad = 0, bmi_mtv = False, byte_bus_id = 0,
     bmi_evt = evt_default, bmi_hs = False, bmi_cs = False, transaction_num = 0, bmi_op = False,
     bmi_rsp = False, bmi_err = False, bmi_ms = False, read_size_segment = ReadSizeOrSegment 0\<rparr>"

definition bmi_read_size :: "byte_message_info \<Rightarrow> u16 option" where
  "bmi_read_size info =
    (if bmi_op info then None else Some (as_read_size (read_size_segment info)))"

definition bmi_segment_num :: "byte_message_info \<Rightarrow> u16 option" where
  "bmi_segment_num info =
    (if bmi_op info then Some (as_segment_num (read_size_segment info)) else None)"

definition EVT_RESPONSE_ACKNOWLEDGE :: u8 where [rcp_consts]: "EVT_RESPONSE_ACKNOWLEDGE = 0x0F"

datatype response_kind = KindAcknowledge | KindWrite | KindRead | KindError

definition response_kind_of :: "byte_message_info \<Rightarrow> response_kind" where
  "response_kind_of info =
    (if raw_nibble (bmi_evt info) = EVT_RESPONSE_ACKNOWLEDGE then KindAcknowledge
     else if bmi_err info then KindError
     else if bmi_op info then KindWrite
     else KindRead)"

fun response_kind_as_str :: "response_kind \<Rightarrow> string" where
  "response_kind_as_str KindAcknowledge = ''acknowledge''"
| "response_kind_as_str KindWrite = ''write''"
| "response_kind_as_str KindRead = ''read''"
| "response_kind_as_str KindError = ''error''"

definition encode_byte_message_info :: "byte_message_info \<Rightarrow> bytes rcp_result" where
  "encode_byte_message_info info =
    (if acf_msg_type info > ACF_MSG_TYPE_7BIT_MAX
        \<or> acf_msg_length info > ACF_MSG_LENGTH_9BIT_MAX
        \<or> bmi_pad info > PAD_2BIT_MAX
        \<or> byte_bus_id info > BYTE_MESSAGE_INFO_11BIT_MAX
        \<or> evt_sub_opcode (bmi_evt info) > EVT_SUB_OPCODE_MAX
        \<or> as_read_size (read_size_segment info) > READ_SIZE_SEGMENT_12BIT_MAX
     then Inl InvalidSize
     else Inr
       [push_bit 1 (acf_msg_type info) OR ucast (drop_bit 8 (acf_msg_length info) AND 0x1),
        ucast (acf_msg_length info AND 0xFF),
        push_bit 6 (bmi_pad info) OR push_bit 5 (u8_of_bool (bmi_mtv info))
          OR ucast (drop_bit 8 (byte_bus_id info) AND 0x7),
        ucast (byte_bus_id info AND 0xFF),
        push_bit 4 (raw_nibble (bmi_evt info)) OR push_bit 1 (u8_of_bool (bmi_hs info))
          OR u8_of_bool (bmi_cs info),
        transaction_num info,
        push_bit 7 (u8_of_bool (bmi_op info)) OR push_bit 6 (u8_of_bool (bmi_rsp info))
          OR push_bit 5 (u8_of_bool (bmi_err info)) OR push_bit 4 (u8_of_bool (bmi_ms info))
          OR ucast (drop_bit 8 (as_read_size (read_size_segment info)) AND 0xF),
        ucast (as_read_size (read_size_segment info) AND 0xFF)])"

definition decode_byte_message_info :: "bytes \<Rightarrow> byte_message_info rcp_result" where
  "decode_byte_message_info b =
    (if length b < BYTE_MESSAGE_INFO_LEN then Inl ShortFrame
     else let evt_bits = drop_bit 4 (b ! 4) in Inr
      \<lparr>acf_msg_type = drop_bit 1 (b ! 0),
       acf_msg_length = push_bit 8 (ucast (b ! 0 AND 0x1)) OR ucast (b ! 1),
       bmi_pad = drop_bit 6 (b ! 2),
       bmi_mtv = (drop_bit 5 (b ! 2) AND 0x1 \<noteq> 0),
       byte_bus_id = push_bit 8 (ucast (b ! 2 AND 0x7)) OR ucast (b ! 3),
       bmi_evt = \<lparr>evt_ack = (drop_bit 3 evt_bits AND 0x1 \<noteq> 0), evt_sub_opcode = evt_bits AND 0x7\<rparr>,
       bmi_hs = (drop_bit 1 (b ! 4) AND 0x1 \<noteq> 0),
       bmi_cs = (b ! 4 AND 0x1 \<noteq> 0),
       transaction_num = b ! 5,
       bmi_op = (drop_bit 7 (b ! 6) AND 0x1 \<noteq> 0),
       bmi_rsp = (drop_bit 6 (b ! 6) AND 0x1 \<noteq> 0),
       bmi_err = (drop_bit 5 (b ! 6) AND 0x1 \<noteq> 0),
       bmi_ms = (drop_bit 4 (b ! 6) AND 0x1 \<noteq> 0),
       read_size_segment = ReadSizeOrSegment (push_bit 8 (ucast (b ! 6 AND 0xF)) OR ucast (b ! 7))\<rparr>)"

section \<open>Quadlet arithmetic\<close>

definition ACF_ABB_MSG_TYPE :: u8 where [rcp_consts]: "ACF_ABB_MSG_TYPE = 0x0E"
definition ACF_GBB_MSG_TYPE :: u8 where [rcp_consts]: "ACF_GBB_MSG_TYPE = 0x0D"
definition ACF_ABB_HEADER_LEN :: nat where
  [rcp_consts]: "ACF_ABB_HEADER_LEN = BYTE_MESSAGE_INFO_LEN"
definition ACF_GBB_HEADER_LEN :: nat where
  [rcp_consts]: "ACF_GBB_HEADER_LEN = BYTE_MESSAGE_INFO_LEN + 8"
definition QUADLET_LEN :: nat where [rcp_consts]: "QUADLET_LEN = 4"

definition quadlets_and_pad_for_message :: "nat \<Rightarrow> nat \<Rightarrow> (u16 \<times> u8) rcp_result" where
  "quadlets_and_pad_for_message header_len payload_len =
    (let total = header_len + payload_len;
         remainder = total mod QUADLET_LEN;
         pad = (if remainder = 0 then 0 else QUADLET_LEN - remainder);
         quadlets = (total + pad) div QUADLET_LEN
     in and_then
          (ok_or (Option.bind (u16_try_from quadlets)
                   (\<lambda>q. if q \<le> ACF_MSG_LENGTH_9BIT_MAX then Some q else None)) InvalidSize)
          (\<lambda>msg_length. Inr (msg_length, of_nat pad)))"

definition take_message_bytes :: "bytes \<Rightarrow> nat \<Rightarrow> byte_message_info \<Rightarrow> (bytes \<times> nat) rcp_result" where
  "take_message_bytes b header_len info =
    (let total_octets = unat (acf_msg_length info) * QUADLET_LEN in
     and_then (ok_or (checked_sub_nat total_octets header_len) InvalidSize) (\<lambda>region_len.
     and_then (ok_or (checked_sub_nat region_len (unat (bmi_pad info))) InvalidSize) (\<lambda>payload_len.
     let consumed = header_len + region_len in
     if length b < consumed then Inl ShortFrame
     else Inr (subslice header_len payload_len b, consumed))))"

section \<open>ACF_ABB and ACF_GBB messages\<close>

definition wrong_discriminant_error ::
  "string \<Rightarrow> u8 \<Rightarrow> u8 \<Rightarrow> u8 \<Rightarrow> string \<Rightarrow> rcp_error" where
  "wrong_discriminant_error ctxt expected got sibling_value sibling_name =
    (let hint = (if got = sibling_value
                 then '' (that'' @ [CHR 0x27] @ ''s '' @ sibling_name @ [CHR 0x27]
                      @ ''s discriminant, not decodable by this function)''
                 else [])
     in Other (ctxt @ '': expected acf_msg_type 0x'' @ hex02 expected @ '', got 0x'' @ hex02 got @ hint))"

record acf_abb_message =
  abb_info :: byte_message_info
  abb_payload :: bytes

definition encode_acf_abb :: "acf_abb_message \<Rightarrow> bytes rcp_result" where
  "encode_acf_abb msg =
    and_then (quadlets_and_pad_for_message ACF_ABB_HEADER_LEN (length (abb_payload msg))) (\<lambda>(l, pad).
    and_then (encode_byte_message_info
               ((abb_info msg)\<lparr>acf_msg_type := ACF_ABB_MSG_TYPE, acf_msg_length := l, bmi_pad := pad\<rparr>))
      (\<lambda>info_bytes. Inr (info_bytes @ abb_payload msg @ replicate (unat pad) 0)))"

definition abb_discriminant_error :: "u8 \<Rightarrow> rcp_error" where
  "abb_discriminant_error got =
    wrong_discriminant_error ''acf_abb'' ACF_ABB_MSG_TYPE got ACF_GBB_MSG_TYPE ''ACF_GBB''"

definition decode_acf_abb :: "bytes \<Rightarrow> acf_abb_message rcp_result" where
  "decode_acf_abb b =
    (if length b < ACF_ABB_HEADER_LEN then Inl ShortFrame
     else and_then (decode_byte_message_info (take ACF_ABB_HEADER_LEN b)) (\<lambda>info.
       if acf_msg_type info \<noteq> ACF_ABB_MSG_TYPE then Inl (abb_discriminant_error (acf_msg_type info))
       else and_then (take_message_bytes b ACF_ABB_HEADER_LEN info) (\<lambda>(payload, _).
         Inr \<lparr>abb_info = info, abb_payload = payload\<rparr>)))"

text \<open>
  One turn of the splitting loop: the message at the front of \<open>remaining\<close> and the number
  of octets it occupies. The loop advances by that number, which the header length bounds
  from below, so it ends.
\<close>

definition next_abb_message :: "bytes \<Rightarrow> (acf_abb_message \<times> nat) rcp_result" where
  "next_abb_message remaining =
    (if length remaining < ACF_ABB_HEADER_LEN then Inl ShortFrame
     else and_then (decode_byte_message_info (take ACF_ABB_HEADER_LEN remaining)) (\<lambda>info.
       if acf_msg_type info \<noteq> ACF_ABB_MSG_TYPE then Inl (abb_discriminant_error (acf_msg_type info))
       else and_then (take_message_bytes remaining ACF_ABB_HEADER_LEN info) (\<lambda>(payload, consumed).
         Inr (\<lparr>abb_info = info, abb_payload = payload\<rparr>, consumed))))"

lemma take_message_bytes_consumed:
  "take_message_bytes b h info = Inr (payload, consumed) \<Longrightarrow>
     h \<le> consumed \<and> consumed \<le> length b \<and> consumed = unat (acf_msg_length info) * 4"
  by (auto simp: take_message_bytes_def and_then_eq_Inr Let_def checked_sub_nat_def rcp_consts
      split: if_splits)

lemma next_abb_message_consumed:
  "next_abb_message remaining = Inr (msg, consumed) \<Longrightarrow> 8 \<le> consumed \<and> consumed \<le> length remaining"
  by (auto simp: next_abb_message_def and_then_eq_Inr rcp_consts split: if_splits
      dest!: take_message_bytes_consumed)

function abb_messages_loop :: "bytes \<Rightarrow> nat \<Rightarrow> acf_abb_message list \<Rightarrow> acf_abb_message list rcp_result" where
  "abb_messages_loop b offset messages =
    (if offset < length b then
       (case next_abb_message (drop offset b) of
          Inl e \<Rightarrow> Inl e
        | Inr (msg, consumed) \<Rightarrow> abb_messages_loop b (offset + consumed) (messages @ [msg]))
     else Inr messages)"
  by pat_completeness auto
termination
  by (relation "measure (\<lambda>(b, offset, _). length b - offset)")
    (auto dest!: next_abb_message_consumed)

declare abb_messages_loop.simps [simp del]

definition decode_acf_abb_messages :: "bytes \<Rightarrow> acf_abb_message list rcp_result" where
  "decode_acf_abb_messages b = (if b = [] then Inl ShortFrame else abb_messages_loop b 0 [])"

record acf_gbb_message =
  gbb_info :: byte_message_info
  gbb_message_timestamp :: u64
  gbb_payload :: bytes

definition encode_acf_gbb :: "acf_gbb_message \<Rightarrow> bytes rcp_result" where
  "encode_acf_gbb msg =
    and_then (quadlets_and_pad_for_message ACF_GBB_HEADER_LEN (length (gbb_payload msg))) (\<lambda>(l, pad).
    and_then (encode_byte_message_info
               ((gbb_info msg)\<lparr>acf_msg_type := ACF_GBB_MSG_TYPE, acf_msg_length := l, bmi_pad := pad\<rparr>))
      (\<lambda>info_bytes. Inr (info_bytes @ to_be_bytes (gbb_message_timestamp msg) @ gbb_payload msg
                         @ replicate (unat pad) 0)))"

definition decode_acf_gbb :: "bytes \<Rightarrow> acf_gbb_message rcp_result" where
  "decode_acf_gbb b =
    (if length b < ACF_GBB_HEADER_LEN then Inl ShortFrame
     else and_then (decode_byte_message_info (take BYTE_MESSAGE_INFO_LEN b)) (\<lambda>info.
       if acf_msg_type info \<noteq> ACF_GBB_MSG_TYPE
       then Inl (wrong_discriminant_error ''acf_gbb'' ACF_GBB_MSG_TYPE (acf_msg_type info)
                   ACF_ABB_MSG_TYPE ''ACF_ABB'')
       else and_then (take_message_bytes b ACF_GBB_HEADER_LEN info) (\<lambda>(payload, _).
         Inr \<lparr>gbb_info = info, gbb_message_timestamp = from_be_bytes (subslice BYTE_MESSAGE_INFO_LEN 8 b),
              gbb_payload = payload\<rparr>)))"

section \<open>Echo-back rule and error responses\<close>

definition build_response_info :: "byte_message_info \<Rightarrow> byte_message_info \<Rightarrow> byte_message_info" where
  "build_response_info request response =
    response\<lparr>byte_bus_id := byte_bus_id request, bmi_rsp := True\<rparr>"

definition verify_echo_back :: "byte_message_info \<Rightarrow> byte_message_info \<Rightarrow> unit rcp_result" where
  "verify_echo_back request response =
    (if byte_bus_id response \<noteq> byte_bus_id request then Inl EpError else Inr ())"

definition build_error_response :: "byte_message_info \<Rightarrow> rcp_error \<Rightarrow> acf_abb_message option" where
  "build_error_response request error =
    (case tc18_wire_code error of None \<Rightarrow> None
     | Some code \<Rightarrow> Some \<lparr>abb_info = (build_response_info request request)\<lparr>bmi_err := True\<rparr>,
                          abb_payload = [code]\<rparr>)"

section \<open>The header survives the wire\<close>

text \<open>The widths the encoder checks, as a predicate.\<close>

definition info_in_range :: "byte_message_info \<Rightarrow> bool" where
  "info_in_range info \<longleftrightarrow>
     acf_msg_type info \<le> ACF_MSG_TYPE_7BIT_MAX \<and> acf_msg_length info \<le> ACF_MSG_LENGTH_9BIT_MAX \<and>
     bmi_pad info \<le> PAD_2BIT_MAX \<and> byte_bus_id info \<le> BYTE_MESSAGE_INFO_11BIT_MAX \<and>
     evt_sub_opcode (bmi_evt info) \<le> EVT_SUB_OPCODE_MAX \<and>
     as_read_size (read_size_segment info) \<le> READ_SIZE_SEGMENT_12BIT_MAX"

lemma encode_byte_message_info_Inr_iff:
  "(\<exists>bs. encode_byte_message_info info = Inr bs) \<longleftrightarrow> info_in_range info"
  by (auto simp: encode_byte_message_info_def info_in_range_def not_less)

lemma encode_byte_message_info_Inl:
  "encode_byte_message_info info = Inl e \<Longrightarrow> e = InvalidSize \<and> \<not> info_in_range info"
  by (auto simp: encode_byte_message_info_def info_in_range_def not_less split: if_splits)

lemma length_encode_byte_message_info:
  "encode_byte_message_info info = Inr bs \<Longrightarrow> length bs = BYTE_MESSAGE_INFO_LEN"
  by (auto simp: encode_byte_message_info_def BYTE_MESSAGE_INFO_LEN_def split: if_splits)

lemma field_bits:
  "(x :: u8) \<le> 0x7F \<Longrightarrow> \<not> bit x 7"
  "(x :: u8) \<le> 3 \<Longrightarrow> 2 \<le> n \<Longrightarrow> \<not> bit x n"
  "(x :: u8) \<le> 7 \<Longrightarrow> 3 \<le> n \<Longrightarrow> \<not> bit x n"
  "(y :: u16) \<le> 0x1FF \<Longrightarrow> 9 \<le> n \<Longrightarrow> \<not> bit y n"
  "(y :: u16) \<le> 0x7FF \<Longrightarrow> 11 \<le> n \<Longrightarrow> \<not> bit y n"
  "(y :: u16) \<le> 0xFFF \<Longrightarrow> 12 \<le> n \<Longrightarrow> \<not> bit y n"
  using uint_less_imp_not_bit [of x 7] uint_less_imp_not_bit [of x 2 n]
    uint_less_imp_not_bit [of x 3 n] uint_less_imp_not_bit [of y 9 n]
    uint_less_imp_not_bit [of y 11 n] uint_less_imp_not_bit [of y 12 n]
  by (simp_all add: word_le_def)

lemma packed_type_length:
  fixes t :: u8 and l :: u16
  assumes "t \<le> 0x7F" and "l \<le> 0x1FF"
  shows "drop_bit 1 (push_bit 1 t OR ucast (drop_bit 8 l AND 0x1)) = t"
    and "push_bit 8 (ucast ((push_bit 1 t OR ucast (drop_bit 8 l AND 0x1)) AND 0x1))
         OR ucast (ucast (l AND 0xFF) :: u8) = l"
  using field_bits(1) [OF assms(1)] field_bits(4) [OF assms(2)]
  by (simp_all add: u8_eq_iff u16_eq_iff bit_simps numeral_2_eq_2)

lemma packed_pad_bus:
  fixes p :: u8 and i :: u16 and m :: bool
  assumes "p \<le> 3" and "i \<le> 0x7FF"
  defines "w \<equiv> push_bit 6 p OR push_bit 5 (u8_of_bool m) OR ucast (drop_bit 8 i AND 0x7)"
  shows "drop_bit 6 w = p"
    and "drop_bit 5 w AND 0x1 \<noteq> 0 \<longleftrightarrow> m"
    and "push_bit 8 (ucast (w AND 0x7)) OR ucast (ucast (i AND 0xFF) :: u8) = i"
  using field_bits(2) [OF assms(1)] field_bits(5) [OF assms(2)]
  by (simp_all add: w_def u8_eq_iff u16_eq_iff bit_simps)

lemma packed_evt:
  fixes s :: u8 and a h c :: bool
  assumes "s \<le> 7"
  defines "w \<equiv> push_bit 4 (push_bit 3 (u8_of_bool a) OR (s AND 0x7)) OR push_bit 1 (u8_of_bool h)
               OR u8_of_bool c"
  shows "drop_bit 3 (drop_bit 4 w) AND 0x1 \<noteq> 0 \<longleftrightarrow> a"
    and "drop_bit 4 w AND 0x7 = s"
    and "drop_bit 1 w AND 0x1 \<noteq> 0 \<longleftrightarrow> h"
    and "w AND 0x1 \<noteq> 0 \<longleftrightarrow> c"
  using field_bits(3) [OF assms(1)]
  by (simp_all add: w_def u8_eq_iff bit_simps)

lemma packed_flags_segment:
  fixes r :: u16 and a b c d :: bool
  assumes "r \<le> 0xFFF"
  defines "w \<equiv> push_bit 7 (u8_of_bool a) OR push_bit 6 (u8_of_bool b) OR push_bit 5 (u8_of_bool c)
               OR push_bit 4 (u8_of_bool d) OR ucast (drop_bit 8 r AND 0xF)"
  shows "drop_bit 7 w AND 0x1 \<noteq> 0 \<longleftrightarrow> a"
    and "drop_bit 6 w AND 0x1 \<noteq> 0 \<longleftrightarrow> b"
    and "drop_bit 5 w AND 0x1 \<noteq> 0 \<longleftrightarrow> c"
    and "drop_bit 4 w AND 0x1 \<noteq> 0 \<longleftrightarrow> d"
    and "push_bit 8 (ucast (w AND 0xF)) OR ucast (ucast (r AND 0xFF) :: u8) = r"
  using field_bits(6) [OF assms(1)]
  by (simp_all add: w_def u8_eq_iff u16_eq_iff bit_simps)

lemma decode_encode_byte_message_info:
  assumes "encode_byte_message_info info = Inr bs"
  shows "decode_byte_message_info (bs @ rest) = Inr info"
proof -
  have r: "info_in_range info"
    using assms encode_byte_message_info_Inr_iff by blast
  then have r1: "acf_msg_type info \<le> 0x7F" "acf_msg_length info \<le> 0x1FF" "bmi_pad info \<le> 3"
      "byte_bus_id info \<le> 0x7FF" "evt_sub_opcode (bmi_evt info) \<le> 7"
      "as_read_size (read_size_segment info) \<le> 0xFFF"
    by (simp_all add: info_in_range_def rcp_consts)
  show ?thesis
    using assms packed_type_length [OF r1(1,2)] packed_pad_bus [OF r1(3,4)] packed_evt [OF r1(5)]
      packed_flags_segment [OF r1(6)]
    by (auto simp: encode_byte_message_info_def decode_byte_message_info_def raw_nibble_def
        BYTE_MESSAGE_INFO_LEN_def Let_def nth_Cons_numeral split: if_splits)
qed

text \<open>
  The other direction: every eight octets decode to an encodable header, and encoding it again
  gives the octets back with the two reserved bit pairs cleared.
\<close>

definition clear_reserved :: "bytes \<Rightarrow> bytes" where
  "clear_reserved b =
    [b ! 0, b ! 1, b ! 2 AND 0xE7, b ! 3, b ! 4 AND 0xF3, b ! 5, b ! 6, b ! 7]"

lemma masks:
  "mask 1 = (0x1 :: u8)" "mask 2 = (0x3 :: u8)" "mask 3 = (0x7 :: u8)" "mask 4 = (0xF :: u8)"
  "mask 7 = (0x7F :: u8)" "mask 9 = (0x1FF :: u16)" "mask 11 = (0x7FF :: u16)"
  "mask 12 = (0xFFF :: u16)"
  by (simp_all add: mask_eq_exp_minus_1)

lemma two_octet_field_le:
  "k \<le> 8 \<Longrightarrow> push_bit 8 (ucast (x AND mask k :: u8)) OR ucast (y :: u8) \<le> (mask (k + 8) :: u16)"
  by (rule not_bit_imp_le_mask) (auto simp: bit_simps)

lemma decode_in_range:
  assumes "decode_byte_message_info b = Inr info"
  shows "info_in_range info"
proof -
  have "drop_bit 1 x \<le> (mask 7 :: u8)" "drop_bit 6 x \<le> (mask 2 :: u8)" "x AND mask 3 \<le> (mask 3 :: u8)" for x
    by (rule not_bit_imp_le_mask; simp add: bit_simps)+
  then show ?thesis
    using assms two_octet_field_le [of 1] two_octet_field_le [of 3] two_octet_field_le [of 4]
    by (auto simp: decode_byte_message_info_def info_in_range_def Let_def rcp_consts masks
        split: if_splits)
qed

lemma reencode_byte_message_info:
  assumes "decode_byte_message_info b = Inr info"
  shows "encode_byte_message_info info = Inr (clear_reserved b)"
proof -
  have "encode_byte_message_info info \<noteq> Inl InvalidSize"
    using decode_in_range [OF assms] encode_byte_message_info_Inl by blast
  with assms show ?thesis
    by (simp add: decode_byte_message_info_def encode_byte_message_info_def
        clear_reserved_def raw_nibble_def Let_def split: if_splits)
      (clarsimp simp: u8_eq_iff bit_simps simp flip: numeral_2_eq_2)
qed

text \<open>What evaluates an encoder on a concrete message.\<close>

lemmas acf_eval = encode_acf_abb_def encode_acf_gbb_def quadlets_and_pad_for_message_def
  encode_byte_message_info_def byte_message_info_default_def evt_default_def raw_nibble_def
  u16_try_from_def u8_of_bool_def to_be_bytes_def be_bytes_numeral replicate_unfold rcp_consts

section \<open>Further facts\<close>

text \<open>The packed 8-octet header is read back field by field, whatever follows it.\<close>

theorem byte_message_info_round_trip:
  assumes "encode_byte_message_info info = Inr bs"
  shows "length bs = 8 \<and> decode_byte_message_info (bs @ rest) = Inr info"
  using length_encode_byte_message_info [OF assms] decode_encode_byte_message_info [OF assms]
  by (simp add: rcp_consts)

text \<open>The decoder loses nothing but the reserved bits. Encoding a decoded header again succeeds and gives back the eight octets with the two reserved bit pairs cleared.\<close>

theorem byte_message_info_canonical:
  assumes "decode_byte_message_info b = Inr info"
  shows "encode_byte_message_info info = Inr (clear_reserved b)"
  using assms by (rule reencode_byte_message_info)


end
