(* ===== verification/Rcp_Acf_Messages.thy ===== *)
theory Rcp_Acf_Messages
  imports Rcp_Acf
begin

text \<open>
  What the ACF codecs of \<open>src/acf.rs\<close> guarantee about whole messages: the quadlet arithmetic,
  the round trips of ACF_ABB and ACF_GBB messages, the splitting loop on concatenated
  messages, and the shape of error responses.
\<close>

section \<open>Messages survive the wire\<close>

text \<open>
  The number of padding octets that fill \<open>n\<close> octets up to a whole quadlet. It fits the
  2-bit field, and header, payload and padding together are a whole number of quadlets.
\<close>

definition pad_for :: "nat \<Rightarrow> nat" where
  "pad_for n = (4 - n mod 4) mod 4"

lemma pad_for_less: "pad_for n < 4"
  by (simp add: pad_for_def)

lemma pad_for_cases: "pad_for n = (if n mod 4 = 0 then 0 else 4 - n mod 4)"
  by (simp add: pad_for_def)

lemma pad_for_dvd: "4 dvd n + pad_for n"
proof (cases "n mod 4 = 0")
  case False
  have "n + (4 - n mod 4) = 4 * (n div 4) + 4"
    using mult_div_mod_eq [of 4 n] mod_less_divisor [of 4 n] by linarith
  then show ?thesis using False by (simp add: pad_for_cases)
qed (auto simp: pad_for_cases)

lemma pad_for_header: "pad_for (8 + n) = pad_for n" "pad_for (16 + n) = pad_for n"
  by (simp_all add: pad_for_def mod_add_eq [of 8 4 n, symmetric] mod_add_eq [of 16 4 n, symmetric])

lemma u16_of_nat_le_511: "q < 65536 \<Longrightarrow> (of_nat q :: u16) \<le> 0x1FF \<longleftrightarrow> q \<le> 511"
  by (simp add: word_le_nat_alt unat_of_nat)

lemma quadlets_limit:
  "Option.bind (u16_try_from q) (\<lambda>q. if q \<le> ACF_MSG_LENGTH_9BIT_MAX then Some q else None)
     = (if q \<le> 511 then Some (of_nat q) else None)"
  using u16_of_nat_le_511 [of q] by (cases "q < 65536") (simp_all add: u16_try_from_def rcp_consts)

lemma quadlets_and_pad_eq:
  "quadlets_and_pad_for_message h p =
    (if (h + p + pad_for (h + p)) div 4 \<le> 511
     then Inr (of_nat ((h + p + pad_for (h + p)) div 4), of_nat (pad_for (h + p)))
     else Inl InvalidSize)"
  unfolding quadlets_and_pad_for_message_def Let_def QUADLET_LEN_def pad_for_cases [symmetric]
    quadlets_limit
  by (cases "(h + p + pad_for (h + p)) div 4 \<le> 511")
    (simp_all only: if_True if_False ok_or.simps and_then.simps simp_thms)

lemma quadlets_and_pad_Inr:
  assumes "quadlets_and_pad_for_message h p = Inr (l, pad)"
  shows "unat l * 4 = h + p + unat pad" and "unat pad = pad_for (h + p)"
proof -
  let ?n = "h + p + pad_for (h + p)"
  from assms have l: "l = of_nat (?n div 4)" "pad = of_nat (pad_for (h + p))" "?n div 4 \<le> 511"
    by (auto simp: quadlets_and_pad_eq split: if_splits)
  show pad: "unat pad = pad_for (h + p)"
    using pad_for_less [of "h + p"] by (simp add: l unat_of_nat)
  have "?n div 4 * 4 = ?n"
    using pad_for_dvd by (rule dvd_div_mult_self)
  then show "unat l * 4 = h + p + unat pad"
    using l(3) by (simp add: l(1) pad unat_of_nat)
qed

text \<open>
  The header an encoder puts on the wire: the caller's header with type, length and padding
  overwritten. \<open>framed h ty info n\<close> says that encoding a payload of \<open>n\<close> octets after an
  \<open>h\<close>-octet header succeeds and which header it emits.
\<close>

definition wire_info :: "nat \<Rightarrow> u8 \<Rightarrow> byte_message_info \<Rightarrow> nat \<Rightarrow> byte_message_info" where
  "wire_info h ty info n = info\<lparr>acf_msg_type := ty,
     acf_msg_length := of_nat ((h + n + pad_for (h + n)) div 4), bmi_pad := of_nat (pad_for (h + n))\<rparr>"

definition on_wire :: "acf_abb_message \<Rightarrow> acf_abb_message" where
  "on_wire msg =
    msg\<lparr>abb_info := wire_info ACF_ABB_HEADER_LEN ACF_ABB_MSG_TYPE (abb_info msg) (length (abb_payload msg))\<rparr>"

lemma wire_info_fields [simp]:
  "acf_msg_type (wire_info h ty info n) = ty"
  "byte_bus_id (wire_info h ty info n) = byte_bus_id info"
  "transaction_num (wire_info h ty info n) = transaction_num info"
  "bmi_op (wire_info h ty info n) = bmi_op info"
  "bmi_rsp (wire_info h ty info n) = bmi_rsp info"
  "bmi_err (wire_info h ty info n) = bmi_err info"
  by (simp_all add: wire_info_def)

lemma on_wire_fields [simp]:
  "abb_payload (on_wire msg) = abb_payload msg"
  "abb_info (on_wire msg) =
     wire_info ACF_ABB_HEADER_LEN ACF_ABB_MSG_TYPE (abb_info msg) (length (abb_payload msg))"
  by (simp_all add: on_wire_def)

lemma take_message_bytes_append:
  assumes "unat (acf_msg_length info) * 4 = h + p + unat (bmi_pad info)"
    and "length b = h + p + unat (bmi_pad info)"
  shows "take_message_bytes (b @ rest) h info = Inr (subslice h p b, h + p + unat (bmi_pad info))"
  using assms
  by (simp add: take_message_bytes_def Let_def checked_sub_nat_def rcp_consts subslice_def)

lemma encode_acf_abb_Inr:
  assumes "encode_acf_abb msg = Inr bs"
  obtains hdr pad where
    "encode_byte_message_info (abb_info (on_wire msg)) = Inr hdr"
    "bs = hdr @ abb_payload msg @ replicate (unat pad) 0"
    "bmi_pad (abb_info (on_wire msg)) = pad"
    "unat (acf_msg_length (abb_info (on_wire msg))) * 4 = 8 + length (abb_payload msg) + unat pad"
proof -
  from assms obtain l pad hdr
    where q: "quadlets_and_pad_for_message ACF_ABB_HEADER_LEN (length (abb_payload msg)) = Inr (l, pad)"
      and hdr: "encode_byte_message_info ((abb_info msg)\<lparr>acf_msg_type := ACF_ABB_MSG_TYPE,
                   acf_msg_length := l, bmi_pad := pad\<rparr>) = Inr hdr"
      and bs: "bs = hdr @ abb_payload msg @ replicate (unat pad) 0"
    by (auto simp: encode_acf_abb_def and_then_eq_Inr)
  have info: "(abb_info msg)\<lparr>acf_msg_type := ACF_ABB_MSG_TYPE, acf_msg_length := l, bmi_pad := pad\<rparr>
      = abb_info (on_wire msg)"
    using q by (auto simp: wire_info_def quadlets_and_pad_eq split: if_splits)
  have fields: "bmi_pad (abb_info (on_wire msg)) = pad" "acf_msg_length (abb_info (on_wire msg)) = l"
    unfolding info [symmetric] by simp_all
  have "unat (acf_msg_length (abb_info (on_wire msg))) * 4 = 8 + length (abb_payload msg) + unat pad"
    using quadlets_and_pad_Inr(1) [OF q] unfolding fields ACF_ABB_HEADER_LEN_def BYTE_MESSAGE_INFO_LEN_def .
  then show thesis by (rule that [OF hdr [unfolded info] bs fields(1)])
qed

lemma next_abb_encode:
  assumes "encode_acf_abb msg = Inr bs"
  shows "next_abb_message (bs @ rest) = Inr (on_wire msg, length bs)"
proof -
  define W where "W = abb_info (on_wire msg)"
  from assms obtain hdr pad where hdr: "encode_byte_message_info W = Inr hdr"
    and bs: "bs = hdr @ abb_payload msg @ replicate (unat pad) 0"
    and pad: "bmi_pad W = pad"
    and len: "unat (acf_msg_length W) * 4 = 8 + length (abb_payload msg) + unat pad"
    unfolding W_def by (elim encode_acf_abb_Inr)
  have lh: "length hdr = 8"
    using length_encode_byte_message_info [OF hdr] by (simp add: rcp_consts)
  have dec: "decode_byte_message_info (take 8 (bs @ rest)) = Inr W"
    using decode_encode_byte_message_info [OF hdr, of "[]"] by (simp add: bs lh)
  have "subslice 8 (length (abb_payload msg)) bs = abb_payload msg"
    by (simp add: subslice_def bs lh)
  moreover have lbs: "length bs = 8 + length (abb_payload msg) + unat pad"
    by (simp add: bs lh)
  ultimately have tmb: "take_message_bytes (bs @ rest) 8 W = Inr (abb_payload msg, length bs)"
    using take_message_bytes_append [of W 8 "length (abb_payload msg)" bs rest] len pad by simp
  have "acf_msg_type W = ACF_ABB_MSG_TYPE"
    and "on_wire msg = \<lparr>abb_info = W, abb_payload = abb_payload msg\<rparr>"
    by (simp_all add: W_def on_wire_def)
  then show ?thesis
    using dec tmb lbs
    by (simp add: next_abb_message_def ACF_ABB_HEADER_LEN_def BYTE_MESSAGE_INFO_LEN_def)
qed

lemma encode_acf_abb_length:
  assumes "encode_acf_abb msg = Inr bs"
  shows "length bs = 8 + length (abb_payload msg) + pad_for (length (abb_payload msg))"
    and "4 dvd length bs" and "length bs \<le> 2044"
proof -
  let ?n = "length (abb_payload msg)"
  from assms obtain hdr pad where hdr: "encode_byte_message_info (abb_info (on_wire msg)) = Inr hdr"
    and bs: "bs = hdr @ abb_payload msg @ replicate (unat pad) 0"
    and pad: "bmi_pad (abb_info (on_wire msg)) = pad"
    and len: "unat (acf_msg_length (abb_info (on_wire msg))) * 4 = 8 + ?n + unat pad"
    by (elim encode_acf_abb_Inr)
  have lbs: "length bs = 8 + ?n + unat pad"
    using length_encode_byte_message_info [OF hdr] by (simp add: bs rcp_consts)
  then show dvd: "4 dvd length bs" using len by (metis dvd_triv_right)
  have "info_in_range (abb_info (on_wire msg))"
    using hdr encode_byte_message_info_Inr_iff by blast
  then have "unat (acf_msg_length (abb_info (on_wire msg))) \<le> 511" "unat (bmi_pad (abb_info (on_wire msg))) \<le> 3"
    by (simp_all add: info_in_range_def rcp_consts word_le_nat_alt)
  then show "length bs \<le> 2044" using len lbs by simp
  have "unat pad = pad_for (8 + ?n)"
    unfolding pad [symmetric] by (simp add: wire_info_def rcp_consts unat_of_nat)
      (simp add: pad_for_less order_less_trans [OF pad_for_less])
  then show "length bs = 8 + ?n + pad_for ?n"
    using lbs by (simp add: pad_for_header)
qed

text \<open>Whether a message can be encoded depends on the field widths and the payload size only.\<close>

lemma quadlets_bound: "(8 + n + pad_for (8 + n)) div 4 \<le> 511 \<longleftrightarrow> n \<le> 2036"
proof -
  obtain k where k: "8 + n + pad_for (8 + n) = 4 * k"
    using pad_for_dvd [of "8 + n"] by (auto simp: dvd_def)
  then have "(8 + n + pad_for (8 + n)) div 4 = k" by simp
  with k show ?thesis using pad_for_less [of "8 + n"] by (simp only:) arith
qed

lemma encode_acf_abb_Inr_iff:
  "(\<exists>bs. encode_acf_abb msg = Inr bs) \<longleftrightarrow>
     byte_bus_id (abb_info msg) \<le> BYTE_MESSAGE_INFO_11BIT_MAX \<and>
     evt_sub_opcode (bmi_evt (abb_info msg)) \<le> EVT_SUB_OPCODE_MAX \<and>
     as_read_size (read_size_segment (abb_info msg)) \<le> READ_SIZE_SEGMENT_12BIT_MAX \<and>
     length (abb_payload msg) \<le> 2036"
  (is "?lhs \<longleftrightarrow> ?rhs")
proof (cases "length (abb_payload msg) \<le> 2036")
  case True
  define q where "q = (8 + length (abb_payload msg) + pad_for (8 + length (abb_payload msg))) div 4"
  define pad where "pad = pad_for (8 + length (abb_payload msg))"
  have q: "q \<le> 511" using True by (simp add: q_def quadlets_bound)
  have quad: "quadlets_and_pad_for_message ACF_ABB_HEADER_LEN (length (abb_payload msg))
      = Inr (of_nat q, of_nat pad)"
    using q by (simp add: quadlets_and_pad_eq rcp_consts q_def pad_def)
  have "(of_nat q :: u16) \<le> 0x1FF" using q by (simp add: u16_of_nat_le_511)
  moreover have "(of_nat pad :: u8) \<le> 3"
    using pad_for_less [of "8 + length (abb_payload msg)"] by (simp add: pad_def word_le_nat_alt unat_of_nat)
  ultimately have "info_in_range ((abb_info msg)\<lparr>acf_msg_type := ACF_ABB_MSG_TYPE,
      acf_msg_length := of_nat q, bmi_pad := of_nat pad\<rparr>) \<longleftrightarrow> ?rhs"
    using True by (simp add: info_in_range_def rcp_consts)
  moreover have "?lhs \<longleftrightarrow> (\<exists>bs. encode_byte_message_info ((abb_info msg)\<lparr>acf_msg_type := ACF_ABB_MSG_TYPE,
      acf_msg_length := of_nat q, bmi_pad := of_nat pad\<rparr>) = Inr bs)"
    by (simp add: encode_acf_abb_def quad and_then_eq_Inr)
  ultimately show ?thesis by (simp add: encode_byte_message_info_Inr_iff)
next
  case False
  then have "quadlets_and_pad_for_message ACF_ABB_HEADER_LEN (length (abb_payload msg)) = Inl InvalidSize"
    unfolding quadlets_and_pad_eq by (simp add: rcp_consts quadlets_bound del: div_le_mono)
  with False show ?thesis by (simp add: encode_acf_abb_def)
qed

section \<open>Concatenated messages\<close>

text \<open>
  What is in front of the offset does not matter to the loop, and its accumulator is only ever
  extended at the end; both let the round trip go by induction on the messages.
\<close>

lemma abb_messages_loop_shift:
  "offset = length pre \<Longrightarrow>
     abb_messages_loop (pre @ b) offset acc =
       (if b = [] then Inr acc
        else case next_abb_message b of Inl e \<Rightarrow> Inl e
          | Inr (msg, n) \<Rightarrow> abb_messages_loop (pre @ b) (offset + n) (acc @ [msg]))"
  by (subst abb_messages_loop.simps) simp

fun encode_abb_messages :: "acf_abb_message list \<Rightarrow> bytes rcp_result" where
  "encode_abb_messages [] = Inr []"
| "encode_abb_messages (m # ms) =
    and_then (encode_acf_abb m) (\<lambda>b. and_then (encode_abb_messages ms) (\<lambda>bs. Inr (b @ bs)))"

lemma abb_messages_loop_encoded:
  assumes "encode_abb_messages msgs = Inr bs"
  shows "abb_messages_loop (pre @ bs) (length pre) acc = Inr (acc @ map on_wire msgs)"
  using assms
proof (induction msgs arbitrary: bs pre acc)
  case Nil
  then show ?case using abb_messages_loop_shift [of "length pre" pre "[]" acc] by simp
next
  case (Cons m ms)
  then obtain b bs' where b: "encode_acf_abb m = Inr b" and bs': "encode_abb_messages ms = Inr bs'"
    and bs: "bs = b @ bs'"
    by (auto simp: and_then_eq_Inr)
  have "b \<noteq> []" using encode_acf_abb_length(1) [OF b] by auto
  then show ?case
    using Cons.IH [OF bs', of "pre @ b" "acc @ [on_wire m]"]
    by (simp add: abb_messages_loop_shift bs next_abb_encode [OF b])
qed

lemma decode_encode_abb_messages:
  assumes "encode_abb_messages msgs = Inr bs" and "msgs \<noteq> []"
  shows "decode_acf_abb_messages bs = Inr (map on_wire msgs)"
proof -
  from assms have "bs \<noteq> []"
    by (cases msgs) (auto simp: and_then_eq_Inr dest: encode_acf_abb_length(1))
  then show ?thesis
    using abb_messages_loop_encoded [OF assms(1), of "[]" "[]"] by (simp add: decode_acf_abb_messages_def)
qed

lemma abb_messages_loop_nonempty:
  "abb_messages_loop b offset acc = Inr msgs \<Longrightarrow> offset < length b \<or> acc \<noteq> [] \<Longrightarrow> msgs \<noteq> []"
  by (induction b offset acc rule: abb_messages_loop.induct)
    (subst (asm) (2) abb_messages_loop.simps, auto split: if_splits sum.splits)

text \<open>An accepted buffer has at least one message.\<close>

lemma decode_acf_abb_messages_nonempty:
  "decode_acf_abb_messages b = Inr msgs \<Longrightarrow> msgs \<noteq> []"
  by (auto simp: decode_acf_abb_messages_def split: if_splits dest: abb_messages_loop_nonempty)

lemma decode_acf_abb_next: "decode_acf_abb b = and_then (next_abb_message b) (\<lambda>(msg, _). Inr msg)"
  by (auto simp: decode_acf_abb_def next_abb_message_def split: and_then_split)

lemma decode_encode_acf_abb:
  "encode_acf_abb msg = Inr bs \<Longrightarrow> decode_acf_abb (bs @ rest) = Inr (on_wire msg)"
  by (simp add: decode_acf_abb_next next_abb_encode)

section \<open>Timed messages\<close>

definition gbb_on_wire :: "acf_gbb_message \<Rightarrow> acf_gbb_message" where
  "gbb_on_wire msg =
    msg\<lparr>gbb_info := wire_info ACF_GBB_HEADER_LEN ACF_GBB_MSG_TYPE (gbb_info msg) (length (gbb_payload msg))\<rparr>"

lemma decode_encode_acf_gbb:
  assumes "encode_acf_gbb msg = Inr bs"
  shows "decode_acf_gbb (bs @ rest) = Inr (gbb_on_wire msg)"
proof -
  define W where "W = gbb_info (gbb_on_wire msg)"
  let ?n = "length (gbb_payload msg)"
  from assms obtain l pad hdr
    where q: "quadlets_and_pad_for_message ACF_GBB_HEADER_LEN ?n = Inr (l, pad)"
      and hdr: "encode_byte_message_info ((gbb_info msg)\<lparr>acf_msg_type := ACF_GBB_MSG_TYPE,
                   acf_msg_length := l, bmi_pad := pad\<rparr>) = Inr hdr"
      and bs: "bs = hdr @ to_be_bytes (gbb_message_timestamp msg) @ gbb_payload msg @ replicate (unat pad) 0"
    by (auto simp: encode_acf_gbb_def and_then_eq_Inr)
  have info: "(gbb_info msg)\<lparr>acf_msg_type := ACF_GBB_MSG_TYPE, acf_msg_length := l, bmi_pad := pad\<rparr> = W"
    using q by (auto simp: W_def gbb_on_wire_def wire_info_def quadlets_and_pad_eq split: if_splits)
  have W: "bmi_pad W = pad" "acf_msg_length W = l" "acf_msg_type W = ACF_GBB_MSG_TYPE"
    unfolding info [symmetric] by simp_all
  have lh: "length hdr = 8"
    using length_encode_byte_message_info [OF hdr] by (simp add: rcp_consts)
  have lt: "length (to_be_bytes (gbb_message_timestamp msg)) = 8" by simp
  have dec: "decode_byte_message_info (take 8 (bs @ rest)) = Inr W"
    using decode_encode_byte_message_info [OF hdr, of "[]"] by (simp add: bs lh info)
  have sub: "subslice 16 ?n bs = gbb_payload msg" "subslice 8 8 (bs @ rest) = to_be_bytes (gbb_message_timestamp msg)"
    by (simp_all add: subslice_def bs lh)
  have lbs: "length bs = 16 + ?n + unat pad" by (simp add: bs lh)
  have len: "unat (acf_msg_length W) * 4 = 16 + ?n + unat (bmi_pad W)"
    using quadlets_and_pad_Inr(1) [OF q] unfolding W ACF_GBB_HEADER_LEN_def BYTE_MESSAGE_INFO_LEN_def by simp
  have "take_message_bytes (bs @ rest) 16 W = Inr (gbb_payload msg, length bs)"
    using take_message_bytes_append [OF len, of bs rest] by (simp add: lbs W sub)
  moreover have "gbb_on_wire msg = \<lparr>gbb_info = W, gbb_message_timestamp = gbb_message_timestamp msg,
      gbb_payload = gbb_payload msg\<rparr>"
    by (simp add: W_def gbb_on_wire_def)
  ultimately show ?thesis
    using dec lbs W(3) sub
    by (simp add: decode_acf_gbb_def ACF_GBB_HEADER_LEN_def BYTE_MESSAGE_INFO_LEN_def)
qed

text \<open>The two discriminants keep the two decoders apart.\<close>

lemma decode_acf_gbb_of_abb:
  assumes "encode_acf_abb msg = Inr bs"
  shows "\<exists>e. decode_acf_gbb (bs @ rest) = Inl e"
proof -
  from assms obtain hdr pad where hdr: "encode_byte_message_info (abb_info (on_wire msg)) = Inr hdr"
    and bs: "bs = hdr @ abb_payload msg @ replicate (unat pad) 0"
    and "bmi_pad (abb_info (on_wire msg)) = pad"
    and "unat (acf_msg_length (abb_info (on_wire msg))) * 4 = 8 + length (abb_payload msg) + unat pad"
    by (elim encode_acf_abb_Inr)
  have "length hdr = 8" using length_encode_byte_message_info [OF hdr] by (simp add: rcp_consts)
  then have "decode_byte_message_info (take 8 (bs @ rest)) = Inr (abb_info (on_wire msg))"
    using decode_encode_byte_message_info [OF hdr, of "[]"] by (simp add: bs)
  then show ?thesis
    by (simp add: decode_acf_gbb_def rcp_consts)
qed

section \<open>Error responses\<close>

lemma build_error_response_iff:
  "(\<exists>m. build_error_response request error = Some m) \<longleftrightarrow> tc18_wire_code error \<noteq> None"
  by (auto simp: build_error_response_def split: option.splits)

lemma build_error_response_fields:
  assumes "build_error_response request error = Some m"
  shows "bmi_rsp (abb_info m)" and "bmi_err (abb_info m)"
    and "byte_bus_id (abb_info m) = byte_bus_id request"
    and "transaction_num (abb_info m) = transaction_num request"
    and "verify_echo_back request (abb_info m) = Inr ()"
    and "\<exists>code. tc18_wire_code error = Some code \<and> abb_payload m = [code]"
  using assms
  by (auto simp: build_error_response_def build_response_info_def verify_echo_back_def split: option.splits)

text \<open>
  The client reads an error response as one, unless the request itself carried the event nibble
  that marks an acknowledgement: the nibble is copied and outranks the error flag.
\<close>

lemma build_error_response_kind:
  assumes "build_error_response request error = Some m"
  shows "response_kind_of (abb_info m) =
    (if raw_nibble (bmi_evt request) = EVT_RESPONSE_ACKNOWLEDGE then KindAcknowledge else KindError)"
  using assms
  by (auto simp: build_error_response_def build_response_info_def response_kind_of_def split: option.splits)

section \<open>Further facts\<close>

text \<open>An error response is recognisable. It exists exactly for errors with a wire code; it carries the code as its payload, echoes bus id and transaction number, and is read as an error unless the request carried the event nibble of an acknowledgement, which outranks the error flag.\<close>

theorem error_response_shape:
  "(case build_error_response request error of
      None \<Rightarrow> tc18_wire_code error = None
    | Some m \<Rightarrow> tc18_wire_code error = Some (hd (abb_payload m)) \<and> length (abb_payload m) = 1
        \<and> byte_bus_id (abb_info m) = byte_bus_id request \<and> transaction_num (abb_info m) = transaction_num request
        \<and> response_kind_of (abb_info m)
          = (if raw_nibble (bmi_evt request) = EVT_RESPONSE_ACKNOWLEDGE then KindAcknowledge else KindError))"
  by (auto simp: build_error_response_def build_response_info_def response_kind_of_def split: option.splits)

section \<open>Properties\<close>

text \<open>C23: the splitting loop takes apart exactly what was put together. Any nonempty list of messages, encoded one after the other into one buffer, decodes to the same messages in the same order, with type, length and padding as the encoder set them.\<close>

theorem abb_messages_round_trip:
  assumes "encode_abb_messages msgs = Inr bs" and "msgs \<noteq> []"
  shows "decode_acf_abb_messages bs = Inr (map on_wire msgs)"
  using assms by (rule decode_encode_abb_messages)

lemma abb_messages_round_trip_witness:
  "\<exists>bs. encode_abb_messages [\<lparr>abb_info = byte_message_info_default, abb_payload = [0xAB]\<rparr>,
      \<lparr>abb_info = byte_message_info_default\<lparr>byte_bus_id := 0x123\<rparr>, abb_payload = []\<rparr>] = Inr bs
    \<and> decode_acf_abb_messages bs = Inr (map on_wire
       [\<lparr>abb_info = byte_message_info_default, abb_payload = [0xAB]\<rparr>,
        \<lparr>abb_info = byte_message_info_default\<lparr>byte_bus_id := 0x123\<rparr>, abb_payload = []\<rparr>])"
proof -
  have "encode_abb_messages [\<lparr>abb_info = byte_message_info_default, abb_payload = [0xAB]\<rparr>,
      \<lparr>abb_info = byte_message_info_default\<lparr>byte_bus_id := 0x123\<rparr>, abb_payload = []\<rparr>]
    = Inr [0x1C, 3, 0xC0, 0, 0, 0, 0, 0, 0xAB, 0, 0, 0, 0x1C, 2, 0x01, 0x23, 0, 0, 0, 0]"
    by (simp add: acf_eval)
  then show ?thesis using abb_messages_round_trip by blast
qed


end
