(* ===== verification/Rcp_Acf_Loop.thy ===== *)
theory Rcp_Acf_Loop
  imports Rcp_Acf_Messages
begin

text \<open>
  The splitting loop of \<open>decode_acf_abb_messages\<close> (\<open>src/acf.rs\<close>) with a count of its turns: every turn
  but a failing one takes at least the eight octets of a header off, so the loop ends on every buffer.
\<close>

text \<open>The loop with a budget of turns; \<open>None\<close> when the budget runs out before the loop ends.\<close>

fun split_within :: "nat \<Rightarrow> bytes \<Rightarrow> nat \<Rightarrow> acf_abb_message list \<Rightarrow> acf_abb_message list rcp_result option" where
  "split_within 0 b offset messages = (if offset < length b then None else Some (Inr messages))"
| "split_within (Suc k) b offset messages =
    (if offset < length b then
       (case next_abb_message (drop offset b) of
          Inl e \<Rightarrow> Some (Inl e)
        | Inr (msg, consumed) \<Rightarrow> split_within k b (offset + consumed) (messages @ [msg]))
     else Some (Inr messages))"

lemma next_abb_message_takes_8:
  "next_abb_message b = Inr (msg, consumed) \<Longrightarrow> 8 \<le> consumed \<and> consumed \<le> length b"
  by (auto simp: next_abb_message_def and_then_eq_Inr rcp_consts split: if_splits dest!: take_message_bytes_consumed)

lemma split_within_enough:
  "length b < offset + 8 * k + 1 \<Longrightarrow> split_within k b offset messages = Some (abb_messages_loop b offset messages)"
proof (induction k arbitrary: offset messages)
  case 0
  then show ?case by (simp add: abb_messages_loop.simps [of b offset])
next
  case (Suc k)
  show ?case
  proof (cases "offset < length b")
    case True
    show ?thesis
    proof (cases "next_abb_message (drop offset b)")
      case (Inr r)
      obtain msg consumed where r: "r = (msg, consumed)" by (cases r)
      have "8 \<le> consumed" using next_abb_message_takes_8 Inr r by blast
      then have "length b < offset + consumed + 8 * k + 1" using Suc.prems by simp
      from Suc.IH [OF this] True Inr r show ?thesis by (simp add: abb_messages_loop.simps [of b offset])
    qed (use True in \<open>simp add: abb_messages_loop.simps [of b offset]\<close>)
  qed (simp add: abb_messages_loop.simps [of b offset])
qed

lemma split_messages_bound:
  "abb_messages_loop b offset messages = Inr msgs \<Longrightarrow> offset \<le> length b
    \<Longrightarrow> 8 * length messages \<le> offset \<Longrightarrow> 8 * length msgs \<le> length b"
proof (induction b offset messages rule: abb_messages_loop.induct)
  case (1 b offset messages)
  show ?case
  proof (cases "offset < length b")
    case True
    with "1.prems"(1) obtain m n where m: "next_abb_message (drop offset b) = Inr (m, n)"
      and loop: "abb_messages_loop b (offset + n) (messages @ [m]) = Inr msgs"
      by (subst (asm) abb_messages_loop.simps) (auto split: sum.splits)
    have "8 \<le> n \<and> n \<le> length b - offset" using next_abb_message_takes_8 [OF m] by simp
    then show ?thesis
      using "1.IH" [OF True m refl loop] "1.prems"(3) True by fastforce
  next
    case False
    with 1 show ?thesis by (subst (asm) abb_messages_loop.simps) auto
  qed
qed

section \<open>Properties\<close>

text \<open>C24: splitting a buffer into messages always ends, and soon. On every buffer of octets, well-formed or not, the loop ends within one turn for each eight octets begun, with the result of the loop run without a budget, and the messages it returns number at most one for eight octets.\<close>

theorem splitting_ends:
  "split_within ((length b + 7) div 8) b 0 [] = Some (abb_messages_loop b 0 [])
    \<and> (case decode_acf_abb_messages b of Inl _ \<Rightarrow> True | Inr msgs \<Rightarrow> 8 * length msgs \<le> length b)"
proof
  show "split_within ((length b + 7) div 8) b 0 [] = Some (abb_messages_loop b 0 [])"
    by (rule split_within_enough) simp
  show "case decode_acf_abb_messages b of Inl _ \<Rightarrow> True | Inr msgs \<Rightarrow> 8 * length msgs \<le> length b"
    using split_messages_bound [of b 0 "[]"] by (auto simp: decode_acf_abb_messages_def split: sum.splits)
qed


end
