(* ===== verification/Rcp_Avtp.thy ===== *)
theory Rcp_Avtp
  imports Rcp_Interfaces
begin

text \<open>
  AVTPDU framing, \<open>src/avtp.rs\<close>: the NTSCF and TSCF headers with their encoders and
  decoders, the rule that selects a header variant by subtype and time-sync capability, the
  decomposition of a stream id into sender MAC and unique id, and the composition of a whole
  NTSCF frame. A fixed-size array is a byte list here; the order of its elements is the order
  of the octets the source assigns.
\<close>

section \<open>NTSCF header\<close>

definition NTSCF_SUBTYPE :: u8 where [rcp_consts]: "NTSCF_SUBTYPE = 0x82"
definition NTSCF_HEADER_LEN :: nat where [rcp_consts]: "NTSCF_HEADER_LEN = 12"
definition NTSCF_DATA_LENGTH_MAX :: u16 where [rcp_consts]: "NTSCF_DATA_LENGTH_MAX = 0x07FF"

record ntscf_header =
  ntscf_sequence_num :: u8
  ntscf_data_length :: u16
  ntscf_stream_id :: u64

definition encode_ntscf_header :: "ntscf_header \<Rightarrow> bytes rcp_result" where
  "encode_ntscf_header hdr =
    (if NTSCF_DATA_LENGTH_MAX < ntscf_data_length hdr then Inl InvalidSize
     else Inr ([NTSCF_SUBTYPE,
                0x80 OR (ucast (drop_bit 8 (ntscf_data_length hdr)) AND 0x07),
                ucast (ntscf_data_length hdr AND 0x00FF),
                ntscf_sequence_num hdr]
               @ to_be_bytes (ntscf_stream_id hdr)))"

definition decode_ntscf_header :: "bytes \<Rightarrow> ntscf_header rcp_result" where
  "decode_ntscf_header b =
    (if length b < NTSCF_HEADER_LEN then Inl ShortFrame
     else if b ! 0 \<noteq> NTSCF_SUBTYPE then
       Inl (Other (''ntscf: expected subtype 0x'' @ hex02 NTSCF_SUBTYPE @ '', got 0x'' @ hex02 (b ! 0)))
     else if (drop_bit 7 (b ! 1)) AND 1 \<noteq> 1 then
       Inl (Other ''ntscf: sv bit must be 1 (stream_id always valid for NTSCF)'')
     else Inr \<lparr>
       ntscf_sequence_num = b ! 3,
       ntscf_data_length = push_bit 8 (ucast (b ! 1 AND 0x07)) OR ucast (b ! 2),
       ntscf_stream_id = from_be_bytes (subslice 4 8 b)\<rparr>)"

section \<open>TSCF header\<close>

definition TSCF_SUBTYPE :: u8 where [rcp_consts]: "TSCF_SUBTYPE = 0x05"
definition TSCF_HEADER_LEN :: nat where [rcp_consts]: "TSCF_HEADER_LEN = 24"
definition TSCF_DATA_LENGTH_MAX :: u16 where [rcp_consts]: "TSCF_DATA_LENGTH_MAX = 0xFFFF"

record tscf_header =
  tscf_sequence_num :: u8
  tscf_avtp_timestamp :: u32
  tscf_stream_data_length :: u16
  tscf_stream_id :: u64

definition encode_tscf_header :: "tscf_header \<Rightarrow> bytes rcp_result" where
  "encode_tscf_header hdr =
    Inr ([TSCF_SUBTYPE,
          0x80 OR u8_of_bool (tscf_avtp_timestamp hdr \<noteq> 0),
          tscf_sequence_num hdr,
          0x00]
         @ to_be_bytes (tscf_stream_id hdr)
         @ to_be_bytes (tscf_avtp_timestamp hdr)
         @ [0, 0, 0, 0]
         @ to_be_bytes (tscf_stream_data_length hdr)
         @ [0, 0])"

definition decode_tscf_header :: "bytes \<Rightarrow> tscf_header rcp_result" where
  "decode_tscf_header b =
    (if length b < TSCF_HEADER_LEN then Inl ShortFrame
     else if b ! 0 \<noteq> TSCF_SUBTYPE then
       Inl (Other (''tscf: expected subtype 0x'' @ hex02 TSCF_SUBTYPE @ '', got 0x'' @ hex02 (b ! 0)))
     else if (drop_bit 7 (b ! 1)) AND 1 \<noteq> 1 then
       Inl (Other ''tscf: sv bit must be 1 (stream_id always valid for TSCF)'')
     else Inr \<lparr>
       tscf_sequence_num = b ! 2,
       tscf_avtp_timestamp = from_be_bytes (subslice 12 4 b),
       tscf_stream_data_length = from_be_bytes (subslice 20 2 b),
       tscf_stream_id = from_be_bytes (subslice 4 8 b)\<rparr>)"

section \<open>Header-variant selection\<close>

datatype time_sync_capability = Capable | Incapable

definition accepts_tscf :: "time_sync_capability \<Rightarrow> bool" where
  "accepts_tscf c \<longleftrightarrow> c = Capable"

datatype header_variant = Ntscf ntscf_header | Tscf tscf_header

definition select_header_variant :: "bytes \<Rightarrow> time_sync_capability \<Rightarrow> header_variant rcp_result" where
  "select_header_variant b time_sync =
    (case b of [] \<Rightarrow> Inl ShortFrame
     | subtype # _ \<Rightarrow>
         if subtype = NTSCF_SUBTYPE then and_then (decode_ntscf_header b) (\<lambda>h. Inr (Ntscf h))
         else if subtype = TSCF_SUBTYPE then
           (if \<not> accepts_tscf time_sync then Inl UnsupportedCmd
            else and_then (decode_tscf_header b) (\<lambda>h. Inr (Tscf h)))
         else Inl (Other (''avtp: unrecognized subtype 0x'' @ hex02 subtype @ '' (expected NTSCF 0x''
                @ hex02 NTSCF_SUBTYPE @ '' or TSCF 0x'' @ hex02 TSCF_SUBTYPE @ '')'')))"

section \<open>Stream ids\<close>

type_synonym mac_addr = "u8 \<times> u8 \<times> u8 \<times> u8 \<times> u8 \<times> u8"

record stream_id =
  sender_mac :: mac_addr
  unique_id :: u16

fun build_stream_id :: "mac_addr \<Rightarrow> u16 \<Rightarrow> u64" where
  "build_stream_id (m0, m1, m2, m3, m4, m5) uid =
     (push_bit 56 (ucast m0) OR push_bit 48 (ucast m1) OR push_bit 40 (ucast m2)
      OR push_bit 32 (ucast m3) OR push_bit 24 (ucast m4) OR push_bit 16 (ucast m5))
     OR ucast uid"

definition parse_stream_id :: "u64 \<Rightarrow> mac_addr \<times> u16" where
  "parse_stream_id raw =
     ((ucast (drop_bit 56 raw), ucast (drop_bit 48 raw), ucast (drop_bit 40 raw),
       ucast (drop_bit 32 raw), ucast (drop_bit 24 raw), ucast (drop_bit 16 raw)),
      ucast raw)"

definition stream_id_to_u64 :: "stream_id \<Rightarrow> u64" where
  "stream_id_to_u64 sid = build_stream_id (sender_mac sid) (unique_id sid)"

definition stream_id_from_u64 :: "u64 \<Rightarrow> stream_id" where
  "stream_id_from_u64 raw =
     (case parse_stream_id raw of (mac, uid) \<Rightarrow> \<lparr>sender_mac = mac, unique_id = uid\<rparr>)"

section \<open>Frames\<close>

definition encode_ntscf_frame :: "stream_id \<Rightarrow> u8 \<Rightarrow> bytes \<Rightarrow> bytes rcp_result" where
  "encode_ntscf_frame sid sequence_num acf_payload =
    and_then (ok_or (u16_try_from (length acf_payload)) InvalidSize) (\<lambda>data_length.
    and_then (encode_ntscf_header \<lparr>ntscf_sequence_num = sequence_num,
        ntscf_data_length = data_length, ntscf_stream_id = stream_id_to_u64 sid\<rparr>) (\<lambda>hdr_bytes.
    Inr (hdr_bytes @ acf_payload)))"

definition decode_ntscf_frame :: "bytes \<Rightarrow> (ntscf_header \<times> bytes) rcp_result" where
  "decode_ntscf_frame b =
    and_then (decode_ntscf_header b) (\<lambda>hdr. Inr (hdr, drop NTSCF_HEADER_LEN b))"

section \<open>Headers survive the wire\<close>

lemma ntscf_length_field:
  assumes "l \<le> NTSCF_DATA_LENGTH_MAX"
  shows "push_bit 8 (ucast ((0x80 OR (ucast (drop_bit 8 l) AND 0x07) :: u8) AND 0x07))
       OR ucast (ucast (l AND 0x00FF) :: u8) = (l :: u16)"
proof -
  have "uint l < 2 ^ 11"
    using assms by (simp add: rcp_consts word_le_def)
  then have "\<not> bit l 11" "\<not> bit l 12" "\<not> bit l 13" "\<not> bit l 14" "\<not> bit l 15"
    using uint_less_imp_not_bit [of l 11] by auto
  then show ?thesis
    by (simp add: u16_eq_iff bit_simps)
qed

lemma ntscf_sv_bit:
  "drop_bit 7 (0x80 OR (x AND 0x07) :: u8) AND 1 = 1"
  by (simp add: u8_eq_iff bit_simps)

lemma tscf_sv_bit:
  "drop_bit 7 (0x80 OR u8_of_bool c :: u8) AND 1 = 1"
  by (simp add: u8_eq_iff bit_simps)

lemma subslice_4_8: "subslice 4 8 (a # b # c # d # xs) = take 8 xs"
  by (simp add: subslice_def numeral_eq_Suc)

lemma decode_encode_ntscf_header:
  assumes "encode_ntscf_header hdr = Inr bs"
  shows "length bs = NTSCF_HEADER_LEN" and "decode_ntscf_header (bs @ rest) = Inr hdr"
proof -
  have len: "ntscf_data_length hdr \<le> NTSCF_DATA_LENGTH_MAX"
    and bs: "bs = [NTSCF_SUBTYPE,
                0x80 OR (ucast (drop_bit 8 (ntscf_data_length hdr)) AND 0x07),
                ucast (ntscf_data_length hdr AND 0x00FF),
                ntscf_sequence_num hdr]
               @ to_be_bytes (ntscf_stream_id hdr)"
    using assms by (auto simp: encode_ntscf_header_def not_less split: if_splits)
  show "length bs = NTSCF_HEADER_LEN" by (simp add: bs rcp_consts)
  show "decode_ntscf_header (bs @ rest) = Inr hdr"
    using ntscf_length_field [OF len]
    by (simp add: decode_ntscf_header_def bs NTSCF_HEADER_LEN_def ntscf_sv_bit subslice_4_8
        nth_Cons_numeral)
qed

lemma encode_ntscf_header_Inr_iff:
  "(\<exists>bs. encode_ntscf_header hdr = Inr bs) \<longleftrightarrow> ntscf_data_length hdr \<le> NTSCF_DATA_LENGTH_MAX"
  by (auto simp: encode_ntscf_header_def)

lemma decode_encode_tscf_header:
  assumes "encode_tscf_header hdr = Inr bs"
  shows "length bs = TSCF_HEADER_LEN" and "decode_tscf_header (bs @ rest) = Inr hdr"
proof -
  have bs: "bs = [TSCF_SUBTYPE, 0x80 OR u8_of_bool (tscf_avtp_timestamp hdr \<noteq> 0),
          tscf_sequence_num hdr, 0x00]
         @ to_be_bytes (tscf_stream_id hdr) @ to_be_bytes (tscf_avtp_timestamp hdr)
         @ [0, 0, 0, 0] @ to_be_bytes (tscf_stream_data_length hdr) @ [0, 0]"
    using assms by (simp add: encode_tscf_header_def)
  show "length bs = TSCF_HEADER_LEN" by (simp add: bs rcp_consts)
  show "decode_tscf_header (bs @ rest) = Inr hdr"
    by (simp add: decode_tscf_header_def bs TSCF_HEADER_LEN_def tscf_sv_bit subslice_def
        nth_Cons_numeral)
qed

lemma subtype_of_encoded:
  "encode_ntscf_header n = Inr bs \<Longrightarrow> \<exists>xs. bs = NTSCF_SUBTYPE # xs"
  "encode_tscf_header t = Inr bs' \<Longrightarrow> \<exists>xs. bs' = TSCF_SUBTYPE # xs"
  by (auto simp: encode_ntscf_header_def encode_tscf_header_def split: if_splits)

lemma subtypes_distinct: "NTSCF_SUBTYPE \<noteq> TSCF_SUBTYPE"
  by (simp add: rcp_consts)

lemma select_encoded_ntscf:
  assumes "encode_ntscf_header hdr = Inr bs"
  shows "select_header_variant (bs @ rest) time_sync = Inr (Ntscf hdr)"
  using subtype_of_encoded(1) [OF assms] decode_encode_ntscf_header(2) [OF assms, of rest]
  by (auto simp: select_header_variant_def)

lemma select_encoded_tscf:
  assumes "encode_tscf_header hdr = Inr bs"
  shows "select_header_variant (bs @ rest) time_sync
       = (if time_sync = Capable then Inr (Tscf hdr) else Inl UnsupportedCmd)"
  using subtype_of_encoded(2) [OF assms] decode_encode_tscf_header(2) [OF assms, of rest]
    subtypes_distinct
  by (auto simp: select_header_variant_def accepts_tscf_def)

section \<open>Stream ids are the 64-bit values\<close>

lemma parse_build_stream_id: "parse_stream_id (build_stream_id mac uid) = (mac, uid)"
proof (cases mac)
  case (fields m0 m1 m2 m3 m4 m5)
  show ?thesis
    unfolding fields parse_stream_id_def build_stream_id.simps prod.inject
    by (intro conjI; rule bit_word_eqI; auto simp: bit_simps)
qed

lemma push_byte_take_bit:
  "push_bit k (ucast (ucast (drop_bit k raw) :: u8)) OR take_bit k raw = take_bit (k + 8) (raw :: u64)"
  by (rule bit_word_eqI) (auto simp: bit_simps)

lemma build_parse_stream_id:
  "(case parse_stream_id raw of (mac, uid) \<Rightarrow> build_stream_id mac uid) = raw"
proof -
  have "ucast (ucast raw :: u16) = take_bit 16 raw"
    by (rule bit_word_eqI) (auto simp: bit_simps)
  moreover have "take_bit 64 raw = raw"
    by (simp add: take_bit_word_eq_self)
  ultimately show ?thesis
    using push_byte_take_bit [of 16 raw] push_byte_take_bit [of 24 raw]
      push_byte_take_bit [of 32 raw] push_byte_take_bit [of 40 raw]
      push_byte_take_bit [of 48 raw] push_byte_take_bit [of 56 raw]
    by (simp add: parse_stream_id_def or.assoc)
qed

lemma stream_id_round_trip [simp]:
  "stream_id_from_u64 (stream_id_to_u64 sid) = sid"
  "stream_id_to_u64 (stream_id_from_u64 raw) = raw"
proof -
  show "stream_id_from_u64 (stream_id_to_u64 sid) = sid"
    by (simp add: stream_id_from_u64_def stream_id_to_u64_def parse_build_stream_id)
  show "stream_id_to_u64 (stream_id_from_u64 raw) = raw"
    using build_parse_stream_id [of raw]
    by (cases "parse_stream_id raw") (simp add: stream_id_from_u64_def stream_id_to_u64_def)
qed

lemma stream_id_to_u64_inj: "stream_id_to_u64 a = stream_id_to_u64 b \<longleftrightarrow> a = b"
  by (metis stream_id_round_trip(1))

section \<open>Frames survive the wire\<close>

lemma encode_ntscf_frame_cases:
  "encode_ntscf_frame sid n payload =
    (if length payload \<le> 2047
     then Inr ([NTSCF_SUBTYPE, 0x80 OR (ucast (drop_bit 8 (of_nat (length payload) :: u16)) AND 0x07),
                ucast ((of_nat (length payload) :: u16) AND 0x00FF), n]
               @ to_be_bytes (stream_id_to_u64 sid) @ payload)
     else Inl InvalidSize)"
proof -
  have "(of_nat (length payload) :: u16) \<le> NTSCF_DATA_LENGTH_MAX \<longleftrightarrow> length payload \<le> 2047"
    if "length payload < 65536"
    using that by (simp add: rcp_consts word_le_nat_alt unat_of_nat)
  then show ?thesis
    by (auto simp: encode_ntscf_frame_def u16_try_from_def encode_ntscf_header_def not_less)
qed

lemma decode_encode_ntscf_frame:
  assumes "encode_ntscf_frame sid n payload = Inr frame"
  shows "decode_ntscf_frame frame = Inr (\<lparr>ntscf_sequence_num = n,
     ntscf_data_length = of_nat (length payload), ntscf_stream_id = stream_id_to_u64 sid\<rparr>, payload)"
proof -
  from assms obtain l hdr where l: "u16_try_from (length payload) = Some l"
    and hdr: "encode_ntscf_header \<lparr>ntscf_sequence_num = n, ntscf_data_length = l,
        ntscf_stream_id = stream_id_to_u64 sid\<rparr> = Inr hdr"
    and frame: "frame = hdr @ payload"
    by (auto simp: encode_ntscf_frame_def and_then_eq_Inr)
  have "l = of_nat (length payload)"
    using l by (simp add: u16_try_from_eq_Some)
  with hdr show ?thesis
    by (simp add: decode_ntscf_frame_def frame decode_encode_ntscf_header [OF hdr])
qed

section \<open>Further facts\<close>

text \<open>NTSCF frames carry their payload. A frame is built exactly for payloads of at most 2047 octets, and decoding it gives back sequence number, length, stream id and payload.\<close>

theorem ntscf_frame_round_trip:
  "(if length payload \<le> 2047
    then and_then (encode_ntscf_frame sid n payload) decode_ntscf_frame
           = Inr (\<lparr>ntscf_sequence_num = n, ntscf_data_length = of_nat (length payload),
                   ntscf_stream_id = stream_id_to_u64 sid\<rparr>, payload)
    else encode_ntscf_frame sid n payload = Inl InvalidSize)"
proof (cases "length payload \<le> 2047")
  case True
  then obtain frame where "encode_ntscf_frame sid n payload = Inr frame" by (simp add: encode_ntscf_frame_cases)
  then show ?thesis using True by (simp add: decode_encode_ntscf_frame)
qed (simp add: encode_ntscf_frame_cases)

text \<open>The header variant is told by the subtype. An encoded NTSCF header is selected as NTSCF, an encoded TSCF header as TSCF by a receiver with time synchronisation, and refused by one without, whatever follows.\<close>

theorem header_variant_selected:
  assumes "encode_ntscf_header nh = Inr nb" and "encode_tscf_header th = Inr tb"
  shows "select_header_variant (nb @ rest) sync = Inr (Ntscf nh)
    \<and> select_header_variant (tb @ rest) sync = (if sync = Capable then Inr (Tscf th) else Inl UnsupportedCmd)"
  using select_encoded_ntscf [OF assms(1)] select_encoded_tscf [OF assms(2)] by simp


end
