(* ===== verification/Rcp_Addressing.thy ===== *)
theory Rcp_Addressing
  imports Rcp_Avtp Rcp_Acf
begin

text \<open>
  The endpoint table of \<open>src/addressing.rs\<close>: one map from byte bus id to endpoint per
  StreamID, filled by \<open>register\<close> and read by \<open>lookup\<close>. The locale states what a table
  of bindings promises its clients; the table of the code is an interpretation.
\<close>

section \<open>Bindings that are made once\<close>

text \<open>
  \<open>ins t k v\<close> tries to bind \<open>k\<close> and reports how that went, \<open>look\<close> reads a binding
  and \<open>valid\<close> says which keys can be bound at all. A refused attempt changes no binding.
\<close>

fun insert_all :: "('t \<Rightarrow> 'k \<Rightarrow> 'v \<Rightarrow> 't \<times> unit rcp_result) \<Rightarrow> 't \<Rightarrow> ('k \<times> 'v) list \<Rightarrow> 't" where
  "insert_all ins t [] = t"
| "insert_all ins t ((k, v) # kvs) = insert_all ins (fst (ins t k v)) kvs"

locale binding_table =
  fixes ins :: "'t \<Rightarrow> 'k \<Rightarrow> 'v \<Rightarrow> 't \<times> unit rcp_result"
    and look :: "'t \<Rightarrow> 'k \<Rightarrow> 'v option"
    and valid :: "'k \<Rightarrow> bool"
  assumes ins_new: "valid k \<Longrightarrow> look t k = None \<Longrightarrow>
      snd (ins t k v) = Inr () \<and> look (fst (ins t k v)) = (look t)(k \<mapsto> v)"
    and ins_refused: "\<not> valid k \<or> look t k \<noteq> None \<Longrightarrow>
      (\<exists>e. snd (ins t k v) = Inl e) \<and> look (fst (ins t k v)) = look t"
begin

lemma ins_Inr_iff: "snd (ins t k v) = Inr () \<longleftrightarrow> valid k \<and> look t k = None"
  using ins_new [of k t v] ins_refused [of k t v] by fastforce

lemma look_ins:
  "look (fst (ins t k v)) =
    (if valid k \<and> look t k = None then (look t)(k \<mapsto> v) else look t)"
  using ins_new [of k t v] ins_refused [of k t v] by auto

text \<open>The first binding of a key wins, whatever is tried later.\<close>

lemma look_insert_all:
  "look (insert_all ins t kvs) k =
    (case look t k of Some v \<Rightarrow> Some v | None \<Rightarrow> if valid k then map_of kvs k else None)"
  by (induction kvs arbitrary: t) (auto simp: look_ins split: option.split)

lemma binding_stable: "look t k = Some v \<Longrightarrow> look (insert_all ins t kvs) k = Some v"
  by (simp add: look_insert_all)

end

section \<open>The endpoint table\<close>

datatype endpoint_id = EndpointId (endpoint_raw: u32)

record endpoint_table =
  streams :: "stream_id \<rightharpoonup> (u16 \<rightharpoonup> endpoint_id)"

definition endpoint_table_new :: endpoint_table where
  "endpoint_table_new = \<lparr>streams = Map.empty\<rparr>"

text \<open>
  \<open>entry(stream_id).or_default()\<close> leaves an empty per-stream table behind also when the
  registration is then refused.
\<close>

definition register_binding ::
  "endpoint_table \<Rightarrow> stream_id \<Rightarrow> u16 \<Rightarrow> endpoint_id \<Rightarrow> endpoint_table \<times> unit rcp_result" where
  "register_binding t sid bus endpoint =
    (if bus > BYTE_MESSAGE_INFO_11BIT_MAX then (t, Inl InvalidSize)
     else
       let bus_table = (case streams t sid of Some bt \<Rightarrow> bt | None \<Rightarrow> Map.empty);
           t = t\<lparr>streams := (streams t)(sid \<mapsto> bus_table)\<rparr>
       in if bus_table bus \<noteq> None then (t, Inl EpError)
          else (t\<lparr>streams := (streams t)(sid \<mapsto> bus_table(bus \<mapsto> endpoint))\<rparr>, Inr ()))"

definition lookup_binding :: "endpoint_table \<Rightarrow> stream_id \<Rightarrow> u16 \<Rightarrow> endpoint_id option" where
  "lookup_binding t sid bus =
    (case streams t sid of None \<Rightarrow> None | Some bus_table \<Rightarrow> bus_table bus)"

lemma lookup_new [simp]: "lookup_binding endpoint_table_new sid bus = None"
  by (simp add: lookup_binding_def endpoint_table_new_def)

lemma register_binding_result:
  "snd (register_binding t sid bus ep) =
    (if bus > BYTE_MESSAGE_INFO_11BIT_MAX then Inl InvalidSize
     else if lookup_binding t sid bus \<noteq> None then Inl EpError else Inr ())"
  by (auto simp: register_binding_def lookup_binding_def Let_def split: option.splits)

lemma lookup_register_binding:
  "lookup_binding (fst (register_binding t sid bus ep)) sid' bus' =
    (if sid' = sid \<and> bus' = bus \<and> bus \<le> BYTE_MESSAGE_INFO_11BIT_MAX \<and> lookup_binding t sid bus = None
     then Some ep else lookup_binding t sid' bus')"
  by (auto simp: register_binding_def lookup_binding_def Let_def not_less split: option.splits)

definition table_ins :: "endpoint_table \<Rightarrow> stream_id \<times> u16 \<Rightarrow> endpoint_id \<Rightarrow> endpoint_table \<times> unit rcp_result" where
  "table_ins t k = register_binding t (fst k) (snd k)"

definition table_look :: "endpoint_table \<Rightarrow> stream_id \<times> u16 \<Rightarrow> endpoint_id option" where
  "table_look t k = lookup_binding t (fst k) (snd k)"

definition valid_bus :: "stream_id \<times> u16 \<Rightarrow> bool" where
  "valid_bus k \<longleftrightarrow> snd k \<le> BYTE_MESSAGE_INFO_11BIT_MAX"

interpretation endpoints: binding_table table_ins table_look valid_bus
proof
  fix k :: "stream_id \<times> u16" and t :: endpoint_table and v :: endpoint_id
  obtain sid bus where k: "k = (sid, bus)" by (cases k)
  show "snd (table_ins t k v) = Inr () \<and> table_look (fst (table_ins t k v)) = (table_look t)(k \<mapsto> v)"
    if "valid_bus k" "table_look t k = None"
    using that
    by (auto simp: k valid_bus_def table_ins_def table_look_def register_binding_result
        lookup_register_binding fun_eq_iff)
  show "(\<exists>e. snd (table_ins t k v) = Inl e) \<and> table_look (fst (table_ins t k v)) = table_look t"
    if "\<not> valid_bus k \<or> table_look t k \<noteq> None"
    using that
    by (auto simp: k valid_bus_def table_ins_def table_look_def register_binding_result
        lookup_register_binding fun_eq_iff not_less)
qed

text \<open>A sequence of registrations as the code makes them, one call after the other.\<close>

fun register_all :: "endpoint_table \<Rightarrow> (stream_id \<times> u16 \<times> endpoint_id) list \<Rightarrow> endpoint_table" where
  "register_all t [] = t"
| "register_all t ((sid, bus, ep) # rs) = register_all (fst (register_binding t sid bus ep)) rs"

lemma table_ins_eq: "table_ins t (sid, bus) ep = register_binding t sid bus ep"
  by (simp add: table_ins_def)

lemma register_all_insert_all:
  "register_all t rs = insert_all table_ins t (map (\<lambda>(sid, bus, ep). ((sid, bus), ep)) rs)"
  by (induction t rs rule: register_all.induct) (simp_all add: table_ins_eq)

lemma lookup_register_all:
  "lookup_binding (register_all t rs) sid bus =
    (case lookup_binding t sid bus of Some ep \<Rightarrow> Some ep
     | None \<Rightarrow> if bus \<le> BYTE_MESSAGE_INFO_11BIT_MAX
               then map_of (map (\<lambda>(sid, bus, ep). ((sid, bus), ep)) rs) (sid, bus) else None)"
  using endpoints.look_insert_all [of t _ "(sid, bus)"]
  by (simp add: register_all_insert_all table_look_def valid_bus_def)

section \<open>Further facts\<close>

text \<open>The first registration of an address wins. After any sequence of registrations on an empty table, looking up a stream and a bus id gives the endpoint of the first registration of this pair, and nothing for a bus id that does not fit 11 bits or was not registered on this stream.\<close>

theorem first_registration_wins:
  "lookup_binding (register_all endpoint_table_new rs) sid bus =
    (if bus \<le> BYTE_MESSAGE_INFO_11BIT_MAX
     then map_of (map (\<lambda>(sid, bus, ep). ((sid, bus), ep)) rs) (sid, bus) else None)"
  by (simp add: lookup_register_all)


end
