(* ===== verification/Rcp_Lifecycle.thy ===== *)
theory Rcp_Lifecycle
  imports Rcp_Interfaces
begin

text \<open>
  The RC Server lifecycle, \<open>src/lifecycle.rs\<close>: the three states and their wire octet, which
  register categories a state lets a client reach and write, and the guarded transitions.
\<close>

section \<open>States and register access\<close>

datatype rc_server_state = HwUnconfigured | HwConfigured | RcpConfigured

definition INITIAL_STATE :: rc_server_state where "INITIAL_STATE = HwUnconfigured"

fun rc_server_state_to_u8 :: "rc_server_state \<Rightarrow> u8" where
  "rc_server_state_to_u8 HwUnconfigured = 0x00"
| "rc_server_state_to_u8 HwConfigured = 0x55"
| "rc_server_state_to_u8 RcpConfigured = 0xAA"

definition rc_server_state_from_u8 :: "u8 \<Rightarrow> rc_server_state rcp_result" where
  "rc_server_state_from_u8 raw =
    (if raw = 0x00 then Inr HwUnconfigured
     else if raw = 0x55 then Inr HwConfigured
     else if raw = 0xAA then Inr RcpConfigured
     else Inl (Other (''lifecycle: unrecognized RC Server state byte 0x'' @ hex02 raw
       @ '' (expected 0x00 HW_UNCONFIGURED, 0x55 HW_CONFIGURED, or 0xAA RCP_CONFIGURED)'')))"

datatype register_category = General | HwConfig | RcpConfig

fun is_register_reachable :: "rc_server_state \<Rightarrow> register_category \<Rightarrow> bool" where
  "is_register_reachable _ General = True"
| "is_register_reachable _ HwConfig = True"
| "is_register_reachable HwUnconfigured RcpConfig = False"
| "is_register_reachable HwConfigured RcpConfig = True"
| "is_register_reachable RcpConfigured RcpConfig = True"

definition check_register_reachable :: "rc_server_state \<Rightarrow> register_category \<Rightarrow> unit rcp_result" where
  "check_register_reachable state category =
    (if is_register_reachable state category then Inr () else Inl UnauthorizedAccess)"

datatype lock_policy = PolicyW | PolicyWStar

fun lock_policy_of :: "register_category \<Rightarrow> lock_policy option" where
  "lock_policy_of General = Some PolicyW"
| "lock_policy_of HwConfig = Some PolicyWStar"
| "lock_policy_of RcpConfig = Some PolicyW"

definition is_register_writable :: "rc_server_state \<Rightarrow> register_category \<Rightarrow> bool" where
  "is_register_writable state category =
    (if \<not> is_register_reachable state category then False
     else case lock_policy_of category of
            None \<Rightarrow> False
          | Some PolicyW \<Rightarrow> True
          | Some PolicyWStar \<Rightarrow> state \<noteq> RcpConfigured)"

definition check_register_writable :: "rc_server_state \<Rightarrow> register_category \<Rightarrow> unit rcp_result" where
  "check_register_writable state category =
    (if \<not> is_register_reachable state category then Inl UnauthorizedAccess
     else if is_register_writable state category then Inr ()
     else Inl LockedMemAccess)"

section \<open>Transitions\<close>

fun is_transition_defined :: "rc_server_state \<Rightarrow> rc_server_state \<Rightarrow> bool" where
  "is_transition_defined HwUnconfigured HwConfigured = True"
| "is_transition_defined HwConfigured RcpConfigured = True"
| "is_transition_defined HwConfigured HwUnconfigured = True"
| "is_transition_defined _ _ = False"

text \<open>
  The consistency check is a closure that may have effects: it is a function on the caller's
  world, so that a transition that must not run it returns the world untouched.
\<close>

definition run_consistency ::
  "rc_server_state \<Rightarrow> ('w \<Rightarrow> bool \<times> 'w) \<Rightarrow> 'w \<Rightarrow> rc_server_state rcp_result \<times> 'w" where
  "run_consistency target is_consistent w =
    (case is_consistent w of (ok, w') \<Rightarrow> (if ok then Inr target else Inl InvalidParameter, w'))"

fun try_transition ::
  "rc_server_state \<Rightarrow> rc_server_state \<Rightarrow> ('w \<Rightarrow> bool \<times> 'w) \<Rightarrow> 'w \<Rightarrow> rc_server_state rcp_result \<times> 'w" where
  "try_transition HwUnconfigured HwConfigured is_consistent w = run_consistency HwConfigured is_consistent w"
| "try_transition HwConfigured RcpConfigured is_consistent w = run_consistency RcpConfigured is_consistent w"
| "try_transition HwConfigured HwUnconfigured is_consistent w = (Inr HwUnconfigured, w)"
| "try_transition _ _ is_consistent w = (Inl RequestRejected, w)"

section \<open>What the lifecycle guarantees\<close>

lemma rc_server_state_from_to [simp]:
  "rc_server_state_from_u8 (rc_server_state_to_u8 s) = Inr s"
  by (cases s) (simp_all add: rc_server_state_from_u8_def)

lemma rc_server_state_from_u8_Inr:
  "rc_server_state_from_u8 raw = Inr s \<longleftrightarrow> raw = rc_server_state_to_u8 s"
  by (cases s) (auto simp: rc_server_state_from_u8_def)

text \<open>One attempt, with the world and the closure as the attempt's input.\<close>

definition lifecycle_step ::
  "rc_server_state \<Rightarrow> rc_server_state \<Rightarrow> (('w \<Rightarrow> bool \<times> 'w) \<times> 'w) \<Rightarrow> rc_server_state rcp_result" where
  "lifecycle_step s t i = fst (try_transition s t (fst i) (snd i))"

interpretation lifecycle: guarded_machine is_transition_defined lifecycle_step
proof
  fix s t u and i :: "('w \<Rightarrow> bool \<times> 'w) \<times> 'w"
  show "u = t \<and> is_transition_defined s t" if "lifecycle_step s t i = Inr u"
    using that
    by (cases s; cases t) (auto simp: lifecycle_step_def run_consistency_def split: prod.splits if_splits)
  show "lifecycle_step s t i = Inl RequestRejected" if "\<not> is_transition_defined s t"
    using that by (cases s; cases t) (auto simp: lifecycle_step_def)
qed

text \<open>
  The closure runs exactly on the two transitions that have a consistency guard: an undefined
  transition and the way back to the unconfigured state leave the world alone.
\<close>

lemma try_transition_world:
  "snd (try_transition s t c w) =
    (if is_transition_defined s t \<and> t \<noteq> HwUnconfigured then snd (c w) else w)"
  by (cases s; cases t) (auto simp: run_consistency_def split: prod.splits)

lemma try_transition_result:
  "fst (try_transition s t c w) =
    (if \<not> is_transition_defined s t then Inl RequestRejected
     else if t = HwUnconfigured \<or> fst (c w) then Inr t
     else Inl InvalidParameter)"
  by (cases s; cases t) (auto simp: run_consistency_def split: prod.splits)

lemma is_register_writable_iff:
  "is_register_writable s c \<longleftrightarrow>
     (c = General \<or> (c = HwConfig \<and> s \<noteq> RcpConfigured) \<or> (c = RcpConfig \<and> s \<noteq> HwUnconfigured))"
  by (cases s; cases c) (simp_all add: is_register_writable_def)

lemma check_register_writable_implies_reachable:
  "check_register_writable s c = Inr () \<Longrightarrow> check_register_reachable s c = Inr ()"
  by (auto simp: check_register_writable_def check_register_reachable_def split: if_splits)

lemma rcp_configured_final: "attempts lifecycle_step RcpConfigured xs = RcpConfigured"
  by (rule lifecycle.attempts_final) (case_tac t; simp)

lemma hw_config_locked_after:
  "check_register_writable (attempts lifecycle_step RcpConfigured xs) HwConfig = Inl LockedMemAccess"
  by (simp add: rcp_configured_final check_register_writable_def is_register_writable_def)

section \<open>Further facts\<close>

text \<open>Configuration is final. No sequence of transition attempts, whatever the consistency checks answer, leaves the configured state, and the hardware configuration stays locked against writing from then on.\<close>

theorem configured_is_final:
  "attempts lifecycle_step RcpConfigured xs = RcpConfigured
    \<and> check_register_writable (attempts lifecycle_step RcpConfigured xs) HwConfig = Inl LockedMemAccess"
  by (intro conjI rcp_configured_final hw_config_locked_after)

text \<open>A transition is decided by its shape, then by the consistency check. An undefined transition is rejected, the way back to the unconfigured state always succeeds, and the check is run exactly on the other two defined transitions, whose outcome it decides.\<close>

theorem transition_decided:
  "try_transition s t is_consistent w =
    (if \<not> is_transition_defined s t then (Inl RequestRejected, w)
     else if t = HwUnconfigured then (Inr t, w)
     else (if fst (is_consistent w) then Inr t else Inl InvalidParameter, snd (is_consistent w)))"
  using try_transition_result [of s t is_consistent w] try_transition_world [of s t is_consistent w]
  by (cases "try_transition s t is_consistent w") auto


end
