(* ===== verification/Rcp_Regmap.thy ===== *)
theory Rcp_Regmap
  imports Rcp_Interfaces Rcp_Lifecycle
begin

text \<open>
  The register map of \<open>src/regmap.rs\<close>: endpoint types and configuration layers, the table
  descriptors and the 65-octet general registers, the generic table of configuration rows,
  and the five row types. Every fixed-length block is an interpretation of the codec
  interface; the row functions are proved once for every row type.
\<close>

section \<open>Endpoint types and configuration layers\<close>

datatype endpoint_type = Wakeup | Gpio | Spi | I2c | Uart | Lin | PwmOut | PwmIn | Adc | Dac | Can
  | Iseled | Mdio

fun endpoint_type_to_u8 :: "endpoint_type \<Rightarrow> u8" where
  "endpoint_type_to_u8 Wakeup = 0x01"
| "endpoint_type_to_u8 Gpio = 0x02"
| "endpoint_type_to_u8 Spi = 0x03"
| "endpoint_type_to_u8 I2c = 0x04"
| "endpoint_type_to_u8 Uart = 0x05"
| "endpoint_type_to_u8 Lin = 0x06"
| "endpoint_type_to_u8 PwmOut = 0x07"
| "endpoint_type_to_u8 PwmIn = 0x08"
| "endpoint_type_to_u8 Adc = 0x09"
| "endpoint_type_to_u8 Dac = 0x0A"
| "endpoint_type_to_u8 Can = 0x0B"
| "endpoint_type_to_u8 Iseled = 0x0C"
| "endpoint_type_to_u8 Mdio = 0x0D"

definition endpoint_type_from_u8 :: "u8 \<Rightarrow> endpoint_type rcp_result" where
  "endpoint_type_from_u8 raw =
    (if raw = 0x01 then Inr Wakeup else if raw = 0x02 then Inr Gpio
     else if raw = 0x03 then Inr Spi else if raw = 0x04 then Inr I2c
     else if raw = 0x05 then Inr Uart else if raw = 0x06 then Inr Lin
     else if raw = 0x07 then Inr PwmOut else if raw = 0x08 then Inr PwmIn
     else if raw = 0x09 then Inr Adc else if raw = 0x0A then Inr Dac
     else if raw = 0x0B then Inr Can else if raw = 0x0C then Inr Iseled
     else if raw = 0x0D then Inr Mdio
     else Inl (Other (''regmap: unrecognized ep_type byte 0x'' @ hex02 raw
            @ '' (expected 0x01..=0x0D)'')))"

definition endpoint_type_is_reserved :: "endpoint_type \<Rightarrow> bool" where
  "endpoint_type_is_reserved t \<longleftrightarrow> t = Dac"

definition check_ep_type_supported :: "endpoint_type \<Rightarrow> unit rcp_result" where
  "check_ep_type_supported t =
    (if endpoint_type_is_reserved t then Inl UnsupportedCmd else Inr ())"

record per_ep_config_block =
  gen_ep_type :: endpoint_type

record per_ep_type_functional_config =
  fun_ep_type :: endpoint_type

datatype config_layer = Generic | CommonFunctional | PerTypeFunctional endpoint_type

definition per_type_layer :: "per_ep_type_functional_config \<Rightarrow> config_layer" where
  "per_type_layer c = PerTypeFunctional (fun_ep_type c)"

fun register_category_of :: "config_layer \<Rightarrow> register_category" where
  "register_category_of Generic = HwConfig"
| "register_category_of CommonFunctional = RcpConfig"
| "register_category_of (PerTypeFunctional _) = RcpConfig"

definition functional_config_matches_ep_type ::
  "per_ep_config_block \<Rightarrow> per_ep_type_functional_config \<Rightarrow> bool" where
  "functional_config_matches_ep_type generic per_type \<longleftrightarrow> gen_ep_type generic = fun_ep_type per_type"

definition check_functional_config_matches_ep_type ::
  "per_ep_config_block \<Rightarrow> per_ep_type_functional_config \<Rightarrow> unit rcp_result" where
  "check_functional_config_matches_ep_type generic per_type =
    (if functional_config_matches_ep_type generic per_type then Inr () else Inl InvalidParameter)"

record common_functional_config =
  ep_enable :: bool
  ep_clear_req_storage :: bool
  ep_req_crc_enable :: bool

definition encode_common_functional :: "common_functional_config \<Rightarrow> bytes" where
  "encode_common_functional c =
    [u8_of_bool (ep_enable c), u8_of_bool (ep_clear_req_storage c), u8_of_bool (ep_req_crc_enable c)]"

definition decode_common_functional :: "bytes \<Rightarrow> common_functional_config rcp_result" where
  "decode_common_functional b =
    (if length b < 3 then Inl ShortFrame
     else Inr \<lparr>ep_enable = (b ! 0 \<noteq> 0), ep_clear_req_storage = (b ! 1 \<noteq> 0),
               ep_req_crc_enable = (b ! 2 \<noteq> 0)\<rparr>)"

section \<open>Table descriptors and the general registers\<close>

record table_descriptor =
  td_ptr :: u16
  td_capacity :: u16

definition encode_table_descriptor :: "table_descriptor \<Rightarrow> bytes" where
  "encode_table_descriptor d = to_be_bytes (td_ptr d) @ to_be_bytes (td_capacity d)"

definition decode_table_descriptor :: "bytes \<Rightarrow> table_descriptor rcp_result" where
  "decode_table_descriptor b =
    (if length b < 4 then Inl ShortFrame
     else Inr \<lparr>td_ptr = from_be_bytes (subslice 0 2 b), td_capacity = from_be_bytes (subslice 2 2 b)\<rparr>)"

record general_registers =
  svr_oa_tc18_magic_nr :: u32
  svr_version :: u32
  svr_vendor_id :: u16
  svr_device_id :: u16
  svr_ep_count :: u16
  svr_req_stream_max :: u8
  svr_responder_streams_max :: u8
  svr_responder_mem_size :: u16
  svr_req_mem_size :: u16
  svr_sequencers_max :: u8
  svr_configuration_lock :: u8
  svr_implemented_options :: u8
  svr_io_pin_count :: u16
  svr_hw_cfg :: table_descriptor
  svr_request_stream_cfg :: table_descriptor
  svr_response_stream_cfg :: table_descriptor
  svr_ep_generic_cfg :: table_descriptor
  svr_ep_bytebus_id_map :: table_descriptor
  svr_ep_functional_cfg_ptr :: u16
  svr_sequencer_state_ptr :: u16
  svr_network_interface_cfg :: table_descriptor
  svr_physical_layer_cfg :: table_descriptor
  svr_time_synch_cfg :: table_descriptor
  svr_security_cfg :: table_descriptor

definition GENERAL_REGISTERS_LEN :: nat where [rcp_consts]: "GENERAL_REGISTERS_LEN = 65"

definition encode_general_registers :: "general_registers \<Rightarrow> bytes" where
  "encode_general_registers g =
     to_be_bytes (svr_oa_tc18_magic_nr g)
     @ to_be_bytes (svr_version g)
     @ to_be_bytes (svr_vendor_id g)
     @ to_be_bytes (svr_device_id g)
     @ to_be_bytes (svr_ep_count g)
     @ to_be_bytes (svr_req_stream_max g)
     @ to_be_bytes (svr_responder_streams_max g)
     @ to_be_bytes (svr_responder_mem_size g)
     @ to_be_bytes (svr_req_mem_size g)
     @ to_be_bytes (svr_sequencers_max g)
     @ to_be_bytes (svr_configuration_lock g)
     @ to_be_bytes (svr_implemented_options g)
     @ to_be_bytes (svr_io_pin_count g)
     @ encode_table_descriptor (svr_hw_cfg g)
     @ encode_table_descriptor (svr_request_stream_cfg g)
     @ encode_table_descriptor (svr_response_stream_cfg g)
     @ encode_table_descriptor (svr_ep_generic_cfg g)
     @ encode_table_descriptor (svr_ep_bytebus_id_map g)
     @ to_be_bytes (svr_ep_functional_cfg_ptr g)
     @ to_be_bytes (svr_sequencer_state_ptr g)
     @ encode_table_descriptor (svr_network_interface_cfg g)
     @ encode_table_descriptor (svr_physical_layer_cfg g)
     @ encode_table_descriptor (svr_time_synch_cfg g)
     @ encode_table_descriptor (svr_security_cfg g)"

text \<open>
  The decoder reads at a running offset; the offsets of the fields are written out. The
  descriptor decoder is called on the rest of the buffer and its error is passed on.
\<close>

definition decode_general_registers :: "bytes \<Rightarrow> general_registers rcp_result" where
  "decode_general_registers b =
    (if length b < GENERAL_REGISTERS_LEN then Inl ShortFrame
     else
     and_then (decode_table_descriptor (drop 25 b)) (\<lambda>hw_cfg.
     and_then (decode_table_descriptor (drop 29 b)) (\<lambda>request_stream_cfg.
     and_then (decode_table_descriptor (drop 33 b)) (\<lambda>response_stream_cfg.
     and_then (decode_table_descriptor (drop 37 b)) (\<lambda>ep_generic_cfg.
     and_then (decode_table_descriptor (drop 41 b)) (\<lambda>ep_bytebus_id_map.
     and_then (decode_table_descriptor (drop 49 b)) (\<lambda>network_interface_cfg.
     and_then (decode_table_descriptor (drop 53 b)) (\<lambda>physical_layer_cfg.
     and_then (decode_table_descriptor (drop 57 b)) (\<lambda>time_synch_cfg.
     and_then (decode_table_descriptor (drop 61 b)) (\<lambda>security_cfg.
     Inr \<lparr>svr_oa_tc18_magic_nr = from_be_bytes (subslice 0 4 b),
       svr_version = from_be_bytes (subslice 4 4 b),
       svr_vendor_id = from_be_bytes (subslice 8 2 b),
       svr_device_id = from_be_bytes (subslice 10 2 b),
       svr_ep_count = from_be_bytes (subslice 12 2 b),
       svr_req_stream_max = b ! 14,
       svr_responder_streams_max = b ! 15,
       svr_responder_mem_size = from_be_bytes (subslice 16 2 b),
       svr_req_mem_size = from_be_bytes (subslice 18 2 b),
       svr_sequencers_max = b ! 20,
       svr_configuration_lock = b ! 21,
       svr_implemented_options = b ! 22,
       svr_io_pin_count = from_be_bytes (subslice 23 2 b),
       svr_hw_cfg = hw_cfg,
       svr_request_stream_cfg = request_stream_cfg,
       svr_response_stream_cfg = response_stream_cfg,
       svr_ep_generic_cfg = ep_generic_cfg,
       svr_ep_bytebus_id_map = ep_bytebus_id_map,
       svr_ep_functional_cfg_ptr = from_be_bytes (subslice 45 2 b),
       svr_sequencer_state_ptr = from_be_bytes (subslice 47 2 b),
       svr_network_interface_cfg = network_interface_cfg,
       svr_physical_layer_cfg = physical_layer_cfg,
       svr_time_synch_cfg = time_synch_cfg,
       svr_security_cfg = security_cfg\<rparr>))))))))))"

definition claims_compound_wait_bundle :: "general_registers \<Rightarrow> bool" where
  "claims_compound_wait_bundle g \<longleftrightarrow> svr_implemented_options g AND push_bit 0 1 \<noteq> 0"

section \<open>Configuration rows\<close>

record hw_pin_mapping_entry =
  hw_ep_nr :: u8
  hw_ep_pin_nr :: u8
  hw_pin_props :: u8

definition encode_hw_pin_mapping :: "hw_pin_mapping_entry \<Rightarrow> bytes" where
  "encode_hw_pin_mapping e = [hw_ep_nr e, hw_ep_pin_nr e, hw_pin_props e]"

definition decode_hw_pin_mapping :: "bytes \<Rightarrow> hw_pin_mapping_entry rcp_result" where
  "decode_hw_pin_mapping b =
    (if length b < 3 then Inl ShortFrame
     else Inr \<lparr>hw_ep_nr = b ! 0, hw_ep_pin_nr = b ! 1, hw_pin_props = b ! 2\<rparr>)"

record request_stream_config_entry =
  rx_stream_id :: u64
  rx_stream_max_request_size :: u16
  rx_wd_timeout_interval :: u16
  rx_secure_channel_index :: u8
  rx_enforce_e2e :: bool
  rx_enforce_seq :: bool
  rx_seq_safestate_enable :: bool
  rx_wd_enable :: bool
  rx_wd_safestate_enable :: bool
  rx_ovrflw_safestate_enable :: bool
  rx_safety_measure :: bool
  rx_wd_info_enable :: bool
  rx_safestate_sequencer :: u8
  rx_safe_sequencer_state :: u8
  rx_ack_stream_index :: u8
  rx_resp_stream_index :: u8

definition FLAG_ENFORCE_E2E :: u8 where [rcp_consts]: "FLAG_ENFORCE_E2E = push_bit 0 1"
definition FLAG_ENFORCE_SEQ :: u8 where [rcp_consts]: "FLAG_ENFORCE_SEQ = push_bit 1 1"
definition FLAG_SEQ_SAFESTATE_ENABLE :: u8 where [rcp_consts]: "FLAG_SEQ_SAFESTATE_ENABLE = push_bit 2 1"
definition FLAG_WD_ENABLE :: u8 where [rcp_consts]: "FLAG_WD_ENABLE = push_bit 3 1"
definition FLAG_WD_SAFESTATE_ENABLE :: u8 where [rcp_consts]: "FLAG_WD_SAFESTATE_ENABLE = push_bit 4 1"
definition FLAG_OVRFLW_SAFESTATE_ENABLE :: u8 where
  [rcp_consts]: "FLAG_OVRFLW_SAFESTATE_ENABLE = push_bit 5 1"
definition FLAG_SAFETY_MEASURE :: u8 where [rcp_consts]: "FLAG_SAFETY_MEASURE = push_bit 6 1"
definition FLAG_WD_INFO_ENABLE :: u8 where [rcp_consts]: "FLAG_WD_INFO_ENABLE = push_bit 7 1"

definition or_if :: "bool \<Rightarrow> u8 \<Rightarrow> u8 \<Rightarrow> u8" where
  "or_if c flag b = (if c then b OR flag else b)"

definition flags_byte :: "request_stream_config_entry \<Rightarrow> u8" where
  "flags_byte e =
    or_if (rx_wd_info_enable e) FLAG_WD_INFO_ENABLE
    (or_if (rx_safety_measure e) FLAG_SAFETY_MEASURE
    (or_if (rx_ovrflw_safestate_enable e) FLAG_OVRFLW_SAFESTATE_ENABLE
    (or_if (rx_wd_safestate_enable e) FLAG_WD_SAFESTATE_ENABLE
    (or_if (rx_wd_enable e) FLAG_WD_ENABLE
    (or_if (rx_seq_safestate_enable e) FLAG_SEQ_SAFESTATE_ENABLE
    (or_if (rx_enforce_seq e) FLAG_ENFORCE_SEQ
    (or_if (rx_enforce_e2e e) FLAG_ENFORCE_E2E 0)))))))"

definition encode_request_stream_config :: "request_stream_config_entry \<Rightarrow> bytes" where
  "encode_request_stream_config e =
    to_be_bytes (rx_stream_id e) @ to_be_bytes (rx_stream_max_request_size e)
    @ to_be_bytes (rx_wd_timeout_interval e) @ [rx_secure_channel_index e, flags_byte e,
      rx_safestate_sequencer e, rx_safe_sequencer_state e, rx_ack_stream_index e, rx_resp_stream_index e]
    @ replicate 6 0"

definition decode_request_stream_config :: "bytes \<Rightarrow> request_stream_config_entry rcp_result" where
  "decode_request_stream_config b =
    (if length b < 24 then Inl ShortFrame
     else let flags = b ! 13 in Inr
      \<lparr>rx_stream_id = from_be_bytes (subslice 0 8 b),
       rx_stream_max_request_size = from_be_bytes (subslice 8 2 b),
       rx_wd_timeout_interval = from_be_bytes (subslice 10 2 b),
       rx_secure_channel_index = b ! 12,
       rx_enforce_e2e = (flags AND FLAG_ENFORCE_E2E \<noteq> 0),
       rx_enforce_seq = (flags AND FLAG_ENFORCE_SEQ \<noteq> 0),
       rx_seq_safestate_enable = (flags AND FLAG_SEQ_SAFESTATE_ENABLE \<noteq> 0),
       rx_wd_enable = (flags AND FLAG_WD_ENABLE \<noteq> 0),
       rx_wd_safestate_enable = (flags AND FLAG_WD_SAFESTATE_ENABLE \<noteq> 0),
       rx_ovrflw_safestate_enable = (flags AND FLAG_OVRFLW_SAFESTATE_ENABLE \<noteq> 0),
       rx_safety_measure = (flags AND FLAG_SAFETY_MEASURE \<noteq> 0),
       rx_wd_info_enable = (flags AND FLAG_WD_INFO_ENABLE \<noteq> 0),
       rx_safestate_sequencer = b ! 14,
       rx_safe_sequencer_state = b ! 15,
       rx_ack_stream_index = b ! 16,
       rx_resp_stream_index = b ! 17\<rparr>)"

record ep_byte_bus_id_map_entry =
  map_stream_index :: u8
  map_byte_bus_id :: u16
  map_ep_nr :: u8

definition is_end_of_table :: "ep_byte_bus_id_map_entry \<Rightarrow> bool" where
  "is_end_of_table e \<longleftrightarrow> map_stream_index e = 0"

definition encode_ep_byte_bus_id_map :: "ep_byte_bus_id_map_entry \<Rightarrow> bytes" where
  "encode_ep_byte_bus_id_map e =
    [map_stream_index e, map_ep_nr e] @ to_be_bytes (map_byte_bus_id e)"

definition decode_ep_byte_bus_id_map :: "bytes \<Rightarrow> ep_byte_bus_id_map_entry rcp_result" where
  "decode_ep_byte_bus_id_map b =
    (if length b < 4 then Inl ShortFrame
     else Inr \<lparr>map_stream_index = b ! 0, map_byte_bus_id = from_be_bytes (subslice 2 2 b),
               map_ep_nr = b ! 1\<rparr>)"

record response_stream_config_entry =
  resp_stream_uid :: u16
  resp_max_avtpdu_size :: u16
  resp_queue_size :: u16
  resp_flush_on_count :: u16
  resp_flush_time :: u16

definition encode_response_stream_config :: "response_stream_config_entry \<Rightarrow> bytes" where
  "encode_response_stream_config e =
    to_be_bytes (resp_stream_uid e) @ to_be_bytes (resp_max_avtpdu_size e)
    @ to_be_bytes (resp_queue_size e) @ to_be_bytes (resp_flush_on_count e)
    @ to_be_bytes (resp_flush_time e)"

definition decode_response_stream_config :: "bytes \<Rightarrow> response_stream_config_entry rcp_result" where
  "decode_response_stream_config b =
    (if length b < 10 then Inl ShortFrame
     else Inr
      \<lparr>resp_stream_uid = from_be_bytes (subslice 0 2 b),
       resp_max_avtpdu_size = from_be_bytes (subslice 2 2 b),
       resp_queue_size = from_be_bytes (subslice 4 2 b),
       resp_flush_on_count = from_be_bytes (subslice 6 2 b),
       resp_flush_time = from_be_bytes (subslice 8 2 b)\<rparr>)"

record sequencer_state_entry =
  seq_state :: u8
  request_stream_index :: u8

definition sequencer_state_power_on_default :: sequencer_state_entry where
  "sequencer_state_power_on_default = \<lparr>seq_state = 1, request_stream_index = 0\<rparr>"

definition encode_sequencer_state :: "sequencer_state_entry \<Rightarrow> bytes" where
  "encode_sequencer_state e = [seq_state e, request_stream_index e]"

definition decode_sequencer_state :: "bytes \<Rightarrow> sequencer_state_entry rcp_result" where
  "decode_sequencer_state b =
    (if length b < 2 then Inl ShortFrame
     else Inr \<lparr>seq_state = b ! 0, request_stream_index = b ! 1\<rparr>)"

section \<open>Tables of rows\<close>

text \<open>
  \<open>encode_rows\<close> and \<open>decode_rows\<close> are generic over the trait \<open>ConfigTableRow\<close>: they take the
  row's encoder, decoder and length.
\<close>

fun encode_rows :: "('a \<Rightarrow> bytes) \<Rightarrow> 'a list \<Rightarrow> bytes" where
  "encode_rows encode_row [] = []"
| "encode_rows encode_row (row # rows) = encode_row row @ encode_rows encode_row rows"

function decode_rows_loop ::
  "(bytes \<Rightarrow> 'a rcp_result) \<Rightarrow> nat \<Rightarrow> bytes \<Rightarrow> nat \<Rightarrow> 'a list \<Rightarrow> 'a list rcp_result" where
  "decode_rows_loop decode_row row_len b off rows =
    (if 0 < row_len \<and> off < length b then
       (case decode_row (subslice off row_len b) of
          Inl e \<Rightarrow> Inl e
        | Inr row \<Rightarrow> decode_rows_loop decode_row row_len b (off + row_len) (rows @ [row]))
     else Inr rows)"
  by pat_completeness auto
termination
  by (relation "measure (\<lambda>(_, _, b, off, _). length b - off)") auto

declare decode_rows_loop.simps [simp del]

definition decode_rows :: "(bytes \<Rightarrow> 'a rcp_result) \<Rightarrow> nat \<Rightarrow> bytes \<Rightarrow> 'a list rcp_result" where
  "decode_rows decode_row row_len b =
    (if row_len = 0 \<or> length b mod row_len \<noteq> 0 then Inl ShortFrame
     else decode_rows_loop decode_row row_len b 0 [])"

end
