(* ===== verification/Rcp_Regmap_Codecs.thy ===== *)
theory Rcp_Regmap_Codecs
  imports Rcp_Regmap
begin

text \<open>
  The codecs of the register map: every block satisfies the codec interface, every row type the
  row interface, and the tables of rows inherit the round trips from it.
\<close>

section \<open>Endpoint types\<close>

lemma endpoint_type_from_to [simp]: "endpoint_type_from_u8 (endpoint_type_to_u8 t) = Inr t"
  by (cases t) (simp_all add: endpoint_type_from_u8_def)

lemma endpoint_type_from_u8_Inr:
  "endpoint_type_from_u8 raw = Inr t \<Longrightarrow> raw = endpoint_type_to_u8 t"
  unfolding endpoint_type_from_u8_def by (simp split: if_splits; (drule sym; simp)?)

lemma endpoint_type_to_u8_range: "1 \<le> endpoint_type_to_u8 t \<and> endpoint_type_to_u8 t \<le> 13"
  by (cases t) simp_all

section \<open>Rows\<close>

locale config_table_row = wire_codec +
  assumes len_pos: "0 < len"
begin

lemma length_encode_rows: "length (encode_rows enc rows) = length rows * len"
  by (induction rows) (simp_all add: length_enc)

lemma decode_rows_loop_encoded:
  "decode_rows_loop dec len (pre @ encode_rows enc rows) (length pre) acc = Inr (acc @ rows)"
proof (induction rows arbitrary: pre acc)
  case Nil
  then show ?case by (subst decode_rows_loop.simps) simp
next
  case (Cons row rows)
  have sub: "subslice (length pre) len (pre @ enc row @ encode_rows enc rows) = enc row"
    by (simp add: subslice_def length_enc)
  show ?case
    using Cons.IH [of "pre @ enc row" "acc @ [row]"] len_pos
    by (subst decode_rows_loop.simps) (simp add: sub dec_enc length_enc)
qed

lemma decode_encode_rows: "decode_rows dec len (encode_rows enc rows) = Inr rows"
  using decode_rows_loop_encoded [of "[]" rows "[]"] len_pos
  by (simp add: decode_rows_def length_encode_rows)

lemma encode_rows_inj: "encode_rows enc rows = encode_rows enc rows' \<longleftrightarrow> rows = rows'"
  by (metis decode_encode_rows sum.inject(2))

lemma decode_rows_misaligned: "length bs mod len \<noteq> 0 \<Longrightarrow> decode_rows dec len bs = Inl ShortFrame"
  by (simp add: decode_rows_def)

end

text \<open>Rows without reserved bits: the decoder accepts exactly the whole numbers of rows.\<close>

locale exact_table_row = config_table_row + exact_codec
begin

lemma whole_rows: "len dvd length bs \<Longrightarrow> \<exists>rows. bs = encode_rows enc rows"
proof (induction "length bs div len" arbitrary: bs)
  case 0
  then have "bs = []" using len_pos by (auto elim!: dvdE)
  then have "bs = encode_rows enc []" by simp
  then show ?case by blast
next
  case (Suc n)
  from Suc.prems obtain k where k: "length bs = len * k" by (rule dvdE)
  with Suc.hyps(2) len_pos have "k = Suc n" by simp
  with k have len: "len \<le> length bs" and rest: "length (drop len bs) = len * n" by simp_all
  then have "length (drop len bs) div len = n" using len_pos by simp
  then obtain rows where rows: "drop len bs = encode_rows enc rows"
    using Suc.hyps(1) [of "drop len bs"] rest by (metis dvd_triv_left)
  have "length (take len bs) = len" using len by simp
  then obtain row where "take len bs = enc row" using dec_exact by metis
  with rows have "bs = encode_rows enc (row # rows)" by (metis append_take_drop_id encode_rows.simps(2))
  then show ?case by blast
qed

lemma decode_rows_Inr_iff: "decode_rows dec len bs = Inr rows \<longleftrightarrow> bs = encode_rows enc rows"
proof
  assume dec: "decode_rows dec len bs = Inr rows"
  then have "len dvd length bs" by (auto simp: decode_rows_def split: if_splits)
  then obtain rows' where "bs = encode_rows enc rows'" using whole_rows by blast
  with dec show "bs = encode_rows enc rows" by (simp add: decode_encode_rows)
qed (simp add: decode_encode_rows)

end

section \<open>The blocks of the register map\<close>

text \<open>Adjacent slices join, single octets are slices of length one.\<close>

lemma subslice_join: "off + n = off' \<Longrightarrow> subslice off n b @ subslice off' m b @ rest = subslice off (n + m) b @ rest"
  using subslice_append_subslice [of off n b m] by (simp flip: append_assoc)

lemma subslice_join_end: "off + n = off' \<Longrightarrow> subslice off n b @ subslice off' m b = subslice off (n + m) b"
  using subslice_append_subslice [of off n b m] by simp

lemma nth_as_subslice: "k < length b \<Longrightarrow> b ! k # rest = subslice k 1 b @ rest"
  by (simp add: subslice_def take_Suc hd_drop_conv_nth)

lemma subslice_whole: "length b \<le> n \<Longrightarrow> subslice 0 n b = b"
  by (simp add: subslice_def)

lemmas join_slices = subslice_join subslice_join_end nth_as_subslice subslice_whole

lemma u8_of_bool_eq_0 [simp]: "u8_of_bool b = 0 \<longleftrightarrow> \<not> b"
  by (simp add: u8_of_bool_def)

interpretation common_functional: wire_codec encode_common_functional decode_common_functional 3
  by unfold_locales (simp_all add: encode_common_functional_def decode_common_functional_def)

interpretation descriptor: exact_codec encode_table_descriptor decode_table_descriptor 4
proof
  show "\<exists>d. decode_table_descriptor bs = Inr d \<and> encode_table_descriptor d = bs" if "length bs = 4" for bs
    using that
    by (simp add: encode_table_descriptor_def decode_table_descriptor_def length_subslice join_slices)
qed (simp_all add: encode_table_descriptor_def decode_table_descriptor_def subslice_def)

interpretation hw_pin_row: exact_table_row encode_hw_pin_mapping decode_hw_pin_mapping 3
proof
  show "\<exists>d. decode_hw_pin_mapping bs = Inr d \<and> encode_hw_pin_mapping d = bs" if "length bs = 3" for bs
    using that by (simp add: encode_hw_pin_mapping_def decode_hw_pin_mapping_def join_slices)
qed (simp_all add: encode_hw_pin_mapping_def decode_hw_pin_mapping_def)

interpretation bus_id_row: exact_table_row encode_ep_byte_bus_id_map decode_ep_byte_bus_id_map 4
proof
  show "\<exists>d. decode_ep_byte_bus_id_map bs = Inr d \<and> encode_ep_byte_bus_id_map d = bs" if "length bs = 4" for bs
    using that by (simp add: encode_ep_byte_bus_id_map_def decode_ep_byte_bus_id_map_def length_subslice join_slices)
qed (simp_all add: encode_ep_byte_bus_id_map_def decode_ep_byte_bus_id_map_def subslice_def)

interpretation response_row: exact_table_row encode_response_stream_config decode_response_stream_config 10
proof
  show "\<exists>d. decode_response_stream_config bs = Inr d \<and> encode_response_stream_config d = bs"
    if "length bs = 10" for bs
    using that
    by (simp add: encode_response_stream_config_def decode_response_stream_config_def length_subslice join_slices)
qed (simp_all add: encode_response_stream_config_def decode_response_stream_config_def subslice_def)

interpretation sequencer_row: exact_table_row encode_sequencer_state decode_sequencer_state 2
proof
  show "\<exists>d. decode_sequencer_state bs = Inr d \<and> encode_sequencer_state d = bs" if "length bs = 2" for bs
    using that by (simp add: encode_sequencer_state_def decode_sequencer_state_def join_slices)
qed (simp_all add: encode_sequencer_state_def decode_sequencer_state_def)

text \<open>The flag octet keeps its eight flags apart.\<close>

lemma bit_or_if [bit_simps]: "bit (or_if c flag b) n \<longleftrightarrow> bit b n \<or> c \<and> bit flag n"
  by (auto simp: or_if_def bit_simps)

lemma and_push_bit_1: "(w :: u8) AND push_bit n 1 \<noteq> 0 \<longleftrightarrow> bit w n"
  by (metis bit_iff_and_push_bit_not_eq_0)

lemma flags_byte_bits:
  "flags_byte e AND FLAG_ENFORCE_E2E \<noteq> 0 \<longleftrightarrow> rx_enforce_e2e e"
  "flags_byte e AND FLAG_ENFORCE_SEQ \<noteq> 0 \<longleftrightarrow> rx_enforce_seq e"
  "flags_byte e AND FLAG_SEQ_SAFESTATE_ENABLE \<noteq> 0 \<longleftrightarrow> rx_seq_safestate_enable e"
  "flags_byte e AND FLAG_WD_ENABLE \<noteq> 0 \<longleftrightarrow> rx_wd_enable e"
  "flags_byte e AND FLAG_WD_SAFESTATE_ENABLE \<noteq> 0 \<longleftrightarrow> rx_wd_safestate_enable e"
  "flags_byte e AND FLAG_OVRFLW_SAFESTATE_ENABLE \<noteq> 0 \<longleftrightarrow> rx_ovrflw_safestate_enable e"
  "flags_byte e AND FLAG_SAFETY_MEASURE \<noteq> 0 \<longleftrightarrow> rx_safety_measure e"
  "flags_byte e AND FLAG_WD_INFO_ENABLE \<noteq> 0 \<longleftrightarrow> rx_wd_info_enable e"
  unfolding flags_byte_def FLAG_ENFORCE_E2E_def FLAG_ENFORCE_SEQ_def FLAG_SEQ_SAFESTATE_ENABLE_def
    FLAG_WD_ENABLE_def FLAG_WD_SAFESTATE_ENABLE_def FLAG_OVRFLW_SAFESTATE_ENABLE_def
    FLAG_SAFETY_MEASURE_def FLAG_WD_INFO_ENABLE_def and_push_bit_1
  by (simp_all add: bit_or_if bit_push_bit_iff del: push_bit_of_1)

interpretation request_row: config_table_row encode_request_stream_config decode_request_stream_config 24
proof
  show "decode_request_stream_config (encode_request_stream_config e @ rest) = Inr e" for e rest
  proof -
    let ?b = "encode_request_stream_config e @ rest"
    have nth: "?b ! 12 = rx_secure_channel_index e" "?b ! 13 = flags_byte e"
      "?b ! 14 = rx_safestate_sequencer e" "?b ! 15 = rx_safe_sequencer_state e"
      "?b ! 16 = rx_ack_stream_index e" "?b ! 17 = rx_resp_stream_index e"
      by (simp_all add: encode_request_stream_config_def nth_append)
    have sub: "subslice 0 8 ?b = to_be_bytes (rx_stream_id e)"
      "subslice 8 2 ?b = to_be_bytes (rx_stream_max_request_size e)"
      "subslice 10 2 ?b = to_be_bytes (rx_wd_timeout_interval e)"
      by (simp_all add: encode_request_stream_config_def subslice_def)
    have "\<not> length ?b < 24" by (simp add: encode_request_stream_config_def)
    then show ?thesis
      unfolding decode_request_stream_config_def Let_def nth sub flags_byte_bits by simp
  qed
qed (simp_all add: encode_request_stream_config_def decode_request_stream_config_def)

section \<open>The general registers\<close>

lemma descriptor_drop:
  "n + 4 \<le> length b \<Longrightarrow> decode_table_descriptor (drop n b)
     = Inr \<lparr>td_ptr = from_be_bytes (subslice n 2 b), td_capacity = from_be_bytes (subslice (n + 2) 2 b)\<rparr>"
  by (simp add: decode_table_descriptor_def subslice_def add.commute)

interpretation general_block: exact_codec encode_general_registers decode_general_registers 65
proof
  show "length (encode_general_registers g) = 65" for g
    by (simp add: encode_general_registers_def descriptor.length_enc)
  show "decode_general_registers (encode_general_registers g @ rest) = Inr g" for g rest
    by (simp add: encode_general_registers_def decode_general_registers_def descriptor.length_enc
        descriptor.dec_enc_append rcp_consts subslice_def nth_append)
  show "decode_general_registers bs = Inl ShortFrame" if "length bs < 65" for bs
    using that by (simp add: decode_general_registers_def rcp_consts)
  show "\<exists>g. decode_general_registers bs = Inr g \<and> encode_general_registers g = bs" if "length bs = 65" for bs
    using that
    by (simp add: encode_general_registers_def decode_general_registers_def encode_table_descriptor_def
        descriptor_drop rcp_consts length_subslice join_slices)
qed

section \<open>Further facts\<close>

text \<open>The byte-bus-id map is exactly its octets. Decoding a table of octets gives a list of rows just when the octets are the encoding of these rows; so every whole number of rows is accepted, nothing else is, and no two tables share an encoding.\<close>

theorem bus_id_table_exact:
  "decode_rows decode_ep_byte_bus_id_map 4 bs = Inr rows \<longleftrightarrow> bs = encode_rows encode_ep_byte_bus_id_map rows"
  by (rule bus_id_row.decode_rows_Inr_iff)

text \<open>Request stream configurations survive their table. A list of rows is encoded into 24 octets each and decoded to the same list, all eight flags of every row included.\<close>

theorem request_stream_rows_round_trip:
  "decode_rows decode_request_stream_config 24 (encode_rows encode_request_stream_config rows) = Inr rows
    \<and> length (encode_rows encode_request_stream_config rows) = length rows * 24"
  using request_row.decode_encode_rows request_row.length_encode_rows by simp

section \<open>Properties\<close>

text \<open>C37: the general registers and their 65 octets determine each other. Encoding is a bijection onto the buffers of that length, decoding inverts it and ignores what follows, and a shorter buffer is refused.\<close>

theorem general_registers_bijection:
  "bij_betw encode_general_registers UNIV {bs. length bs = 65}
    \<and> decode_general_registers (encode_general_registers g @ rest) = Inr g
    \<and> (length bs < 65 \<longrightarrow> decode_general_registers bs = Inl ShortFrame)"
  using general_block.bij_enc general_block.dec_enc_append general_block.dec_short by simp

lemma general_registers_bijection_witness:
  "decode_general_registers [1, 2, 3] = Inl ShortFrame"
  using general_registers_bijection [of undefined "[]" "[1, 2, 3]"] by simp


end
