(* ===== verification/Rcp_Ep0.thy ===== *)
theory Rcp_Ep0
  imports Rcp_Acf Rcp_Avtp Rcp_Lifecycle
begin

text \<open>
  The access rules of endpoint 0, \<open>src/ep0.rs\<close>: which requests are routed to the register map,
  and which of them the lifecycle state and the root-client rule let through.
\<close>

definition EP0_BYTE_BUS_ID :: u16 where [rcp_consts]: "EP0_BYTE_BUS_ID = 0"

definition is_ep0_address :: "u16 \<Rightarrow> bool" where
  "is_ep0_address bus \<longleftrightarrow> bus = EP0_BYTE_BUS_ID"

datatype request_route = RouteEp0 | RouteDeviceEndpoint

definition route_byte_bus_id :: "u16 \<Rightarrow> request_route" where
  "route_byte_bus_id bus = (if is_ep0_address bus then RouteEp0 else RouteDeviceEndpoint)"

datatype ep0_access_kind = AccessRead | AccessWrite

definition access_kind :: "byte_message_info \<Rightarrow> ep0_access_kind" where
  "access_kind info = (if bmi_op info then AccessWrite else AccessRead)"

definition check_ep0_access ::
  "rc_server_state \<Rightarrow> register_category \<Rightarrow> byte_message_info \<Rightarrow> unit rcp_result" where
  "check_ep0_access state category info =
    (case access_kind info of
       AccessRead \<Rightarrow> check_register_reachable state category
     | AccessWrite \<Rightarrow> check_register_writable state category)"

definition is_root_client :: "stream_id option \<Rightarrow> stream_id \<Rightarrow> bool" where
  "is_root_client root_client stream \<longleftrightarrow> root_client = Some stream"

definition check_ep0_access_for_stream ::
  "rc_server_state \<Rightarrow> register_category \<Rightarrow> byte_message_info \<Rightarrow> stream_id \<Rightarrow> stream_id option
    \<Rightarrow> unit rcp_result" where
  "check_ep0_access_for_stream state category info requesting_stream root_client =
    (case access_kind info of
       AccessRead \<Rightarrow> check_ep0_access state category info
     | AccessWrite \<Rightarrow>
         if is_root_client root_client requesting_stream
         then check_ep0_access state category info
         else Inl UnauthorizedAccess)"

section \<open>The access decision\<close>

lemma check_ep0_access_for_stream_Inr_iff:
  "check_ep0_access_for_stream state category info stream root = Inr () \<longleftrightarrow>
     (if bmi_op info then root = Some stream \<and> is_register_writable state category
      else is_register_reachable state category)"
  by (auto simp: check_ep0_access_for_stream_def check_ep0_access_def access_kind_def is_root_client_def
      check_register_reachable_def check_register_writable_def is_register_writable_def)

lemma check_ep0_access_for_stream_error:
  "check_ep0_access_for_stream state category info stream root = Inl e \<Longrightarrow>
     e = UnauthorizedAccess \<or> e = LockedMemAccess"
  by (auto simp: check_ep0_access_for_stream_def check_ep0_access_def access_kind_def
      check_register_reachable_def check_register_writable_def split: if_splits)

text \<open>A refusal is always a TC18 error, so it can be answered on the wire.\<close>

lemma check_ep0_access_for_stream_answerable:
  "check_ep0_access_for_stream state category info stream root = Inl e \<Longrightarrow> \<exists>code. tc18_wire_code e = Some code"
  by (drule check_ep0_access_for_stream_error) auto

end
