(* ===== verification/Rcp_Watchdog.thy ===== *)
theory Rcp_Watchdog
  imports Rcp_Interfaces
begin

text \<open>
  The per-stream watchdog of \<open>src/watchdog.rs\<close>: a state that remembers the tick of the last
  request, the expiry test with its saturating subtraction, and the evaluation under the two
  configuration flags.
\<close>

record stream_watchdog_state =
  last_reset_tick :: u64

definition stream_watchdog_new :: "u64 \<Rightarrow> stream_watchdog_state" where
  "stream_watchdog_new now_tick = \<lparr>last_reset_tick = now_tick\<rparr>"

definition reset_on_request :: "stream_watchdog_state \<Rightarrow> u64 \<Rightarrow> stream_watchdog_state" where
  "reset_on_request s now_tick = \<lparr>last_reset_tick = now_tick\<rparr>"

datatype stream_watchdog_timeout = StreamWatchdogTimeout u16

fun is_stream_watchdog_expired ::
  "stream_watchdog_state \<Rightarrow> u64 \<Rightarrow> stream_watchdog_timeout \<Rightarrow> bool" where
  "is_stream_watchdog_expired state now_tick (StreamWatchdogTimeout timeout) \<longleftrightarrow>
     saturating_sub now_tick (last_reset_tick state) \<ge> ucast timeout"

datatype stream_watchdog_outcome = Alive | ExpiredNoSafestate | ExpiredSafestate

definition watchdog_overflowed :: "stream_watchdog_outcome \<Rightarrow> bool" where
  "watchdog_overflowed o' \<longleftrightarrow> o' \<noteq> Alive"

definition drives_safestate :: "stream_watchdog_outcome \<Rightarrow> bool" where
  "drives_safestate o' \<longleftrightarrow> o' = ExpiredSafestate"

definition evaluate_stream_watchdog ::
  "stream_watchdog_state \<Rightarrow> u64 \<Rightarrow> stream_watchdog_timeout \<Rightarrow> bool \<Rightarrow> bool \<Rightarrow> stream_watchdog_outcome" where
  "evaluate_stream_watchdog state now_tick timeout rx_wd_enable rx_wd_safestate_enable =
    (if \<not> rx_wd_enable \<or> \<not> is_stream_watchdog_expired state now_tick timeout then Alive
     else if rx_wd_safestate_enable then ExpiredSafestate else ExpiredNoSafestate)"

section \<open>Expiry in ticks\<close>

lemma is_stream_watchdog_expired_iff:
  "is_stream_watchdog_expired s now (StreamWatchdogTimeout t) \<longleftrightarrow>
     unat (last_reset_tick s) + unat t \<le> unat now \<or> t = 0"
  using unat_eq_0 [of t] by (auto simp: word_le_nat_alt unat_saturating_sub unat_ucast_u16_u64 simp del: unat_eq_0)

section \<open>Further facts\<close>

text \<open>The watchdog expires on its tick. An enabled watchdog is reported expired exactly when at least the time-out has passed since the last request, or the time-out is zero; a clock that reads earlier than the last request does not expire it.\<close>

theorem watchdog_expiry:
  "watchdog_overflowed (evaluate_stream_watchdog s now (StreamWatchdogTimeout t) enabled safestate) \<longleftrightarrow>
     enabled \<and> (unat (last_reset_tick s) + unat t \<le> unat now \<or> t = 0)"
  by (simp add: evaluate_stream_watchdog_def watchdog_overflowed_def is_stream_watchdog_expired_iff
      del: is_stream_watchdog_expired.simps)


end
