(* ===== verification/Rcp_Evtgroup.thy ===== *)
theory Rcp_Evtgroup
  imports Rcp_Acf
begin

text \<open>
  The event-group vocabulary of \<open>src/evtgroup.rs\<close>: the octet of a group, and what the 3-bit
  sub-opcode of a request says.
\<close>

datatype evt_group = GroupA | GroupB | GroupC

fun evt_group_to_u8 :: "evt_group \<Rightarrow> u8" where
  "evt_group_to_u8 GroupA = 0"
| "evt_group_to_u8 GroupB = 1"
| "evt_group_to_u8 GroupC = 2"

definition evt_group_from_u8 :: "u8 \<Rightarrow> evt_group rcp_result" where
  "evt_group_from_u8 raw =
    (if raw = 0 then Inr GroupA else if raw = 1 then Inr GroupB else if raw = 2 then Inr GroupC
     else Inl InvalidParameter)"

definition classify_evt_sub_opcode :: "u8 \<Rightarrow> evt_group option rcp_result" where
  "classify_evt_sub_opcode sub_opcode =
    (if sub_opcode > EVT_SUB_OPCODE_MAX then Inl InvalidParameter else Inr None)"

datatype evt_row2_kind = Plain | ConfigWrite | Reserved

definition evt_row2_kind_of :: "u8 \<Rightarrow> evt_row2_kind" where
  "evt_row2_kind_of sub_opcode =
    (if sub_opcode = 0 then Plain else if sub_opcode = 7 then ConfigWrite else Reserved)"

lemma evt_group_from_u8_Inr: "evt_group_from_u8 raw = Inr g \<longleftrightarrow> raw = evt_group_to_u8 g"
  by (cases g) (auto simp: evt_group_from_u8_def)

text \<open>No sub-opcode of a decoded header is classified into a group, and none is refused.\<close>

lemma classify_decoded:
  "decode_byte_message_info b = Inr info \<Longrightarrow>
     classify_evt_sub_opcode (evt_sub_opcode (bmi_evt info)) = Inr None"
  using decode_in_range [of b info]
  by (simp add: classify_evt_sub_opcode_def info_in_range_def rcp_consts not_less)

section \<open>Requests of an endpoint type\<close>

text \<open>
  The endpoint types whose sub-opcode follows the second row of the table read it in one way: 0 is
  a request with the given content, 7 writes the configuration, everything else is refused. What
  is done with the content and with a configuration write differs.
\<close>

locale row2_request =
  fixes classify :: "u8 \<Rightarrow> 'p \<Rightarrow> 'r rcp_result"
    and plain :: "'p \<Rightarrow> 'r rcp_result"
    and config_write :: "'r rcp_result"
  assumes classify_rule: "classify n p =
    (case evt_row2_kind_of n of Plain \<Rightarrow> plain p | ConfigWrite \<Rightarrow> config_write | Reserved \<Rightarrow> Inl UnsupportedCmd)"
begin

lemma classify_cases:
  "classify n p = (if n = 0 then plain p else if n = 7 then config_write else Inl UnsupportedCmd)"
  by (simp add: classify_rule evt_row2_kind_of_def)

lemma classify_unsupported: "n \<noteq> 0 \<Longrightarrow> n \<noteq> 7 \<Longrightarrow> classify n p = Inl UnsupportedCmd"
  by (simp add: classify_cases)

text \<open>A refused sub-opcode can be answered on the wire.\<close>

lemma classify_error:
  assumes "classify n p = Inl e" and "\<And>e. plain p = Inl e \<Longrightarrow> e \<in> E" and "\<And>e. config_write = Inl e \<Longrightarrow> e \<in> E"
  shows "e \<in> insert UnsupportedCmd E"
  using assms by (auto simp: classify_cases split: if_splits)

end

end
