(* ===== verification/Rcp_E2e.thy ===== *)
theory Rcp_E2e
  imports Rcp_Acf_Messages Rcp_Avtp
begin

text \<open>
  End-to-end protection, \<open>src/e2e.rs\<close>: the CRC-32/TC18 engine, the buffer it covers, the
  trailer behind an ACF message, and the rule that only the last fragment of a train has one.
\<close>

section \<open>The CRC engine\<close>

definition CRC32_TC18_POLY_REFLECTED :: u32 where "CRC32_TC18_POLY_REFLECTED = 0xC8DF352F"
definition CRC32_TC18_INIT_XOROUT :: u32 where "CRC32_TC18_INIT_XOROUT = 0xFFFFFFFF"

definition crc32_shift :: "u32 \<Rightarrow> u32" where
  "crc32_shift crc =
    (if crc AND 1 \<noteq> 0 then drop_bit 1 crc XOR CRC32_TC18_POLY_REFLECTED else drop_bit 1 crc)"

text \<open>The inner loop \<open>for _ in 0..8\<close> and one turn of the loop over the data.\<close>

definition crc32_byte :: "u32 \<Rightarrow> u8 \<Rightarrow> u32" where
  "crc32_byte crc byte = (crc32_shift ^^ 8) (crc XOR ucast byte)"

definition crc32_tc18 :: "bytes \<Rightarrow> u32" where
  "crc32_tc18 data = foldl crc32_byte CRC32_TC18_INIT_XOROUT data XOR CRC32_TC18_INIT_XOROUT"

section \<open>The covered octets\<close>

definition CRC32_COVERAGE_LENGTH_PREADJUST_QUADLETS :: u16 where
  [rcp_consts]: "CRC32_COVERAGE_LENGTH_PREADJUST_QUADLETS = 1"

datatype acf_coverage_message = CoverAbb acf_abb_message | CoverGbb acf_gbb_message

fun coverage_header :: "header_variant \<Rightarrow> u64 \<times> bytes" where
  "coverage_header (Ntscf h) = (ntscf_stream_id h, [0, 0, 0, 0])"
| "coverage_header (Tscf h) = (tscf_stream_id h, to_be_bytes (tscf_avtp_timestamp h))"

definition adjusted_coverage_info :: "byte_message_info \<Rightarrow> u8 \<Rightarrow> byte_message_info" where
  "adjusted_coverage_info info ty =
    info\<lparr>acf_msg_type := ty,
         acf_msg_length := saturating_add (acf_msg_length info) CRC32_COVERAGE_LENGTH_PREADJUST_QUADLETS\<rparr>"

definition build_crc32_coverage_buffer ::
  "header_variant \<Rightarrow> acf_coverage_message \<Rightarrow> bytes rcp_result" where
  "build_crc32_coverage_buffer header acf =
    (case coverage_header header of (stream_id, avtp_timestamp_bytes) \<Rightarrow>
       let buf = to_be_bytes stream_id @ avtp_timestamp_bytes in
       case acf of
         CoverAbb msg \<Rightarrow>
           and_then (encode_byte_message_info (adjusted_coverage_info (abb_info msg) ACF_ABB_MSG_TYPE))
             (\<lambda>info_bytes. Inr (buf @ info_bytes @ abb_payload msg))
       | CoverGbb msg \<Rightarrow>
           and_then (encode_byte_message_info (adjusted_coverage_info (gbb_info msg) ACF_GBB_MSG_TYPE))
             (\<lambda>info_bytes. Inr (buf @ info_bytes @ to_be_bytes (gbb_message_timestamp msg) @ gbb_payload msg)))"

section \<open>The trailer\<close>

definition CRC_TRAILER_QUADLETS :: u16 where
  [rcp_consts]: "CRC_TRAILER_QUADLETS = CRC32_COVERAGE_LENGTH_PREADJUST_QUADLETS"
definition CRC_TRAILER_LEN :: nat where [rcp_consts]: "CRC_TRAILER_LEN = QUADLET_LEN"

text \<open>
  The frame is updated in place, and only after the last early return: on an error the
  caller still has the frame it passed.
\<close>

definition finalize_crc_trailer :: "bytes \<Rightarrow> u32 \<Rightarrow> bytes \<times> unit rcp_result" where
  "finalize_crc_trailer frame crc =
    (if length frame < BYTE_MESSAGE_INFO_LEN then (frame, Inl ShortFrame)
     else case decode_byte_message_info (take BYTE_MESSAGE_INFO_LEN frame) of
            Inl e \<Rightarrow> (frame, Inl e)
          | Inr info \<Rightarrow>
              (case Option.bind (checked_add (acf_msg_length info) CRC_TRAILER_QUADLETS)
                      (\<lambda>q. if q \<le> ACF_MSG_LENGTH_9BIT_MAX then Some q else None) of
                 None \<Rightarrow> (frame, Inl InvalidSize)
               | Some q \<Rightarrow>
                   (case encode_byte_message_info (info\<lparr>acf_msg_length := q\<rparr>) of
                      Inl e \<Rightarrow> (frame, Inl e)
                    | Inr new_header \<Rightarrow>
                        (new_header @ drop BYTE_MESSAGE_INFO_LEN frame @ to_be_bytes crc, Inr ()))))"

definition split_crc_trailer :: "bytes \<Rightarrow> (bytes \<times> u32) rcp_result" where
  "split_crc_trailer frame =
    (if length frame < BYTE_MESSAGE_INFO_LEN + CRC_TRAILER_LEN then Inl ShortFrame
     else
       and_then (decode_byte_message_info (take BYTE_MESSAGE_INFO_LEN frame)) (\<lambda>info.
       and_then (ok_or (checked_sub (acf_msg_length info) CRC_TRAILER_QUADLETS) InvalidSize) (\<lambda>q.
       and_then (encode_byte_message_info (info\<lparr>acf_msg_length := q\<rparr>)) (\<lambda>new_header.
       let crc_start = length frame - CRC_TRAILER_LEN;
           crc = from_be_bytes (drop crc_start frame);
           body = take crc_start frame
       in Inr (new_header @ drop BYTE_MESSAGE_INFO_LEN body, crc)))))"

section \<open>Fragment trains\<close>

datatype combined_fragment_payload = CombinedFragmentPayload (combined_bytes: bytes)

definition assemble :: "bytes list \<Rightarrow> combined_fragment_payload" where
  "assemble segments = CombinedFragmentPayload (foldl (@) [] segments)"

definition build_crc32_coverage_buffer_for_fragment_train ::
  "header_variant \<Rightarrow> acf_coverage_message \<Rightarrow> bytes list \<Rightarrow> bytes rcp_result" where
  "build_crc32_coverage_buffer_for_fragment_train header final_fragment segments =
    (let combined = assemble segments in
     case final_fragment of
       CoverAbb msg \<Rightarrow> build_crc32_coverage_buffer header
         (CoverAbb \<lparr>abb_info = abb_info msg, abb_payload = combined_bytes combined\<rparr>)
     | CoverGbb msg \<Rightarrow> build_crc32_coverage_buffer header
         (CoverGbb \<lparr>gbb_info = gbb_info msg, gbb_message_timestamp = gbb_message_timestamp msg,
                    gbb_payload = combined_bytes combined\<rparr>))"

definition crc32_tc18_for_fragment_train ::
  "header_variant \<Rightarrow> acf_coverage_message \<Rightarrow> bytes list \<Rightarrow> u32 rcp_result" where
  "crc32_tc18_for_fragment_train header final_fragment segments =
    and_then (build_crc32_coverage_buffer_for_fragment_train header final_fragment segments)
      (\<lambda>buf. Inr (crc32_tc18 buf))"

datatype fragment_crc_expectation = NotExpected | Expected

definition fragment_crc_expectation_of :: "bool \<Rightarrow> fragment_crc_expectation" where
  "fragment_crc_expectation_of ms = (if ms then NotExpected else Expected)"

definition check_fragment_crc_placement :: "bool \<Rightarrow> bool \<Rightarrow> unit rcp_result" where
  "check_fragment_crc_placement ms crc_present =
    (case (fragment_crc_expectation_of ms, crc_present) of
       (NotExpected, False) \<Rightarrow> Inr ()
     | (Expected, True) \<Rightarrow> Inr ()
     | _ \<Rightarrow> Inl InvalidParameter)"

section \<open>Burst errors\<close>

text \<open>
  One shift is linear and, since the polynomial has its top bit set, injective. Four octets
  enter the register as one 32-bit word, so any two different blocks of at most four octets
  give different checksums, whatever surrounds them.
\<close>

lemma crc32_shift_bit:
  "crc32_shift w = drop_bit 1 w XOR (if bit w 0 then CRC32_TC18_POLY_REFLECTED else 0)"
  by (simp add: crc32_shift_def bit_0 and_one_eq odd_iff_mod_2_eq_one)

lemma crc32_shift_xor: "crc32_shift (a XOR b) = crc32_shift a XOR crc32_shift b"
  unfolding crc32_shift_bit by (rule bit_word_eqI) (auto simp: bit_simps)

lemma crc32_shift_pow_xor: "(crc32_shift ^^ n) (a XOR b) = (crc32_shift ^^ n) a XOR (crc32_shift ^^ n) b"
  by (induction n) (simp_all add: crc32_shift_xor)

lemma poly_top_bit: "bit CRC32_TC18_POLY_REFLECTED 31"
  unfolding CRC32_TC18_POLY_REFLECTED_def by simp

lemma crc32_shift_eq_0: "crc32_shift w = 0 \<longleftrightarrow> w = 0"
proof
  assume z: "crc32_shift w = 0"
  have "bit (crc32_shift w) 31 \<longleftrightarrow> bit w 0"
    using poly_top_bit by (auto simp: crc32_shift_bit bit_simps)
  with z have b0: "\<not> bit w 0" by simp
  with z have d: "drop_bit 1 w = 0" by (simp add: crc32_shift_bit)
  show "w = 0"
  proof (rule bit_word_eqI)
    fix n assume "n < LENGTH(32)"
    show "bit w n \<longleftrightarrow> bit (0 :: u32) n"
    proof (cases n)
      case (Suc m)
      have "bit w (Suc m) \<longleftrightarrow> bit (drop_bit 1 w) m" by (simp add: bit_simps)
      then show ?thesis unfolding Suc d by simp
    qed (simp add: b0)
  qed
qed (simp add: crc32_shift_bit)

lemma crc32_shift_pow_eq_0: "(crc32_shift ^^ n) w = 0 \<longleftrightarrow> w = 0"
  by (induction n) (simp_all add: crc32_shift_eq_0)

lemma xor_eq_0_iff: "(a :: 'a::len word) XOR b = 0 \<longleftrightarrow> a = b"
  by (metis xor_self_eq word_bw_assocs(3) xor.left_neutral xor.right_neutral)

lemma xor_cancel_right: "(a :: 'a::len word) XOR c = b XOR c \<longleftrightarrow> a = b"
  by (metis xor.assoc xor_self_eq xor.right_neutral)

lemma xor_cancel_left: "(c :: 'a::len word) XOR a = c XOR b \<longleftrightarrow> a = b"
  by (metis xor.assoc xor_self_eq xor.left_neutral)

lemma crc32_shift_pow_inj: "(crc32_shift ^^ n) a = (crc32_shift ^^ n) b \<longleftrightarrow> a = b"
  by (metis crc32_shift_pow_eq_0 crc32_shift_pow_xor xor_eq_0_iff)

lemma crc32_byte_inj_state: "crc32_byte a x = crc32_byte b x \<longleftrightarrow> a = b"
  by (simp add: crc32_byte_def crc32_shift_pow_inj xor_cancel_right)

lemma foldl_crc32_byte_inj: "foldl crc32_byte a xs = foldl crc32_byte b xs \<longleftrightarrow> a = b"
  by (induction xs arbitrary: a b) (simp_all add: crc32_byte_inj_state)

text \<open>A shift of a word with a clear low bit only moves it down.\<close>

lemma crc32_shift_push_bit: "\<not> bit w 31 \<Longrightarrow> crc32_shift (push_bit 1 w) = w"
proof (rule bit_word_eqI)
  fix n
  assume "\<not> bit w 31" and "n < LENGTH(32)"
  then show "bit (crc32_shift (push_bit 1 w)) n \<longleftrightarrow> bit w n"
    by (cases "n = 31") (auto simp: crc32_shift_bit bit_simps)
qed

primrec le_word :: "bytes \<Rightarrow> u32" where
  "le_word [] = 0"
| "le_word (b # bs) = ucast b XOR push_bit 8 (le_word bs)"

lemma bit_le_word: "bit (le_word bs) n \<Longrightarrow> n < 8 * length bs"
proof (induction bs arbitrary: n)
  case (Cons b bs)
  then have "bit b n \<or> (8 \<le> n \<and> bit (le_word bs) (n - 8))" by (auto simp: bit_simps)
  then show ?case
  proof
    assume "bit b n"
    then show ?thesis using bit_imp_le_length [of b n] by simp
  next
    assume "8 \<le> n \<and> bit (le_word bs) (n - 8)"
    then show ?thesis using Cons.IH [of "n - 8"] by simp
  qed
qed simp

lemma crc32_shift_pow_push_bit:
  "(\<And>m. 32 - n \<le> m \<Longrightarrow> \<not> bit w m) \<Longrightarrow> n \<le> 32 \<Longrightarrow> (crc32_shift ^^ n) (push_bit n w) = w"
proof (induction n arbitrary: w)
  case (Suc n)
  have "\<not> bit (push_bit n w) 31"
    using Suc.prems by (auto simp: bit_simps)
  then have "crc32_shift (push_bit (Suc n) w) = push_bit n w"
    using crc32_shift_push_bit [of "push_bit n w"] by (simp add: push_bit_push_bit)
  moreover have "(crc32_shift ^^ n) (push_bit n w) = w"
    using Suc.prems by (intro Suc.IH) auto
  ultimately show ?case by (simp only: funpow_Suc_right o_apply)
qed simp

lemma foldl_crc32_byte_block:
  "length bs \<le> 4 \<Longrightarrow> foldl crc32_byte c bs = (crc32_shift ^^ (8 * length bs)) (c XOR le_word bs)"
proof (induction bs arbitrary: c)
  case (Cons b bs)
  have top: "\<not> bit (le_word bs) m" if "32 - 8 \<le> m" for m
  proof
    assume "bit (le_word bs) m"
    then show False using bit_le_word [of bs m] that Cons.prems by simp
  qed
  have undo: "(crc32_shift ^^ 8) (push_bit 8 (le_word bs)) = le_word bs"
    by (rule crc32_shift_pow_push_bit) (use top in auto)
  have "foldl crc32_byte c (b # bs)
      = (crc32_shift ^^ (8 * length bs)) ((crc32_shift ^^ 8) (c XOR ucast b) XOR le_word bs)"
    using Cons.IH [of "crc32_byte c b"] Cons.prems by (simp add: crc32_byte_def [of c b] xor.assoc)
  also have "\<dots> = (crc32_shift ^^ (8 * length bs)) ((crc32_shift ^^ 8) (c XOR ucast b XOR push_bit 8 (le_word bs)))"
    by (simp only: crc32_shift_pow_xor undo xor.assoc)
  also have "\<dots> = (crc32_shift ^^ (8 * length bs + 8)) (c XOR le_word (b # bs))"
    by (simp only: funpow_add o_apply le_word.simps xor.assoc)
  also have "8 * length bs + 8 = 8 * length (b # bs)" by simp
  finally show ?case .
qed simp

lemma le_word_inj:
  "length xs = length ys \<Longrightarrow> length xs \<le> 4 \<Longrightarrow> le_word xs = le_word ys \<Longrightarrow> xs = ys"
proof (induction xs ys rule: list_induct2)
  case (Cons x xs y ys)
  have bits: "bit (le_word (x # xs)) n = bit (le_word (y # ys)) n" for n
    using Cons.prems by simp
  have "x = y"
  proof (rule bit_word_eqI)
    fix n assume "n < LENGTH(8)"
    then show "bit x n \<longleftrightarrow> bit y n" using bits [of n] by (simp add: bit_simps)
  qed
  moreover have "le_word xs = le_word ys"
  proof (rule bit_word_eqI)
    fix n assume n: "n < LENGTH(32)"
    show "bit (le_word xs) n \<longleftrightarrow> bit (le_word ys) n"
    proof (cases "n < 24")
      case True
      then show ?thesis using bits [of "n + 8"] by (simp add: bit_simps)
    next
      case False
      have none: "\<not> bit (le_word zs) n" if "length zs \<le> 3" for zs
        using bit_le_word [of zs n] that False by auto
      have "\<not> bit (le_word xs) n" "\<not> bit (le_word ys) n"
        by (rule none, use Cons.hyps Cons.prems(1) in simp)+
      then show ?thesis by simp
    qed
  qed
  ultimately show ?case using Cons by simp
qed simp

text \<open>Any two different blocks of at most four octets in the same place are told apart.\<close>

lemma crc32_tc18_burst:
  assumes "length us = length vs" and "length us \<le> 4"
  shows "crc32_tc18 (pre @ us @ post) = crc32_tc18 (pre @ vs @ post) \<longleftrightarrow> us = vs"
proof
  assume "crc32_tc18 (pre @ us @ post) = crc32_tc18 (pre @ vs @ post)"
  then have "foldl crc32_byte (foldl crc32_byte CRC32_TC18_INIT_XOROUT pre) us
      = foldl crc32_byte (foldl crc32_byte CRC32_TC18_INIT_XOROUT pre) vs"
    by (simp add: crc32_tc18_def xor_cancel_right foldl_crc32_byte_inj)
  then have "le_word us = le_word vs"
    using assms by (simp add: foldl_crc32_byte_block crc32_shift_pow_inj xor_cancel_left)
  with assms show "us = vs" by (rule le_word_inj)
qed simp

section \<open>The coverage buffer identifies what it covers\<close>

lemma encode_byte_message_info_inj:
  "encode_byte_message_info a = Inr bs \<Longrightarrow> encode_byte_message_info b = Inr bs \<Longrightarrow> a = b"
  by (metis append.right_neutral decode_encode_byte_message_info sum.inject(2))

lemma length_coverage_header: "coverage_header h = (sid, ts) \<Longrightarrow> length ts = 4"
  by (cases h) auto

lemma saturating_add_1_u16:
  "saturating_add (l :: u16) 1 \<le> 0x1FF \<Longrightarrow> saturating_add l 1 = l + 1"
  by (cases "uint l + 1 < 65536")
    (simp_all add: saturating_add_def word_le_nat_alt unsigned_minus_1_eq_mask mask_eq_exp_minus_1)

lemma coverage_buffer_abb:
  "build_crc32_coverage_buffer h (CoverAbb msg) = Inr buf \<longleftrightarrow>
    (\<exists>info_bytes. encode_byte_message_info (adjusted_coverage_info (abb_info msg) ACF_ABB_MSG_TYPE) = Inr info_bytes
       \<and> buf = to_be_bytes (fst (coverage_header h)) @ snd (coverage_header h) @ info_bytes @ abb_payload msg)"
  by (auto simp: build_crc32_coverage_buffer_def and_then_eq_Inr split: prod.splits)

lemma coverage_buffer_abb_inj:
  assumes a: "build_crc32_coverage_buffer h (CoverAbb m) = Inr buf"
    and b: "build_crc32_coverage_buffer h' (CoverAbb m') = Inr buf"
  shows "coverage_header h = coverage_header h'"
    and "abb_payload m = abb_payload m'"
    and "(abb_info m)\<lparr>acf_msg_type := 0\<rparr> = (abb_info m')\<lparr>acf_msg_type := 0\<rparr>"
proof -
  from a obtain i where i: "encode_byte_message_info (adjusted_coverage_info (abb_info m) ACF_ABB_MSG_TYPE) = Inr i"
    and ba: "buf = to_be_bytes (fst (coverage_header h)) @ snd (coverage_header h) @ i @ abb_payload m"
    by (auto simp: coverage_buffer_abb)
  from b obtain j where j: "encode_byte_message_info (adjusted_coverage_info (abb_info m') ACF_ABB_MSG_TYPE) = Inr j"
    and bb: "buf = to_be_bytes (fst (coverage_header h')) @ snd (coverage_header h') @ j @ abb_payload m'"
    by (auto simp: coverage_buffer_abb)
  have l: "length i = length j"
    using length_encode_byte_message_info [OF i] length_encode_byte_message_info [OF j] by simp
  have ts: "length (snd (coverage_header x)) = 4" for x
    using length_coverage_header [of x] by (cases "coverage_header x") simp
  from ba bb l ts have eq: "to_be_bytes (fst (coverage_header h)) = to_be_bytes (fst (coverage_header h'))"
    "snd (coverage_header h) = snd (coverage_header h')" "i = j" "abb_payload m = abb_payload m'"
    by (auto simp: append_eq_append_conv)
  then have "fst (coverage_header h) = fst (coverage_header h')"
    by (metis from_to_be_bytes(4))
  with eq show "coverage_header h = coverage_header h'" "abb_payload m = abb_payload m'"
    by (simp_all add: prod_eq_iff)
  have adj: "adjusted_coverage_info (abb_info m) ACF_ABB_MSG_TYPE = adjusted_coverage_info (abb_info m') ACF_ABB_MSG_TYPE"
    using encode_byte_message_info_inj i j eq(3) by blast
  have rng: "info_in_range (adjusted_coverage_info (abb_info m) ACF_ABB_MSG_TYPE)"
    "info_in_range (adjusted_coverage_info (abb_info m') ACF_ABB_MSG_TYPE)"
    using i j encode_byte_message_info_Inr_iff by blast+
  then have sat: "saturating_add (acf_msg_length (abb_info m)) 1 = acf_msg_length (abb_info m) + 1"
    "saturating_add (acf_msg_length (abb_info m')) 1 = acf_msg_length (abb_info m') + 1"
    by (auto simp: info_in_range_def adjusted_coverage_info_def rcp_consts intro!: saturating_add_1_u16)
  have "acf_msg_length (adjusted_coverage_info (abb_info m) ACF_ABB_MSG_TYPE)
      = acf_msg_length (adjusted_coverage_info (abb_info m') ACF_ABB_MSG_TYPE)"
    by (simp only: adj)
  then have "acf_msg_length (abb_info m) + 1 = acf_msg_length (abb_info m') + 1"
    by (simp add: adjusted_coverage_info_def rcp_consts sat)
  then have "acf_msg_length (abb_info m) = acf_msg_length (abb_info m')" by simp
  moreover have restore: "info\<lparr>acf_msg_type := 0\<rparr>
      = (adjusted_coverage_info info ty)\<lparr>acf_msg_type := 0, acf_msg_length := acf_msg_length info\<rparr>" for info ty
    by (simp add: adjusted_coverage_info_def)
  ultimately show "(abb_info m)\<lparr>acf_msg_type := 0\<rparr> = (abb_info m')\<lparr>acf_msg_type := 0\<rparr>"
    using adj by (metis restore)
qed

section \<open>The trailer survives the wire\<close>

lemma checked_add_1_u16:
  "(l :: u16) < 0x1FF \<Longrightarrow> checked_add l 1 = Some (l + 1) \<and> l + 1 \<le> 0x1FF \<and> checked_sub (l + 1) 1 = Some l"
proof -
  assume "l < 0x1FF"
  then have l: "uint l < 511" by (simp add: word_less_def)
  then have "uint (l + 1) = uint l + 1" by (simp add: uint_word_ariths)
  with l show ?thesis by (simp add: checked_add_def checked_sub_def word_le_def)
qed

lemma finalize_crc_trailer_encoded:
  assumes enc: "encode_byte_message_info info = Inr hdr" and room: "acf_msg_length info < ACF_MSG_LENGTH_9BIT_MAX"
  obtains hdr' where "encode_byte_message_info (info\<lparr>acf_msg_length := acf_msg_length info + 1\<rparr>) = Inr hdr'"
    and "finalize_crc_trailer (hdr @ body) crc = (hdr' @ body @ to_be_bytes crc, Inr ())"
proof -
  have lh: "length hdr = 8" using length_encode_byte_message_info [OF enc] by (simp add: rcp_consts)
  have "l < 0x1FF \<Longrightarrow> l + 1 \<le> (0x1FF :: u16)" for l using checked_add_1_u16 [of l] by simp
  then have "info_in_range (info\<lparr>acf_msg_length := acf_msg_length info + 1\<rparr>)"
    using room enc encode_byte_message_info_Inr_iff [of info] by (auto simp: info_in_range_def rcp_consts)
  then obtain hdr' where hdr': "encode_byte_message_info (info\<lparr>acf_msg_length := acf_msg_length info + 1\<rparr>) = Inr hdr'"
    using encode_byte_message_info_Inr_iff by blast
  have "decode_byte_message_info (take 8 (hdr @ body)) = Inr info"
    using decode_encode_byte_message_info [OF enc, of "[]"] by (simp add: lh)
  then have "finalize_crc_trailer (hdr @ body) crc = (hdr' @ body @ to_be_bytes crc, Inr ())"
    using checked_add_1_u16 [of "acf_msg_length info"] room hdr'
    by (simp add: finalize_crc_trailer_def rcp_consts lh)
  with hdr' show thesis by (rule that)
qed

lemma split_finalize_crc_trailer:
  assumes enc: "encode_byte_message_info info = Inr hdr" and room: "acf_msg_length info < ACF_MSG_LENGTH_9BIT_MAX"
  shows "\<exists>frame. finalize_crc_trailer (hdr @ body) crc = (frame, Inr ()) \<and> length frame = length (hdr @ body) + 4
           \<and> split_crc_trailer frame = Inr (hdr @ body, crc)"
proof -
  obtain hdr' where hdr': "encode_byte_message_info (info\<lparr>acf_msg_length := acf_msg_length info + 1\<rparr>) = Inr hdr'"
    and fin: "finalize_crc_trailer (hdr @ body) crc = (hdr' @ body @ to_be_bytes crc, Inr ())"
    using finalize_crc_trailer_encoded [OF assms] by metis
  have lh: "length hdr = 8" "length hdr' = 8"
    using length_encode_byte_message_info [OF enc] length_encode_byte_message_info [OF hdr']
    by (simp_all add: rcp_consts)
  have dec: "decode_byte_message_info (take 8 (hdr' @ body @ to_be_bytes crc))
      = Inr (info\<lparr>acf_msg_length := acf_msg_length info + 1\<rparr>)"
    using decode_encode_byte_message_info [OF hdr', of "[]"] by (simp add: lh)
  have "split_crc_trailer (hdr' @ body @ to_be_bytes crc) = Inr (hdr @ body, crc)"
    using checked_add_1_u16 [of "acf_msg_length info"] room enc dec
    by (simp add: split_crc_trailer_def rcp_consts lh)
  then show ?thesis using fin lh by simp
qed

lemma finalize_crc_trailer_full:
  "encode_byte_message_info info = Inr hdr \<Longrightarrow> acf_msg_length info = ACF_MSG_LENGTH_9BIT_MAX \<Longrightarrow>
     finalize_crc_trailer (hdr @ body) crc = (hdr @ body, Inl InvalidSize)"
  using decode_encode_byte_message_info [of info hdr "[]"] length_encode_byte_message_info [of info hdr]
  by (simp add: finalize_crc_trailer_def rcp_consts checked_add_def)

lemma finalize_crc_trailer_error: "finalize_crc_trailer frame crc = (frame', Inl e) \<Longrightarrow> frame' = frame"
  by (auto simp: finalize_crc_trailer_def split: if_splits sum.splits option.splits)

section \<open>Trains\<close>

lemma assemble_concat: "combined_bytes (assemble segments) = concat segments"
proof -
  have "foldl (@) acc segments = acc @ concat segments" for acc
    by (induction segments arbitrary: acc) simp_all
  then show ?thesis by (simp add: assemble_def)
qed

lemma train_coverage_abb:
  "build_crc32_coverage_buffer_for_fragment_train h (CoverAbb msg) segments
     = build_crc32_coverage_buffer h (CoverAbb (msg\<lparr>abb_payload := concat segments\<rparr>))"
  by (simp add: build_crc32_coverage_buffer_for_fragment_train_def assemble_concat
      build_crc32_coverage_buffer_def)

lemma check_fragment_crc_placement_Inr_iff:
  "check_fragment_crc_placement ms crc_present = Inr () \<longleftrightarrow> crc_present = (\<not> ms)"
  by (cases ms; cases crc_present) (simp_all add: check_fragment_crc_placement_def fragment_crc_expectation_of_def)

section \<open>Further facts\<close>

text \<open>The CRC trailer comes off as it went on. Appending the trailer to a message whose length field has room adds four octets, and splitting the result returns the message and the checksum.\<close>

theorem crc_trailer_round_trip:
  assumes "encode_byte_message_info info = Inr hdr" and "acf_msg_length info < ACF_MSG_LENGTH_9BIT_MAX"
  shows "\<exists>frame. finalize_crc_trailer (hdr @ body) crc = (frame, Inr ()) \<and> length frame = length (hdr @ body) + 4
           \<and> split_crc_trailer frame = Inr (hdr @ body, crc)"
  using assms by (rule split_finalize_crc_trailer)

section \<open>Properties\<close>

text \<open>C26: the checksum detects every burst. Replacing a block of at most four octets anywhere in the data by a different block of the same length changes CRC-32/TC18.\<close>

theorem crc_detects_bursts:
  assumes "length us = length vs" and "length us \<le> 4"
  shows "crc32_tc18 (pre @ us @ post) = crc32_tc18 (pre @ vs @ post) \<longleftrightarrow> us = vs"
  using assms by (rule crc32_tc18_burst)

lemma crc_detects_bursts_witness:
  "crc32_tc18 ([1, 2] @ [3, 4, 5, 6] @ [7]) \<noteq> crc32_tc18 ([1, 2] @ [3, 4, 5, 7] @ [7])"
  using crc_detects_bursts [of "[3, 4, 5, 6]" "[3, 4, 5, 7]" "[1, 2]" "[7]"] by simp

text \<open>C27: the covered octets identify the request. Two ACF_ABB messages with the same coverage buffer agree in stream id, presentation timestamp and payload and in every header field but the message type, which the coverage fixes.\<close>

theorem crc_coverage_identifies:
  assumes "build_crc32_coverage_buffer h (CoverAbb m) = Inr buf"
    and "build_crc32_coverage_buffer h' (CoverAbb m') = Inr buf"
  shows "coverage_header h = coverage_header h' \<and> abb_payload m = abb_payload m'
    \<and> (abb_info m)\<lparr>acf_msg_type := 0\<rparr> = (abb_info m')\<lparr>acf_msg_type := 0\<rparr>"
  using coverage_buffer_abb_inj [OF assms] by simp

lemma crc_coverage_identifies_witness:
  "\<exists>buf. build_crc32_coverage_buffer
        (Ntscf \<lparr>ntscf_sequence_num = 1, ntscf_data_length = 0, ntscf_stream_id = 5\<rparr>)
        (CoverAbb \<lparr>abb_info = byte_message_info_default, abb_payload = [1]\<rparr>) = Inr buf
    \<and> build_crc32_coverage_buffer
        (Ntscf \<lparr>ntscf_sequence_num = 2, ntscf_data_length = 0, ntscf_stream_id = 5\<rparr>)
        (CoverAbb \<lparr>abb_info = byte_message_info_default\<lparr>acf_msg_type := 3\<rparr>, abb_payload = [1]\<rparr>) = Inr buf
    \<and> coverage_header (Ntscf \<lparr>ntscf_sequence_num = 1, ntscf_data_length = 0, ntscf_stream_id = 5\<rparr>)
        = coverage_header (Ntscf \<lparr>ntscf_sequence_num = 2, ntscf_data_length = 0, ntscf_stream_id = 5\<rparr>)"
proof -
  let ?b = "to_be_bytes (5 :: u64) @ [0, 0, 0, 0] @ [0x1C, 1, 0, 0, 0, 0, 0, 0] @ [1]"
  have a: "build_crc32_coverage_buffer
        (Ntscf \<lparr>ntscf_sequence_num = 1, ntscf_data_length = 0, ntscf_stream_id = 5\<rparr>)
        (CoverAbb \<lparr>abb_info = byte_message_info_default, abb_payload = [1]\<rparr>) = Inr ?b"
    and b: "build_crc32_coverage_buffer
        (Ntscf \<lparr>ntscf_sequence_num = 2, ntscf_data_length = 0, ntscf_stream_id = 5\<rparr>)
        (CoverAbb \<lparr>abb_info = byte_message_info_default\<lparr>acf_msg_type := 3\<rparr>, abb_payload = [1]\<rparr>) = Inr ?b"
    by (simp_all add: build_crc32_coverage_buffer_def adjusted_coverage_info_def saturating_add_def
      CRC32_COVERAGE_LENGTH_PREADJUST_QUADLETS_def acf_eval)
  from crc_coverage_identifies [OF a b] a b show ?thesis by blast
qed


end
