(* ===== verification/Rcp_Fragment.thy ===== *)
theory Rcp_Fragment
  imports Rcp_E2e
begin

text \<open>
  Reassembly of fragment trains, \<open>src/fragment.rs\<close>: the buffer that accepts the fragments of
  one request in wire order, its three refusals, and the check of the train's CRC.
\<close>

section \<open>The buffer\<close>

datatype fragment_accept_outcome = Continuing | Complete

record fragment_buffer =
  max_request_size :: u16
  segments :: "bytes list"
  total_len :: nat
  next_expected_segment_num :: u16

definition fragment_buffer_new :: "u16 \<Rightarrow> fragment_buffer" where
  "fragment_buffer_new rx_stream_max_request_size =
    \<lparr>max_request_size = rx_stream_max_request_size, segments = [], total_len = 0,
     next_expected_segment_num = 0\<rparr>"

definition fragmentation_supported :: "fragment_buffer \<Rightarrow> bool" where
  "fragmentation_supported buf \<longleftrightarrow> max_request_size buf \<noteq> 0"

definition is_in_progress :: "fragment_buffer \<Rightarrow> bool" where
  "is_in_progress buf \<longleftrightarrow> segments buf \<noteq> []"

definition accept_fragment ::
  "fragment_buffer \<Rightarrow> byte_message_info \<Rightarrow> bytes
    \<Rightarrow> fragment_buffer \<times> fragment_accept_outcome rcp_result" where
  "accept_fragment buf info payload =
    (if \<not> fragmentation_supported buf then (buf, Inl UnsupportedCmd)
     else if as_segment_num (read_size_segment info) \<noteq> next_expected_segment_num buf
     then (buf, Inl InvalidParameter)
     else let prospective_total = total_len buf + length payload in
       if prospective_total > unat (max_request_size buf) then (buf, Inl PayloadTooLarge)
       else (buf\<lparr>segments := segments buf @ [payload], total_len := prospective_total,
                 next_expected_segment_num := next_expected_segment_num buf + 1\<rparr>,
             if bmi_ms info then Inr Continuing else Inr Complete))"

definition combined_payload :: "fragment_buffer \<Rightarrow> combined_fragment_payload" where
  "combined_payload buf = assemble (segments buf)"

definition reset_buffer :: "fragment_buffer \<Rightarrow> fragment_buffer" where
  "reset_buffer buf = buf\<lparr>segments := [], total_len := 0, next_expected_segment_num := 0\<rparr>"

definition verify_reassembled_train_crc ::
  "fragment_buffer \<Rightarrow> header_variant \<Rightarrow> acf_coverage_message \<Rightarrow> bool \<Rightarrow> u32 rcp_result" where
  "verify_reassembled_train_crc buf header final_fragment crc_present =
    and_then (check_fragment_crc_placement False crc_present)
      (\<lambda>_. crc32_tc18_for_fragment_train header final_fragment (segments buf))"

section \<open>Every reachable buffer\<close>

text \<open>
  The steps a caller can make, with any fragment that comes in from the wire. The counter and the
  running length are what they stand for, and the bound holds, in every reachable state.
\<close>

inductive buffer_step :: "fragment_buffer \<Rightarrow> fragment_buffer \<Rightarrow> bool" where
  Accept: "buffer_step buf (fst (accept_fragment buf info payload))"
| Reset: "buffer_step buf (reset_buffer buf)"

inductive_cases buffer_stepE: "buffer_step buf buf'"

definition buffer_ok :: "u16 \<Rightarrow> fragment_buffer \<Rightarrow> bool" where
  "buffer_ok limit buf \<longleftrightarrow>
     max_request_size buf = limit \<and> total_len buf = length (concat (segments buf)) \<and>
     total_len buf \<le> unat limit \<and> next_expected_segment_num buf = of_nat (length (segments buf)) \<and>
     (limit = 0 \<longrightarrow> segments buf = [])"

lemma buffer_ok_new: "buffer_ok limit (fragment_buffer_new limit)"
  by (simp add: buffer_ok_def fragment_buffer_new_def)

lemma buffer_ok_step: "buffer_step buf buf' \<Longrightarrow> buffer_ok limit buf \<Longrightarrow> buffer_ok limit buf'"
  by (elim buffer_stepE)
    (auto simp: buffer_ok_def accept_fragment_def reset_buffer_def fragmentation_supported_def Let_def add.commute)

lemma buffer_ok_reachable: "buffer_step\<^sup>*\<^sup>* (fragment_buffer_new limit) buf \<Longrightarrow> buffer_ok limit buf"
  by (induction rule: rtranclp_induct) (auto intro: buffer_ok_new buffer_ok_step)

text \<open>A refusal leaves the buffer as it was.\<close>

lemma accept_fragment_refused:
  "accept_fragment buf info payload = (buf', Inl e) \<Longrightarrow>
     buf' = buf \<and> e \<in> {UnsupportedCmd, InvalidParameter, PayloadTooLarge}"
  by (auto simp: accept_fragment_def Let_def split: if_splits)

lemma accept_fragment_Inr:
  "accept_fragment buf info payload = (buf', Inr outcome) \<longleftrightarrow>
     fragmentation_supported buf \<and> as_segment_num (read_size_segment info) = next_expected_segment_num buf \<and>
     total_len buf + length payload \<le> unat (max_request_size buf) \<and>
     buf' = buf\<lparr>segments := segments buf @ [payload], total_len := total_len buf + length payload,
                next_expected_segment_num := next_expected_segment_num buf + 1\<rparr> \<and>
     outcome = (if bmi_ms info then Continuing else Complete)"
  by (auto simp: accept_fragment_def Let_def)

section \<open>A whole train\<close>

text \<open>
  \<open>accept_all\<close> feeds fragments until one is refused; it returns the buffer and the outcome of
  each accepted fragment.
\<close>

fun accept_all ::
  "fragment_buffer \<Rightarrow> (byte_message_info \<times> bytes) list \<Rightarrow> fragment_buffer \<times> fragment_accept_outcome list rcp_result" where
  "accept_all buf [] = (buf, Inr [])"
| "accept_all buf ((info, payload) # frags) =
    (case accept_fragment buf info payload of
       (buf', Inl e) \<Rightarrow> (buf', Inl e)
     | (buf', Inr outcome) \<Rightarrow>
         (case accept_all buf' frags of
            (buf'', Inl e) \<Rightarrow> (buf'', Inl e)
          | (buf'', Inr outcomes) \<Rightarrow> (buf'', Inr (outcome # outcomes))))"

text \<open>A sender's train: numbered from the given value, the flag \<open>ms\<close> set on all but the last.\<close>

fun train_from :: "u16 \<Rightarrow> byte_message_info \<Rightarrow> bytes list \<Rightarrow> (byte_message_info \<times> bytes) list" where
  "train_from n info [] = []"
| "train_from n info (p # ps) =
    (info\<lparr>bmi_ms := (ps \<noteq> []), read_size_segment := ReadSizeOrSegment n\<rparr>, p) # train_from (n + 1) info ps"

definition train :: "byte_message_info \<Rightarrow> bytes list \<Rightarrow> (byte_message_info \<times> bytes) list" where
  "train info payloads = train_from 0 info payloads"

lemma accept_train_from:
  assumes "next_expected_segment_num buf = n" and "max_request_size buf \<noteq> 0"
    and "total_len buf + length (concat ps) \<le> unat (max_request_size buf)" and "ps \<noteq> []"
  shows "accept_all buf (train_from n info ps) =
    (buf\<lparr>segments := segments buf @ ps, total_len := total_len buf + length (concat ps),
         next_expected_segment_num := n + of_nat (length ps)\<rparr>,
     Inr (replicate (length ps - 1) Continuing @ [Complete]))"
  using assms
proof (induction ps arbitrary: buf n)
  case (Cons p ps)
  define buf' where "buf' = buf\<lparr>segments := segments buf @ [p], total_len := total_len buf + length p,
      next_expected_segment_num := n + 1\<rparr>"
  have acc: "accept_fragment buf (info\<lparr>bmi_ms := (ps \<noteq> []), read_size_segment := ReadSizeOrSegment n\<rparr>) p
      = (buf', Inr (if ps \<noteq> [] then Continuing else Complete))"
    using Cons.prems
    by (simp add: accept_fragment_def fragmentation_supported_def as_segment_num_def Let_def buf'_def)
  show ?case
  proof (cases "ps = []")
    case True
    then show ?thesis using acc by (simp add: buf'_def)
  next
    case False
    have "accept_all buf' (train_from (n + 1) info ps) =
      (buf'\<lparr>segments := segments buf' @ ps, total_len := total_len buf' + length (concat ps),
           next_expected_segment_num := n + 1 + of_nat (length ps)\<rparr>,
       Inr (replicate (length ps - 1) Continuing @ [Complete]))"
      by (rule Cons.IH) (use Cons.prems False in \<open>auto simp: buf'_def\<close>)
    moreover have "length ps = Suc (length ps - 1)" using False by (cases ps) auto
    then have "replicate (length ps) x = x # replicate (length ps - 1) x" for x :: fragment_accept_outcome
      by (metis replicate_Suc)
    ultimately show ?thesis using acc False by (simp add: buf'_def add.assoc)
  qed
qed simp

lemma accept_train:
  assumes "limit \<noteq> 0" and "payloads \<noteq> []" and "length (concat payloads) \<le> unat limit"
  shows "\<exists>buf. accept_all (fragment_buffer_new limit) (train info payloads)
           = (buf, Inr (replicate (length payloads - 1) Continuing @ [Complete]))
         \<and> combined_payload buf = CombinedFragmentPayload (concat payloads) \<and> segments buf = payloads"
proof -
  have "combined_payload buf = CombinedFragmentPayload (concat (segments buf))" for buf
    by (metis assemble_concat combined_fragment_payload.collapse combined_payload_def)
  then show ?thesis
    using accept_train_from [of "fragment_buffer_new limit" 0 payloads info] assms
    by (simp add: train_def fragment_buffer_new_def)
qed

text \<open>
  The 12-bit field of a decoded header holds no number above 4095: once the counter has passed it,
  no fragment from the wire is accepted until the buffer is reset.
\<close>

lemma decoded_segment_num: "decode_byte_message_info b = Inr info \<Longrightarrow> as_segment_num (read_size_segment info) \<le> 4095"
  using decode_in_range [of b info]
  by (cases "read_size_segment info") (simp add: info_in_range_def as_segment_num_def rcp_consts)

section \<open>Properties\<close>

text \<open>C28: a train is put together again. Any train of fragments, numbered from zero with only the last one unmarked, whose payloads together fit the limit of the stream is accepted by a fresh buffer, fragment by fragment, is complete with the last one, and yields the payloads in order.\<close>

theorem train_reassembled:
  assumes "limit \<noteq> 0" and "payloads \<noteq> []" and "length (concat payloads) \<le> unat limit"
  shows "\<exists>buf. accept_all (fragment_buffer_new limit) (train info payloads)
           = (buf, Inr (replicate (length payloads - 1) Continuing @ [Complete]))
         \<and> combined_payload buf = CombinedFragmentPayload (concat payloads) \<and> segments buf = payloads"
  using assms by (rule accept_train)

lemma train_reassembled_witness:
  "\<exists>buf. accept_all (fragment_buffer_new 10) (train byte_message_info_default [[1, 2], [], [3]])
           = (buf, Inr (replicate (length [[1, 2], [], [3 :: u8]] - 1) Continuing @ [Complete]))
         \<and> combined_payload buf = CombinedFragmentPayload (concat [[1, 2], [], [3]])
         \<and> segments buf = [[1, 2], [], [3]]"
  by (rule train_reassembled) simp_all

text \<open>C29: the buffer never holds more than its limit. In every state reachable by accepting any fragments and resetting, the running length is the length of what is stored and within the limit, the counter is the number of stored fragments, and a stream without fragmentation stores nothing.\<close>

theorem reassembly_bounded:
  assumes "buffer_step\<^sup>*\<^sup>* (fragment_buffer_new limit) buf"
  shows "total_len buf = length (concat (segments buf)) \<and> total_len buf \<le> unat limit
    \<and> next_expected_segment_num buf = of_nat (length (segments buf)) \<and> (limit = 0 \<longrightarrow> segments buf = [])"
  using buffer_ok_reachable [OF assms] by (simp add: buffer_ok_def)

lemma reassembly_bounded_witness:
  "total_len (fst (accept_fragment (fragment_buffer_new 4) byte_message_info_default [1, 2])) = 2
    \<and> total_len (fst (accept_fragment (fragment_buffer_new 4) byte_message_info_default [1, 2])) \<le> unat (4 :: u16)"
proof -
  have "buffer_step\<^sup>*\<^sup>* (fragment_buffer_new 4) (fst (accept_fragment (fragment_buffer_new 4) byte_message_info_default [1, 2]))"
    by (rule r_into_rtranclp) (rule Accept)
  from reassembly_bounded [OF this] show ?thesis
    by (simp add: accept_fragment_def fragment_buffer_new_def fragmentation_supported_def as_segment_num_def
        byte_message_info_default_def Let_def)
qed


end
