(* ===== verification/Rcp_Request.thy ===== *)
theory Rcp_Request
  imports Rcp_Interfaces Rcp_Timestamp Rcp_Regmap Rcp_E2e "HOL-Library.Product_Lexorder"
begin

text \<open>
  Requests, \<open>src/request.rs\<close>: the request kinds and their octet in a timed message, the
  sequencer bank and its gates, triggers, chains, timed execution and cancellation, the choice
  of the next pending request, the request lifecycle, and the safety rules (watchdog purge,
  CRC and sequence enforcement, overflow, the safe state).
\<close>

section \<open>Request kinds\<close>

datatype request_kind = Standard | Chained | ClearAll | ClearNonSafestate | ClearSingle | Timed
  | CompoundWait | Triggered | Compound | SafetyCompoundWait | SafetyTriggered | SafetyCompound

fun request_kind_to_u8 :: "request_kind \<Rightarrow> u8" where
  "request_kind_to_u8 Standard = 0x00"
| "request_kind_to_u8 Chained = 0x01"
| "request_kind_to_u8 ClearAll = 0x05"
| "request_kind_to_u8 ClearNonSafestate = 0x06"
| "request_kind_to_u8 ClearSingle = 0x07"
| "request_kind_to_u8 Timed = 0x0A"
| "request_kind_to_u8 CompoundWait = 0x0B"
| "request_kind_to_u8 Triggered = 0x0E"
| "request_kind_to_u8 Compound = 0x0F"
| "request_kind_to_u8 SafetyCompoundWait = 0x8B"
| "request_kind_to_u8 SafetyTriggered = 0x8E"
| "request_kind_to_u8 SafetyCompound = 0x8F"

definition request_kind_from_u8 :: "u8 \<Rightarrow> request_kind rcp_result" where
  "request_kind_from_u8 raw =
    (if raw = 0x00 then Inr Standard else if raw = 0x01 then Inr Chained
     else if raw = 0x05 then Inr ClearAll else if raw = 0x06 then Inr ClearNonSafestate
     else if raw = 0x07 then Inr ClearSingle else if raw = 0x0A then Inr Timed
     else if raw = 0x0B then Inr CompoundWait else if raw = 0x0E then Inr Triggered
     else if raw = 0x0F then Inr Compound else if raw = 0x8B then Inr SafetyCompoundWait
     else if raw = 0x8E then Inr SafetyTriggered else if raw = 0x8F then Inr SafetyCompound
     else Inl InvalidParameter)"

definition is_safety_tagged :: "request_kind \<Rightarrow> bool" where
  "is_safety_tagged kind \<longleftrightarrow> kind = SafetyCompound \<or> kind = SafetyCompoundWait \<or> kind = SafetyTriggered"

definition from_gbb_message_timestamp :: "u64 \<Rightarrow> request_kind option" where
  "from_gbb_message_timestamp message_timestamp =
    (let raw = ucast (drop_bit 56 message_timestamp) in
     if raw = 0x00 then None
     else case request_kind_from_u8 raw of Inl _ \<Rightarrow> None | Inr kind \<Rightarrow> Some kind)"

definition to_gbb_message_timestamp :: "request_kind \<Rightarrow> u64 \<Rightarrow> u64 rcp_result" where
  "to_gbb_message_timestamp kind message_timestamp =
    (if kind = Standard then Inl InvalidParameter
     else Inr ((message_timestamp AND 0x00FFFFFFFFFFFFFF) OR push_bit 56 (ucast (request_kind_to_u8 kind))))"

section \<open>Sequencers and their gates\<close>

datatype sequencer_state = SequencerState (sequencer_raw: u8)

record compound_gate_config =
  sequencer_num :: u8
  start_state :: sequencer_state

definition check_sequencer_num_in_bounds :: "u8 \<Rightarrow> u8 \<Rightarrow> unit rcp_result" where
  "check_sequencer_num_in_bounds num svr_max = (if num < svr_max then Inr () else Inl SequencerNotKnown)"

definition is_gate_satisfied :: "sequencer_state \<Rightarrow> compound_gate_config \<Rightarrow> bool" where
  "is_gate_satisfied current_state gate \<longleftrightarrow> current_state = start_state gate"

definition check_compound_gate ::
  "sequencer_state \<Rightarrow> compound_gate_config \<Rightarrow> u8 \<Rightarrow> unit rcp_result" where
  "check_compound_gate current_state gate svr_max =
    and_then (check_sequencer_num_in_bounds (sequencer_num gate) svr_max) (\<lambda>_.
      if is_gate_satisfied current_state gate then Inr () else Inl RequestRejected)"

record compound_exec_delays =
  cmp_exec_delay :: u32
  cmpw_exec_delay :: u32

fun resolve_compound_exec_delay :: "request_kind \<Rightarrow> compound_exec_delays \<Rightarrow> u32 option" where
  "resolve_compound_exec_delay Compound delays = Some (cmp_exec_delay delays)"
| "resolve_compound_exec_delay SafetyCompound delays = Some (cmp_exec_delay delays)"
| "resolve_compound_exec_delay CompoundWait delays = Some (cmpw_exec_delay delays)"
| "resolve_compound_exec_delay SafetyCompoundWait delays = Some (cmpw_exec_delay delays)"
| "resolve_compound_exec_delay _ delays = None"

definition advance_sequencer_if_still_in_start_state ::
  "sequencer_state \<Rightarrow> compound_gate_config \<Rightarrow> sequencer_state \<Rightarrow> sequencer_state option" where
  "advance_sequencer_if_still_in_start_state observed_state gate next_state =
    (if observed_state = start_state gate then Some next_state else None)"

record sequencer_bank =
  bank_states :: "sequencer_state list"

definition sequencer_bank_new :: "u8 \<Rightarrow> sequencer_bank" where
  "sequencer_bank_new svr_max =
    \<lparr>bank_states = replicate (unat svr_max) (SequencerState (seq_state sequencer_state_power_on_default))\<rparr>"

definition svr_sequencers_max_of :: "sequencer_bank \<Rightarrow> u8" where
  "svr_sequencers_max_of bank = of_nat (length (bank_states bank))"

definition bank_read :: "sequencer_bank \<Rightarrow> u8 \<Rightarrow> sequencer_state rcp_result" where
  "bank_read bank num =
    and_then (check_sequencer_num_in_bounds num (svr_sequencers_max_of bank))
      (\<lambda>_. Inr (bank_states bank ! unat num))"

definition bank_advance_if_still_in_start_state ::
  "sequencer_bank \<Rightarrow> compound_gate_config \<Rightarrow> sequencer_state \<Rightarrow> sequencer_bank \<times> bool rcp_result" where
  "bank_advance_if_still_in_start_state bank gate next_state =
    (case check_sequencer_num_in_bounds (sequencer_num gate) (svr_sequencers_max_of bank) of
       Inl e \<Rightarrow> (bank, Inl e)
     | Inr _ \<Rightarrow>
         let observed_state = bank_states bank ! unat (sequencer_num gate) in
         (case advance_sequencer_if_still_in_start_state observed_state gate next_state of
            Some advanced \<Rightarrow>
              (bank\<lparr>bank_states := (bank_states bank)[unat (sequencer_num gate) := advanced]\<rparr>, Inr True)
          | None \<Rightarrow> (bank, Inr False)))"

definition bank_check_compound_gate :: "sequencer_bank \<Rightarrow> compound_gate_config \<Rightarrow> unit rcp_result" where
  "bank_check_compound_gate bank gate =
    and_then (bank_read bank (sequencer_num gate)) (\<lambda>current_state.
      check_compound_gate current_state gate (svr_sequencers_max_of bank))"

definition bank_force_state :: "sequencer_bank \<Rightarrow> u8 \<Rightarrow> sequencer_state \<Rightarrow> sequencer_bank \<times> unit rcp_result" where
  "bank_force_state bank num new_state =
    (case check_sequencer_num_in_bounds num (svr_sequencers_max_of bank) of
       Inl e \<Rightarrow> (bank, Inl e)
     | Inr _ \<Rightarrow> (bank\<lparr>bank_states := (bank_states bank)[unat num := new_state]\<rparr>, Inr ()))"

section \<open>Triggers, chains, timed execution, cancellation\<close>

datatype trigger_exec_delay = TriggerExecDelay u32

fun resolve_trigger_exec_delay :: "request_kind \<Rightarrow> trigger_exec_delay \<Rightarrow> u32 option" where
  "resolve_trigger_exec_delay Triggered (TriggerExecDelay d) = Some d"
| "resolve_trigger_exec_delay SafetyTriggered (TriggerExecDelay d) = Some d"
| "resolve_trigger_exec_delay _ _ = None"

datatype trigger_repeat_count = Finite u16 | Infinite

definition TRIGGER_REPEAT_COUNT_INFINITE_SENTINEL :: u16 where
  "TRIGGER_REPEAT_COUNT_INFINITE_SENTINEL = 0xFFFF"

definition trigger_repeat_from_u16 :: "u16 \<Rightarrow> trigger_repeat_count" where
  "trigger_repeat_from_u16 raw =
    (if raw = TRIGGER_REPEAT_COUNT_INFINITE_SENTINEL then Infinite else Finite raw)"

fun trigger_repeat_to_u16 :: "trigger_repeat_count \<Rightarrow> u16" where
  "trigger_repeat_to_u16 (Finite n) = n"
| "trigger_repeat_to_u16 Infinite = TRIGGER_REPEAT_COUNT_INFINITE_SENTINEL"

fun is_trigger_repeat_exhausted :: "u16 \<Rightarrow> trigger_repeat_count \<Rightarrow> bool" where
  "is_trigger_repeat_exhausted occurrences_so_far Infinite \<longleftrightarrow> False"
| "is_trigger_repeat_exhausted occurrences_so_far (Finite target) \<longleftrightarrow> occurrences_so_far \<ge> target"

definition should_count_trigger_occurrence :: "bool \<Rightarrow> bool" where
  "should_count_trigger_occurrence endpoint_busy = True"

definition check_chain_continuation :: "bool \<Rightarrow> bool \<Rightarrow> unit rcp_result" where
  "check_chain_continuation cs predecessor_errored =
    (if cs \<and> predecessor_errored then Inl ChainAborted else Inr ())"

datatype timed_execution_time = TimedExecutionTime avtp_timestamp

fun is_timed_request_ready :: "avtp_timestamp \<Rightarrow> timed_execution_time \<Rightarrow> bool" where
  "is_timed_request_ready current (TimedExecutionTime t) \<longleftrightarrow>
     (if avtp_is_untimed t then True else current = t \<or> avtp_is_after current t)"

definition check_clear_all_cancellation :: "unit rcp_result" where
  "check_clear_all_cancellation = Inl RequestCanceled"

definition check_clear_non_safestate_cancellation :: "bool \<Rightarrow> unit rcp_result" where
  "check_clear_non_safestate_cancellation is_safestate_related =
    (if is_safestate_related then Inr () else Inl RequestCanceled)"

datatype clear_transaction_num = ClearTransactionNum u8

fun check_clear_single_cancellation :: "u8 \<Rightarrow> clear_transaction_num \<Rightarrow> unit rcp_result" where
  "check_clear_single_cancellation candidate (ClearTransactionNum target) =
    (if candidate = target then Inl RequestCanceled else Inr ())"

section \<open>The next pending request\<close>

datatype execution_priority_tier = TierCancellation | TierTriggered | TierTimed | TierCompound
  | TierCompoundWait | TierChained | TierStandard

text \<open>The derived order of the enumeration: by declaration.\<close>

fun tier_rank :: "execution_priority_tier \<Rightarrow> nat" where
  "tier_rank TierCancellation = 0"
| "tier_rank TierTriggered = 1"
| "tier_rank TierTimed = 2"
| "tier_rank TierCompound = 3"
| "tier_rank TierCompoundWait = 4"
| "tier_rank TierChained = 5"
| "tier_rank TierStandard = 6"

lemma tier_rank_inj: "tier_rank a = tier_rank b \<longleftrightarrow> a = b"
  by (cases a; cases b) simp_all

instantiation execution_priority_tier :: linorder
begin

definition less_eq_execution_priority_tier :: "execution_priority_tier \<Rightarrow> execution_priority_tier \<Rightarrow> bool" where
  "less_eq_execution_priority_tier a b \<longleftrightarrow> tier_rank a \<le> tier_rank b"

definition less_execution_priority_tier :: "execution_priority_tier \<Rightarrow> execution_priority_tier \<Rightarrow> bool" where
  "less_execution_priority_tier a b \<longleftrightarrow> tier_rank a < tier_rank b"

instance
  by standard (auto simp: less_eq_execution_priority_tier_def less_execution_priority_tier_def tier_rank_inj)

end

fun execution_priority_tier_of :: "request_kind \<Rightarrow> execution_priority_tier" where
  "execution_priority_tier_of ClearAll = TierCancellation"
| "execution_priority_tier_of ClearNonSafestate = TierCancellation"
| "execution_priority_tier_of ClearSingle = TierCancellation"
| "execution_priority_tier_of Triggered = TierTriggered"
| "execution_priority_tier_of SafetyTriggered = TierTriggered"
| "execution_priority_tier_of Timed = TierTimed"
| "execution_priority_tier_of Compound = TierCompound"
| "execution_priority_tier_of SafetyCompound = TierCompound"
| "execution_priority_tier_of CompoundWait = TierCompoundWait"
| "execution_priority_tier_of SafetyCompoundWait = TierCompoundWait"
| "execution_priority_tier_of Chained = TierChained"
| "execution_priority_tier_of Standard = TierStandard"

record pending_request_key =
  pending_kind :: request_kind
  arrival_seq :: u64

definition pending_order :: "pending_request_key \<Rightarrow> execution_priority_tier \<times> u64" where
  "pending_order key = (execution_priority_tier_of (pending_kind key), arrival_seq key)"

text \<open>
  \<open>iter().enumerate().min_by_key(..)\<close>: the accumulator holds the least entry so far with its
  index, and an equal later entry does not replace it.
\<close>

fun min_by_key_loop ::
  "('a \<Rightarrow> 'k::linorder) \<Rightarrow> ('k \<times> nat) option \<Rightarrow> nat \<Rightarrow> 'a list \<Rightarrow> ('k \<times> nat) option" where
  "min_by_key_loop key best index [] = best"
| "min_by_key_loop key best index (x # xs) =
    min_by_key_loop key
      (case best of None \<Rightarrow> Some (key x, index)
       | Some (k, i) \<Rightarrow> if key x < k then Some (key x, index) else Some (k, i))
      (index + 1) xs"

definition select_next_pending_request :: "pending_request_key list \<Rightarrow> nat option" where
  "select_next_pending_request pending = map_option snd (min_by_key_loop pending_order None 0 pending)"

section \<open>The request lifecycle\<close>

datatype request_lifecycle_state = Pending | Started | UnderExecution | Finalized

fun is_request_lifecycle_transition_defined ::
  "request_lifecycle_state \<Rightarrow> request_lifecycle_state \<Rightarrow> bool" where
  "is_request_lifecycle_transition_defined Pending Started = True"
| "is_request_lifecycle_transition_defined Started UnderExecution = True"
| "is_request_lifecycle_transition_defined UnderExecution Finalized = True"
| "is_request_lifecycle_transition_defined _ _ = False"

datatype request_lifecycle_guard_input =
    GuardStandard
  | GuardChained (guard_cs: bool) (guard_predecessor_errored: bool)
  | GuardClearAll
  | GuardClearNonSafestate
  | GuardClearSingle
  | GuardTimed (guard_current: avtp_timestamp) (guard_exec_time: timed_execution_time)
  | GuardCompoundWait sequencer_state compound_gate_config u8
  | GuardTriggered (guard_endpoint_busy: bool) (guard_repeat: trigger_repeat_count) (guard_occurrences: u16)
  | GuardCompound sequencer_state compound_gate_config u8

fun request_lifecycle_transition_guard ::
  "request_lifecycle_state \<Rightarrow> request_lifecycle_guard_input \<Rightarrow> unit rcp_result" where
  "request_lifecycle_transition_guard Started (GuardCompound current gate svr_max) =
     check_compound_gate current gate svr_max"
| "request_lifecycle_transition_guard Started (GuardCompoundWait current gate svr_max) =
     check_compound_gate current gate svr_max"
| "request_lifecycle_transition_guard Started (GuardTimed current exec_time) =
     (if is_timed_request_ready current exec_time then Inr () else Inl RequestRejected)"
| "request_lifecycle_transition_guard UnderExecution (GuardChained cs predecessor_errored) =
     check_chain_continuation cs predecessor_errored"
| "request_lifecycle_transition_guard UnderExecution (GuardTriggered endpoint_busy repeat occurrences) =
     (if should_count_trigger_occurrence endpoint_busy \<and> is_trigger_repeat_exhausted occurrences repeat
      then Inl RequestRejected else Inr ())"
| "request_lifecycle_transition_guard _ _ = Inr ()"

definition request_try_transition ::
  "request_lifecycle_state \<Rightarrow> request_lifecycle_state \<Rightarrow> request_lifecycle_guard_input
    \<Rightarrow> request_lifecycle_state rcp_result" where
  "request_try_transition s target input =
    (if \<not> is_request_lifecycle_transition_defined s target then Inl RequestRejected
     else and_then (request_lifecycle_transition_guard target input) (\<lambda>_. Inr target))"

definition force_cancel :: "request_lifecycle_state \<Rightarrow> unit rcp_result \<Rightarrow> request_lifecycle_state \<times> unit rcp_result" where
  "force_cancel current check =
    (if current = Finalized then (current, Inr ())
     else case check of Inr _ \<Rightarrow> (current, Inr ()) | Inl err \<Rightarrow> (Finalized, Inl err))"

definition try_force_cancel_all :: "request_lifecycle_state \<Rightarrow> request_lifecycle_state \<times> unit rcp_result" where
  "try_force_cancel_all current = force_cancel current check_clear_all_cancellation"

definition try_force_cancel_non_safestate ::
  "request_lifecycle_state \<Rightarrow> bool \<Rightarrow> request_lifecycle_state \<times> unit rcp_result" where
  "try_force_cancel_non_safestate current is_safestate_related =
    force_cancel current (check_clear_non_safestate_cancellation is_safestate_related)"

definition try_force_cancel_single ::
  "request_lifecycle_state \<Rightarrow> u8 \<Rightarrow> clear_transaction_num \<Rightarrow> request_lifecycle_state \<times> unit rcp_result" where
  "try_force_cancel_single current candidate target =
    force_cancel current (check_clear_single_cancellation candidate target)"

section \<open>Safety rules\<close>

definition MIN_SEQUENCERS_FOR_COMPOUND_BUNDLE :: u8 where
  [rcp_consts]: "MIN_SEQUENCERS_FOR_COMPOUND_BUNDLE = 4"

definition check_compound_bundle_claim :: "bool \<Rightarrow> u8 \<Rightarrow> bool \<Rightarrow> unit rcp_result" where
  "check_compound_bundle_claim has_compound_wait svr_max has_clear_non_safestate =
    (if has_compound_wait \<and> svr_max \<ge> MIN_SEQUENCERS_FOR_COMPOUND_BUNDLE \<and> has_clear_non_safestate
     then Inr () else Inl InvalidParameter)"

definition check_watchdog_overflow_purge :: "request_kind \<Rightarrow> bool \<Rightarrow> unit rcp_result" where
  "check_watchdog_overflow_purge kind watchdog_overflowed =
    (if watchdog_overflowed \<and> \<not> is_safety_tagged kind then Inl RequestCanceled else Inr ())"

fun purge_loop :: "bool \<Rightarrow> nat \<Rightarrow> nat list \<Rightarrow> nat list \<Rightarrow> pending_request_key list \<Rightarrow> nat list \<times> nat list" where
  "purge_loop overflowed index kept purged [] = (kept, purged)"
| "purge_loop overflowed index kept purged (key # keys) =
    (case check_watchdog_overflow_purge (pending_kind key) overflowed of
       Inr _ \<Rightarrow> purge_loop overflowed (index + 1) (kept @ [index]) purged keys
     | Inl _ \<Rightarrow> purge_loop overflowed (index + 1) kept (purged @ [index]) keys)"

definition purge_normal_priority_on_watchdog_overflow ::
  "pending_request_key list \<Rightarrow> bool \<Rightarrow> nat list \<times> nat list" where
  "purge_normal_priority_on_watchdog_overflow pending watchdog_overflowed =
    purge_loop watchdog_overflowed 0 [] [] pending"

datatype e2e_failure_scope = DropRequest | LatchStream

definition e2e_failure_scope_of :: "bool \<Rightarrow> e2e_failure_scope" where
  "e2e_failure_scope_of rx_enforce = (if rx_enforce then LatchStream else DropRequest)"

definition check_rx_enforce_e2e :: "bytes \<Rightarrow> u32 \<Rightarrow> bool \<Rightarrow> (rcp_error \<times> e2e_failure_scope) + unit" where
  "check_rx_enforce_e2e coverage_buffer expected_crc rx_enforce =
    (if crc32_tc18 coverage_buffer = expected_crc then Inr ()
     else Inl (CrcError, e2e_failure_scope_of rx_enforce))"

datatype safe_state_mechanism = HiZAllPins | SequencerDriven compound_gate_config

definition safe_state_sequencer_gate :: "u8 \<Rightarrow> u8 \<Rightarrow> compound_gate_config" where
  "safe_state_sequencer_gate sequencer state = \<lparr>sequencer_num = sequencer, start_state = SequencerState state\<rparr>"

definition resolve_safe_state_mechanism :: "bool \<Rightarrow> u8 \<Rightarrow> u8 \<Rightarrow> safe_state_mechanism" where
  "resolve_safe_state_mechanism safety_measure sequencer state =
    (if safety_measure then SequencerDriven (safe_state_sequencer_gate sequencer state) else HiZAllPins)"

definition enter_sequencer_driven_safe_state ::
  "sequencer_bank \<Rightarrow> compound_gate_config \<Rightarrow> sequencer_bank \<times> unit rcp_result" where
  "enter_sequencer_driven_safe_state bank gate = bank_force_state bank (sequencer_num gate) (start_state gate)"

datatype overflow_outcome = NoOverflow | OverflowNoSafestate | OverflowSafestate

definition evaluate_request_storage_overflow :: "bool \<Rightarrow> bool \<Rightarrow> overflow_outcome" where
  "evaluate_request_storage_overflow storage_overflowed safestate_enable =
    (if \<not> storage_overflowed then NoOverflow
     else if safestate_enable then OverflowSafestate else OverflowNoSafestate)"

definition is_overflow :: "overflow_outcome \<Rightarrow> bool" where
  "is_overflow r \<longleftrightarrow> r \<noteq> NoOverflow"

definition overflow_drives_safestate :: "overflow_outcome \<Rightarrow> bool" where
  "overflow_drives_safestate r \<longleftrightarrow> r = OverflowSafestate"

datatype sequence_enforcement_outcome = Accepted | RejectedNoSafestate | RejectedSafestate

definition evaluate_rx_enforce_seq :: "u32 \<Rightarrow> u32 \<Rightarrow> bool \<Rightarrow> bool \<Rightarrow> sequence_enforcement_outcome" where
  "evaluate_rx_enforce_seq last_accepted candidate enforce safestate_enable =
    (if \<not> enforce \<or> candidate > last_accepted then Accepted
     else if safestate_enable then RejectedSafestate else RejectedNoSafestate)"

definition is_rejected :: "sequence_enforcement_outcome \<Rightarrow> bool" where
  "is_rejected r \<longleftrightarrow> r \<noteq> Accepted"

definition rejection_drives_safestate :: "sequence_enforcement_outcome \<Rightarrow> bool" where
  "rejection_drives_safestate r \<longleftrightarrow> r = RejectedSafestate"

datatype safe_state_action = ActionNone | ForceHiZAllPins | ForceSequencerState compound_gate_config

fun resolve_safe_state_action :: "bool \<Rightarrow> safe_state_mechanism \<Rightarrow> safe_state_action" where
  "resolve_safe_state_action should_enter mechanism =
    (if \<not> should_enter then ActionNone
     else case mechanism of HiZAllPins \<Rightarrow> ForceHiZAllPins | SequencerDriven gate \<Rightarrow> ForceSequencerState gate)"

end
