(* ===== verification/Rcp_Request_Facts.thy ===== *)
theory Rcp_Request_Facts
  imports Rcp_Request
begin

text \<open>
  What the request machinery guarantees: codec round trips, the sequencer bank as a store of
  cells with an atomic compare-and-advance, the choice of the next request, the lifecycle as a
  guarded machine with cancellation, and the safety rules.
\<close>

section \<open>Kinds\<close>

lemma request_kind_from_to [simp]: "request_kind_from_u8 (request_kind_to_u8 k) = Inr k"
  by (cases k) (simp_all add: request_kind_from_u8_def)

lemma request_kind_from_u8_Inr: "request_kind_from_u8 raw = Inr k \<Longrightarrow> raw = request_kind_to_u8 k"
  unfolding request_kind_from_u8_def by (simp split: if_splits; (drule sym; simp)?)

lemma request_kind_to_u8_eq_0: "request_kind_to_u8 k = 0 \<longleftrightarrow> k = Standard"
  by (cases k) simp_all

lemma low_mask: "(0x00FFFFFFFFFFFFFF :: u64) = mask 56"
  by (simp add: mask_eq_exp_minus_1)

lemma leading_octet: "ucast (drop_bit 56 ((ts AND 0x00FFFFFFFFFFFFFF) OR push_bit 56 (ucast b :: u64))) = (b :: u8)"
  unfolding low_mask by (rule bit_word_eqI) (auto simp: bit_simps)

lemma low_octets: "((ts AND 0x00FFFFFFFFFFFFFF) OR push_bit 56 (ucast (b :: u8))) AND 0x00FFFFFFFFFFFFFF
    = ts AND (0x00FFFFFFFFFFFFFF :: u64)"
  unfolding low_mask by (rule bit_word_eqI) (auto simp: bit_simps)

lemma gbb_kind_round_trip:
  assumes "to_gbb_message_timestamp k ts = Inr ts'"
  shows "from_gbb_message_timestamp ts' = Some k" and "ts' AND 0x00FFFFFFFFFFFFFF = ts AND 0x00FFFFFFFFFFFFFF"
proof -
  from assms have k: "k \<noteq> Standard"
    and ts': "ts' = (ts AND 0x00FFFFFFFFFFFFFF) OR push_bit 56 (ucast (request_kind_to_u8 k))"
    by (simp_all add: to_gbb_message_timestamp_def split: if_splits)
  have "ucast (drop_bit 56 ts') = request_kind_to_u8 k" by (simp only: ts' leading_octet)
  then show "from_gbb_message_timestamp ts' = Some k"
    using k by (simp add: from_gbb_message_timestamp_def request_kind_to_u8_eq_0)
  show "ts' AND 0x00FFFFFFFFFFFFFF = ts AND 0x00FFFFFFFFFFFFFF" by (simp only: ts' low_octets)
qed

section \<open>The sequencer bank\<close>

text \<open>
  A store of cells: reading and writing by index, with an error outside the store. On top of the
  two, \<open>compare_set\<close> replaces a value only if it is still the expected one.
\<close>

definition compare_set ::
  "('s \<Rightarrow> 'i \<Rightarrow> 'v rcp_result) \<Rightarrow> ('s \<Rightarrow> 'i \<Rightarrow> 'v \<Rightarrow> 's \<times> unit rcp_result) \<Rightarrow> 's \<Rightarrow> 'i \<Rightarrow> 'v \<Rightarrow> 'v
    \<Rightarrow> 's \<times> bool rcp_result" where
  "compare_set get put s i expected new =
    (case get s i of
       Inl e \<Rightarrow> (s, Inl e)
     | Inr v \<Rightarrow> if v = expected then (fst (put s i new), Inr True) else (s, Inr False))"

text \<open>Several clients that saw the same value try to advance the same cell, one after the other.\<close>

fun racers ::
  "('s \<Rightarrow> 'i \<Rightarrow> 'v rcp_result) \<Rightarrow> ('s \<Rightarrow> 'i \<Rightarrow> 'v \<Rightarrow> 's \<times> unit rcp_result) \<Rightarrow> 's \<Rightarrow> 'i \<Rightarrow> 'v \<Rightarrow> 'v list
    \<Rightarrow> 's \<times> bool rcp_result list" where
  "racers get put s i expected [] = (s, [])"
| "racers get put s i expected (new # news) =
    (case compare_set get put s i expected new of
       (s', r) \<Rightarrow> (case racers get put s' i expected news of (s'', rs) \<Rightarrow> (s'', r # rs)))"

locale cell_store =
  fixes get :: "'s \<Rightarrow> 'i \<Rightarrow> 'v rcp_result"
    and put :: "'s \<Rightarrow> 'i \<Rightarrow> 'v \<Rightarrow> 's \<times> unit rcp_result"
    and inv :: "'s \<Rightarrow> bool"
  assumes put_inv: "inv s \<Longrightarrow> inv (fst (put s i v))"
    and put_known: "inv s \<Longrightarrow> get s i = Inr u \<Longrightarrow> snd (put s i v) = Inr ()"
    and get_put: "inv s \<Longrightarrow> get s i = Inr u \<Longrightarrow> get (fst (put s i v)) j = (if j = i then Inr v else get s j)"
    and put_unknown: "inv s \<Longrightarrow> get s i = Inl e \<Longrightarrow> put s i v = (s, Inl e)"
begin

lemma racers_lost:
  "inv s \<Longrightarrow> get s i = Inr v \<Longrightarrow> v \<noteq> expected \<Longrightarrow>
     racers get put s i expected news = (s, replicate (length news) (Inr False))"
  by (induction news) (simp_all add: compare_set_def)

text \<open>One winner: the first to try. Its value stays, and every other cell is untouched.\<close>

lemma racers_one_winner:
  assumes "inv s" and "get s i = Inr expected" and "new \<noteq> expected"
  shows "snd (racers get put s i expected (new # news)) = Inr True # replicate (length news) (Inr False)"
    and "get (fst (racers get put s i expected (new # news))) j = (if j = i then Inr new else get s j)"
proof -
  have "racers get put (fst (put s i new)) i expected news
      = (fst (put s i new), replicate (length news) (Inr False))"
    using assms by (intro racers_lost [where v = new]) (simp_all add: put_inv get_put)
  then show "snd (racers get put s i expected (new # news)) = Inr True # replicate (length news) (Inr False)"
    and "get (fst (racers get put s i expected (new # news))) j = (if j = i then Inr new else get s j)"
    using assms by (simp_all add: compare_set_def get_put)
qed

end

text \<open>A bank has at most 255 sequencers, so its octet-sized length is exact.\<close>

definition bank_ok :: "sequencer_bank \<Rightarrow> bool" where
  "bank_ok bank \<longleftrightarrow> length (bank_states bank) \<le> 255"

lemma bank_ok_new [simp]: "bank_ok (sequencer_bank_new n)"
  using unsigned_less [of n, where ?'a = nat] by (simp add: bank_ok_def sequencer_bank_new_def)

lemma unat_svr_sequencers_max: "bank_ok bank \<Longrightarrow> unat (svr_sequencers_max_of bank) = length (bank_states bank)"
  by (simp add: bank_ok_def svr_sequencers_max_of_def unat_of_nat)

lemma bank_in_bounds:
  "bank_ok bank \<Longrightarrow> check_sequencer_num_in_bounds n (svr_sequencers_max_of bank)
     = (if unat n < length (bank_states bank) then Inr () else Inl SequencerNotKnown)"
  by (simp add: check_sequencer_num_in_bounds_def word_less_nat_alt unat_svr_sequencers_max)

lemma bank_read_eq:
  "bank_ok bank \<Longrightarrow> bank_read bank n =
     (if unat n < length (bank_states bank) then Inr (bank_states bank ! unat n) else Inl SequencerNotKnown)"
  by (simp add: bank_read_def bank_in_bounds)

lemma bank_force_state_eq:
  "bank_ok bank \<Longrightarrow> bank_force_state bank n v =
     (if unat n < length (bank_states bank)
      then (bank\<lparr>bank_states := (bank_states bank)[unat n := v]\<rparr>, Inr ()) else (bank, Inl SequencerNotKnown))"
  by (simp add: bank_force_state_def bank_in_bounds)

interpretation sequencers: cell_store bank_read bank_force_state bank_ok
proof
  fix bank :: sequencer_bank and i j :: u8 and u v :: sequencer_state
  assume ok: "bank_ok bank"
  then show ok': "bank_ok (fst (bank_force_state bank i v))"
    by (simp add: bank_force_state_eq) (simp add: bank_ok_def)
  show "snd (bank_force_state bank i v) = Inr ()" if "bank_read bank i = Inr u"
    using that ok by (simp add: bank_read_eq bank_force_state_eq split: if_splits)
  show "bank_read (fst (bank_force_state bank i v)) j = (if j = i then Inr v else bank_read bank j)"
    if "bank_read bank i = Inr u"
    using that ok ok' by (auto simp: bank_read_eq bank_force_state_eq nth_list_update word_unat_eq_iff split: if_splits)
  show "bank_force_state bank i v = (bank, Inl e)" if "bank_read bank i = Inl e" for e
    using that ok by (simp add: bank_read_eq bank_force_state_eq split: if_splits)
qed

lemma bank_advance_compare_set:
  "bank_ok bank \<Longrightarrow> bank_advance_if_still_in_start_state bank gate nxt
     = compare_set bank_read bank_force_state bank (sequencer_num gate) (start_state gate) nxt"
  by (auto simp: bank_advance_if_still_in_start_state_def compare_set_def bank_in_bounds bank_read_eq
      bank_force_state_eq advance_sequencer_if_still_in_start_state_def Let_def)

lemma bank_check_compound_gate_eq:
  "bank_ok bank \<Longrightarrow> bank_check_compound_gate bank gate =
     (if unat (sequencer_num gate) < length (bank_states bank)
      then if bank_states bank ! unat (sequencer_num gate) = start_state gate then Inr () else Inl RequestRejected
      else Inl SequencerNotKnown)"
  by (simp add: bank_check_compound_gate_def bank_read_eq check_compound_gate_def bank_in_bounds
      is_gate_satisfied_def)

lemma bank_advance_preserves:
  "bank_ok bank \<Longrightarrow> bank_ok (fst (bank_advance_if_still_in_start_state bank gate nxt))
     \<and> length (bank_states (fst (bank_advance_if_still_in_start_state bank gate nxt))) = length (bank_states bank)"
  by (auto simp: bank_advance_if_still_in_start_state_def Let_def bank_ok_def split: sum.splits option.splits)

text \<open>Racing compound requests: the bank's own operation, one attempt after the other.\<close>

fun advance_all ::
  "sequencer_bank \<Rightarrow> compound_gate_config \<Rightarrow> sequencer_state list \<Rightarrow> sequencer_bank \<times> bool rcp_result list" where
  "advance_all bank gate [] = (bank, [])"
| "advance_all bank gate (nxt # rest) =
    (case bank_advance_if_still_in_start_state bank gate nxt of
       (bank', r) \<Rightarrow> (case advance_all bank' gate rest of (bank'', rs) \<Rightarrow> (bank'', r # rs)))"

lemma advance_all_racers:
  "bank_ok bank \<Longrightarrow> advance_all bank gate nexts
     = racers bank_read bank_force_state bank (sequencer_num gate) (start_state gate) nexts"
proof (induction nexts arbitrary: bank)
  case (Cons nxt nexts)
  obtain bank' r where adv: "bank_advance_if_still_in_start_state bank gate nxt = (bank', r)"
    by fastforce
  moreover have "bank_ok bank'"
    using bank_advance_preserves [OF Cons.prems, of gate nxt] by (simp add: adv)
  ultimately show ?case
    using Cons.IH [of bank'] bank_advance_compare_set [OF Cons.prems, of gate nxt] by simp
qed simp

section \<open>The next pending request\<close>

text \<open>
  The accumulator is the first minimum of what has been seen; at the end, of the whole list.
\<close>

definition first_min_at :: "('a \<Rightarrow> 'k::linorder) \<Rightarrow> 'a list \<Rightarrow> nat \<Rightarrow> bool" where
  "first_min_at key xs i \<longleftrightarrow> i < length xs \<and> (\<forall>j < length xs. key (xs ! i) \<le> key (xs ! j))
     \<and> (\<forall>j < i. key (xs ! i) < key (xs ! j))"

lemma first_min_at_unique: "first_min_at key xs i \<Longrightarrow> first_min_at key xs j \<Longrightarrow> i = j"
  unfolding first_min_at_def by (metis leD linorder_neqE_nat)

lemma first_min_at_snoc:
  "first_min_at key xs i \<Longrightarrow>
     first_min_at key (xs @ [x]) (if key x < key (xs ! i) then length xs else i)"
  by (auto simp: first_min_at_def nth_append less_Suc_eq not_less intro: less_le_trans order_trans)

lemma min_by_key_loop_invariant:
  assumes "case best of None \<Rightarrow> seen = [] | Some (k, i) \<Rightarrow> first_min_at key seen i \<and> k = key (seen ! i)"
  shows "case min_by_key_loop key best (length seen) xs of
      None \<Rightarrow> seen @ xs = []
    | Some (k, i) \<Rightarrow> first_min_at key (seen @ xs) i \<and> k = key ((seen @ xs) ! i)"
  using assms
proof (induction xs arbitrary: best seen)
  case (Cons x xs)
  let ?best = "case best of None \<Rightarrow> Some (key x, length seen)
       | Some (k, i) \<Rightarrow> if key x < k then Some (key x, length seen) else Some (k, i)"
  have "case ?best of None \<Rightarrow> seen @ [x] = []
      | Some (k, i) \<Rightarrow> first_min_at key (seen @ [x]) i \<and> k = key ((seen @ [x]) ! i)"
  proof (cases best)
    case None
    then show ?thesis using Cons.prems by (simp add: first_min_at_def)
  next
    case (Some b)
    obtain k i where b: "b = (k, i)" by (cases b)
    have "first_min_at key seen i" "k = key (seen ! i)" "i < length seen"
      using Cons.prems by (simp_all add: Some b first_min_at_def)
    then show ?thesis
      using first_min_at_snoc [of key seen i x] by (auto simp: Some b nth_append split: if_splits)
  qed
  moreover have "length (seen @ [x]) = length seen + 1" by simp
  ultimately show ?case
    using Cons.IH [of "seen @ [x]" ?best] by (simp only: min_by_key_loop.simps append_assoc append.simps)
qed (auto split: option.splits)

lemma select_next_iff:
  "select_next_pending_request pending = Some i \<longleftrightarrow> first_min_at pending_order pending i"
  "select_next_pending_request pending = None \<longleftrightarrow> pending = []"
proof -
  have inv: "case min_by_key_loop pending_order None 0 pending of
      None \<Rightarrow> pending = [] | Some (k, i) \<Rightarrow> first_min_at pending_order pending i"
    using min_by_key_loop_invariant [where best = None and seen = "[]" and key = pending_order and xs = pending] by (auto split: option.splits)
  have nil: "\<not> first_min_at pending_order [] i" by (simp add: first_min_at_def)
  from inv nil show "select_next_pending_request pending = Some i \<longleftrightarrow> first_min_at pending_order pending i"
    by (auto simp: select_next_pending_request_def split: option.splits dest: first_min_at_unique)
  from inv show "select_next_pending_request pending = None \<longleftrightarrow> pending = []"
    by (auto simp: select_next_pending_request_def first_min_at_def split: option.splits)
qed

section \<open>The lifecycle of a request\<close>

interpretation request_lifecycle: guarded_machine is_request_lifecycle_transition_defined request_try_transition
  by unfold_locales (auto simp: request_try_transition_def and_then_eq_Inr split: if_splits)

fun lifecycle_rank :: "request_lifecycle_state \<Rightarrow> nat" where
  "lifecycle_rank Pending = 0"
| "lifecycle_rank Started = 1"
| "lifecycle_rank UnderExecution = 2"
| "lifecycle_rank Finalized = 3"

lemma transition_defined_rank:
  "is_request_lifecycle_transition_defined s t \<longleftrightarrow> lifecycle_rank t = Suc (lifecycle_rank s)"
  by (cases s; cases t) simp_all

lemma attempts_rank: "lifecycle_rank s \<le> lifecycle_rank (attempts request_try_transition s xs)"
  by (rule request_lifecycle.attempts_invariant [where P = "\<lambda>u. lifecycle_rank s \<le> lifecycle_rank u"])
    (simp_all add: transition_defined_rank)

lemma finalized_final: "attempts request_try_transition Finalized xs = Finalized"
  by (rule request_lifecycle.attempts_final) (simp add: transition_defined_rank, case_tac t; simp)

lemma force_cancel_cases:
  "fst (force_cancel s check) = (if s \<noteq> Finalized \<and> check \<noteq> Inr () then Finalized else s)"
  "snd (force_cancel s check) = (if s = Finalized then Inr () else check)"
  by (auto simp: force_cancel_def split: sum.splits)

section \<open>Safety rules\<close>

lemma check_watchdog_overflow_purge_Inr:
  "check_watchdog_overflow_purge kind overflowed = Inr () \<longleftrightarrow> \<not> overflowed \<or> is_safety_tagged kind"
  by (auto simp: check_watchdog_overflow_purge_def)

lemma purge_loop_eq:
  "purge_loop overflowed index kept purged keys =
    (kept @ map fst (filter (\<lambda>(i, k). \<not> overflowed \<or> is_safety_tagged (pending_kind k)) (enumerate index keys)),
     purged @ map fst (filter (\<lambda>(i, k). overflowed \<and> \<not> is_safety_tagged (pending_kind k)) (enumerate index keys)))"
  by (induction keys arbitrary: index kept purged) (auto simp: check_watchdog_overflow_purge_def)

lemma enumerated_indices:
  "map fst (filter (\<lambda>(i, x). P x) (enumerate 0 xs)) = filter (\<lambda>i. P (xs ! i)) [0..<length xs]"
proof (induction xs rule: rev_induct)
  case (snoc x xs)
  have "filter (\<lambda>i. P ((xs @ [x]) ! i)) [0..<length xs] = filter (\<lambda>i. P (xs ! i)) [0..<length xs]"
    by (rule filter_cong) (auto simp: nth_append)
  then show ?case using snoc.IH by (simp add: enumerate_append_eq)
qed simp

lemma purge_eq:
  "purge_normal_priority_on_watchdog_overflow pending overflowed =
    (filter (\<lambda>i. \<not> overflowed \<or> is_safety_tagged (pending_kind (pending ! i))) [0..<length pending],
     filter (\<lambda>i. overflowed \<and> \<not> is_safety_tagged (pending_kind (pending ! i))) [0..<length pending])"
  using enumerated_indices [of "\<lambda>k. \<not> overflowed \<or> is_safety_tagged (pending_kind k)" pending]
    enumerated_indices [of "\<lambda>k. overflowed \<and> \<not> is_safety_tagged (pending_kind k)" pending]
  by (simp only: purge_normal_priority_on_watchdog_overflow_def purge_loop_eq append_Nil)

text \<open>
  A stream under sequence enforcement: every accepted number becomes the new last one.
\<close>

fun accepted_seqs :: "bool \<Rightarrow> u32 \<Rightarrow> u32 list \<Rightarrow> u32 list" where
  "accepted_seqs safestate prev [] = []"
| "accepted_seqs safestate prev (c # cs) =
    (if evaluate_rx_enforce_seq prev c True safestate = Accepted
     then c # accepted_seqs safestate c cs else accepted_seqs safestate prev cs)"

lemma accepted_iff: "evaluate_rx_enforce_seq prev c True safestate = Accepted \<longleftrightarrow> prev < c"
  by (auto simp: evaluate_rx_enforce_seq_def)

lemma accepted_seqs_increasing: "sorted_wrt (<) (prev # accepted_seqs safestate prev cs)"
proof (induction cs arbitrary: prev)
  case (Cons c cs)
  show ?case using Cons.IH [of c] Cons.IH [of prev] by (auto simp: accepted_iff intro: less_trans)
qed simp

lemma no_seq_after_max: "accepted_seqs safestate (- 1) cs = []"
  by (induction cs) (simp_all add: accepted_iff word_order.extremum_strict)

section \<open>Further facts\<close>

text \<open>The next request is the first of the most urgent. The choice is an index whose tier and arrival number are least among all pending requests and strictly less than those of every request before it; there is none only when nothing is pending.\<close>

theorem next_request_is_first_minimum:
  "(select_next_pending_request pending = Some i \<longleftrightarrow>
      i < length pending
      \<and> (\<forall>j \<in> {..<length pending}. pending_order (pending ! i) \<le> pending_order (pending ! j))
      \<and> (\<forall>j \<in> {..<i}. pending_order (pending ! i) < pending_order (pending ! j)))
   \<and> (select_next_pending_request pending = None \<longleftrightarrow> pending = [])"
  by (simp add: select_next_iff first_min_at_def Ball_def)

text \<open>A request only moves forward. Whatever transitions are attempted, with whatever guard inputs, a request never returns to an earlier state of its life; a finalized request stays finalized, and a cancellation only ever finalizes.\<close>

theorem request_moves_forward:
  "lifecycle_rank s \<le> lifecycle_rank (attempts request_try_transition s xs)
    \<and> attempts request_try_transition Finalized xs = Finalized
    \<and> fst (try_force_cancel_all s) = Finalized
    \<and> fst (try_force_cancel_single s c t) \<in> {s, Finalized}
    \<and> fst (try_force_cancel_non_safestate s b) \<in> {s, Finalized}"
  using attempts_rank [of s xs] finalized_final [of xs]
  by (simp add: try_force_cancel_all_def try_force_cancel_single_def try_force_cancel_non_safestate_def
      force_cancel_cases check_clear_all_cancellation_def)

text \<open>A watchdog overflow purges exactly the requests without a safety tag. The kept and the purged indices are those of the safety-tagged and of the other requests, each in the order of the queue; without an overflow everything is kept.\<close>

theorem purge_keeps_safety_requests:
  "purge_normal_priority_on_watchdog_overflow pending overflowed =
    (if overflowed
     then (filter (\<lambda>i. is_safety_tagged (pending_kind (pending ! i))) [0..<length pending],
           filter (\<lambda>i. \<not> is_safety_tagged (pending_kind (pending ! i))) [0..<length pending])
     else ([0..<length pending], []))"
  by (simp add: purge_eq)

text \<open>Sequence enforcement lets no number through twice. On a stream under enforcement the accepted sequence numbers increase strictly from the last accepted one, whatever arrives; and after the largest 32-bit number nothing is accepted any more.\<close>

theorem enforced_seqs_increase:
  "sorted_wrt (<) (prev # accepted_seqs safestate prev cs) \<and> accepted_seqs safestate (- 1) cs = []"
  using accepted_seqs_increasing no_seq_after_max by simp

text \<open>A request kind travels in the leading octet of the timestamp. Writing a kind into a message timestamp and reading it back gives the kind, and the low 56 bits keep their value.\<close>

theorem gbb_kind_in_timestamp:
  assumes "to_gbb_message_timestamp kind ts = Inr ts'"
  shows "from_gbb_message_timestamp ts' = Some kind \<and> ts' AND 0x00FFFFFFFFFFFFFF = ts AND 0x00FFFFFFFFFFFFFF"
  using gbb_kind_round_trip [OF assms] by simp

section \<open>Properties\<close>

text \<open>C31: of racing compound requests one wins. When several requests that saw a sequencer in its start state try to advance it, the first of them to another state, the first succeeds and all others are told that they lost; the sequencer holds the winner's state and every other sequencer is as before.\<close>

theorem sequencer_race_one_winner:
  assumes "length (bank_states bank) \<le> 255" and "bank_read bank (sequencer_num gate) = Inr (start_state gate)"
    and "s \<noteq> start_state gate"
  shows "snd (advance_all bank gate (s # others)) = Inr True # replicate (length others) (Inr False)
    \<and> bank_read (fst (advance_all bank gate (s # others))) n
      = (if n = sequencer_num gate then Inr s else bank_read bank n)"
proof -
  have ok: "bank_ok bank" using assms(1) by (simp add: bank_ok_def)
  show ?thesis
    unfolding advance_all_racers [OF ok] using sequencers.racers_one_winner [OF ok assms(2, 3)] by blast
qed

lemma sequencer_race_one_winner_witness:
  "snd (advance_all (sequencer_bank_new 4) \<lparr>sequencer_num = 2, start_state = SequencerState 1\<rparr>
      (SequencerState 2 # [SequencerState 3, SequencerState 4])) = Inr True # replicate (length [SequencerState 3, SequencerState 4]) (Inr False)
   \<and> bank_read (fst (advance_all (sequencer_bank_new 4) \<lparr>sequencer_num = 2, start_state = SequencerState 1\<rparr>
      (SequencerState 2 # [SequencerState 3, SequencerState 4]))) 2 = Inr (SequencerState 2)"
  using sequencer_race_one_winner [of "sequencer_bank_new 4" "\<lparr>sequencer_num = 2, start_state = SequencerState 1\<rparr>"
      "SequencerState 2" "[SequencerState 3, SequencerState 4]" 2]
  by (simp add: sequencer_bank_new_def bank_read_def check_sequencer_num_in_bounds_def svr_sequencers_max_of_def
      sequencer_state_power_on_default_def)


end
