(* ===== verification/Rcp_Mock.thy ===== *)
theory Rcp_Mock
  imports Rcp_Acf_Messages Rcp_Addressing Rcp_Ep0 Rcp_Regmap_Codecs
begin

text \<open>
  The RC Server of \<open>src/mock.rs\<close>: its state, the endpoints behind it, registration, the
  dispatch of one request and the handling of a whole NTSCF frame. The endpoint objects live in
  a store and the server holds references to them, as the code shares them behind \<open>Arc\<close>;
  the trait's two methods that can change an object return it updated.
\<close>

section \<open>Endpoints\<close>

record 'ep endpoint_ops =
  ep_type_of :: "'ep \<Rightarrow> endpoint_type"
  ep_read :: "'ep \<Rightarrow> u16 \<Rightarrow> 'ep \<times> bytes rcp_result"
  ep_write :: "'ep \<Rightarrow> bytes \<Rightarrow> 'ep \<times> unit rcp_result"

record mock_endpoint =
  mock_ep_type :: endpoint_type
  mock_buf :: bytes

definition mock_endpoint_new :: "endpoint_type \<Rightarrow> bytes \<Rightarrow> mock_endpoint" where
  "mock_endpoint_new t initial = \<lparr>mock_ep_type = t, mock_buf = initial\<rparr>"

definition mock_read :: "mock_endpoint \<Rightarrow> u16 \<Rightarrow> mock_endpoint \<times> bytes rcp_result" where
  "mock_read ep read_size =
    (let n = min (unat read_size) (length (mock_buf ep)) in (ep, Inr (take n (mock_buf ep))))"

definition mock_write :: "mock_endpoint \<Rightarrow> bytes \<Rightarrow> mock_endpoint \<times> unit rcp_result" where
  "mock_write ep payload = (ep\<lparr>mock_buf := payload\<rparr>, Inr ())"

definition mock_ops :: "mock_endpoint endpoint_ops" where
  "mock_ops = \<lparr>ep_type_of = mock_ep_type, ep_read = mock_read, ep_write = mock_write\<rparr>"

section \<open>The server\<close>

type_synonym ep_ref = nat
type_synonym 'ep ep_store = "ep_ref \<Rightarrow> 'ep"

record rc_server =
  srv_state :: rc_server_state
  srv_general :: general_registers
  srv_root_client :: "stream_id option"
  srv_endpoints :: endpoint_table
  srv_endpoint_impls :: "endpoint_id \<rightharpoonup> ep_ref"
  srv_next_endpoint_id :: u32
  srv_sequence_num :: u32

definition rc_server_new :: "general_registers \<Rightarrow> rc_server" where
  "rc_server_new general =
    \<lparr>srv_state = INITIAL_STATE, srv_general = general, srv_root_client = None,
     srv_endpoints = endpoint_table_new, srv_endpoint_impls = Map.empty,
     srv_next_endpoint_id = 0, srv_sequence_num = 0\<rparr>"

definition server_try_transition ::
  "rc_server \<Rightarrow> rc_server_state \<Rightarrow> ('w \<Rightarrow> bool \<times> 'w) \<Rightarrow> 'w \<Rightarrow> (rc_server \<times> unit rcp_result) \<times> 'w" where
  "server_try_transition srv target is_consistent w =
    (case try_transition (srv_state srv) target is_consistent w of
       (Inl e, w') \<Rightarrow> ((srv, Inl e), w')
     | (Inr new_state, w') \<Rightarrow> ((srv\<lparr>srv_state := new_state\<rparr>, Inr ()), w'))"

definition set_root_client :: "rc_server \<Rightarrow> stream_id option \<Rightarrow> rc_server" where
  "set_root_client srv stream = srv\<lparr>srv_root_client := stream\<rparr>"

text \<open>One registration, run without interference.\<close>

definition register_endpoint ::
  "rc_server \<Rightarrow> stream_id \<Rightarrow> u16 \<Rightarrow> ep_ref \<Rightarrow> rc_server \<times> endpoint_id rcp_result" where
  "register_endpoint srv sid bus endpoint =
    (let eid = EndpointId (srv_next_endpoint_id srv) in
     case register_binding (srv_endpoints srv) sid bus eid of
       (table, Inl e) \<Rightarrow> (srv\<lparr>srv_endpoints := table\<rparr>, Inl e)
     | (table, Inr _) \<Rightarrow>
         (srv\<lparr>srv_endpoints := table, srv_next_endpoint_id := srv_next_endpoint_id srv + 1,
              srv_endpoint_impls := (srv_endpoint_impls srv)(eid \<mapsto> endpoint)\<rparr>, Inr eid))"

section \<open>Handling requests\<close>

definition handle_ep0 ::
  "rc_server \<Rightarrow> stream_id \<Rightarrow> acf_abb_message \<Rightarrow> rc_server \<times> bytes rcp_result" where
  "handle_ep0 srv sid request =
    (case check_ep0_access_for_stream (srv_state srv) General (abb_info request) sid (srv_root_client srv) of
       Inl e \<Rightarrow> (srv, Inl e)
     | Inr _ \<Rightarrow>
         if bmi_op (abb_info request)
         then (case decode_general_registers (abb_payload request) of
                 Inl e \<Rightarrow> (srv, Inl e)
               | Inr decoded \<Rightarrow> (srv\<lparr>srv_general := decoded\<rparr>, Inr []))
         else (srv, Inr (encode_general_registers (srv_general srv))))"

definition handle_device ::
  "'ep endpoint_ops \<Rightarrow> rc_server \<Rightarrow> 'ep ep_store \<Rightarrow> stream_id \<Rightarrow> acf_abb_message
    \<Rightarrow> 'ep ep_store \<times> bytes rcp_result" where
  "handle_device ops srv store sid request =
    (case lookup_binding (srv_endpoints srv) sid (byte_bus_id (abb_info request)) of
       None \<Rightarrow> (store, Inl EpNotFound)
     | Some eid \<Rightarrow>
         (case srv_endpoint_impls srv eid of
            None \<Rightarrow> (store, Inl EpNotFound)
          | Some r \<Rightarrow>
              if bmi_op (abb_info request)
              then (case ep_write ops (store r) (abb_payload request) of
                      (ep, Inl e) \<Rightarrow> (store(r := ep), Inl e)
                    | (ep, Inr _) \<Rightarrow> (store(r := ep), Inr []))
              else (case ep_read ops (store r) (as_read_size (read_size_segment (abb_info request))) of
                      (ep, result) \<Rightarrow> (store(r := ep), result))))"

definition handle_abb ::
  "'ep endpoint_ops \<Rightarrow> rc_server \<times> 'ep ep_store \<Rightarrow> stream_id \<Rightarrow> acf_abb_message
    \<Rightarrow> (rc_server \<times> 'ep ep_store) \<times> acf_abb_message rcp_result" where
  "handle_abb ops st sid request =
    (case st of (srv, store) \<Rightarrow>
     case (case route_byte_bus_id (byte_bus_id (abb_info request)) of
             RouteEp0 \<Rightarrow>
               (case handle_ep0 srv sid request of (srv', r) \<Rightarrow> ((srv', store), r))
           | RouteDeviceEndpoint \<Rightarrow>
               (case handle_device ops srv store sid request of (store', r) \<Rightarrow> ((srv, store'), r))) of
       (st', Inl e) \<Rightarrow> (st', Inl e)
     | (st', Inr response_payload) \<Rightarrow>
         let response_info = build_response_info (abb_info request) (abb_info request) in
         (case verify_echo_back (abb_info request) response_info of
            Inl e \<Rightarrow> (st', Inl e)
          | Inr _ \<Rightarrow> (st', Inr \<lparr>abb_info = response_info, abb_payload = response_payload\<rparr>)))"

text \<open>
  The loop over the requests of a frame: a request whose error has a wire code is answered with
  an error response, any other error ends the call.
\<close>

fun dispatch_requests ::
  "'ep endpoint_ops \<Rightarrow> rc_server \<times> 'ep ep_store \<Rightarrow> stream_id \<Rightarrow> acf_abb_message list \<Rightarrow> bytes
    \<Rightarrow> (rc_server \<times> 'ep ep_store) \<times> bytes rcp_result" where
  "dispatch_requests ops st sid [] response_bytes = (st, Inr response_bytes)"
| "dispatch_requests ops st sid (request # requests) response_bytes =
    (case handle_abb ops st sid request of
       (st', result) \<Rightarrow>
         (case (case result of
                  Inr response \<Rightarrow> Inr response
                | Inl e \<Rightarrow> (case build_error_response (abb_info request) e of
                              Some error_response \<Rightarrow> Inr error_response
                            | None \<Rightarrow> Inl e)) of
            Inl e \<Rightarrow> (st', Inl e)
          | Inr response \<Rightarrow>
              (case encode_acf_abb response of
                 Inl e \<Rightarrow> (st', Inl e)
               | Inr encoded \<Rightarrow> dispatch_requests ops st' sid requests (response_bytes @ encoded))))"

definition handle_ntscf_frame ::
  "'ep endpoint_ops \<Rightarrow> rc_server \<times> 'ep ep_store \<Rightarrow> stream_id \<Rightarrow> bytes
    \<Rightarrow> (rc_server \<times> 'ep ep_store) \<times> bytes rcp_result" where
  "handle_ntscf_frame ops st sid frame =
    (case decode_ntscf_frame frame of
       Inl e \<Rightarrow> (st, Inl e)
     | Inr (_, acf_bytes) \<Rightarrow>
         (case decode_acf_abb_messages acf_bytes of
            Inl e \<Rightarrow> (st, Inl e)
          | Inr requests \<Rightarrow>
              (case dispatch_requests ops st sid requests [] of
                 (st', Inl e) \<Rightarrow> (st', Inl e)
               | ((srv, store), Inr response_bytes) \<Rightarrow>
                   let seq = ucast (srv_sequence_num srv) in
                   ((srv\<lparr>srv_sequence_num := srv_sequence_num srv + 1\<rparr>, store),
                    encode_ntscf_frame sid seq response_bytes))))"

section \<open>Registrations that interleave\<close>

text \<open>
  The server is shared between threads and each statement of \<open>register_endpoint\<close> is atomic on its
  own: the load of the counter, the registration under the table's lock, the increment, the
  insertion under the lock of the implementations. A thread is its arguments and what it has
  done so far.
\<close>

datatype reg_pc =
    RegStart
  | RegLoaded endpoint_id
  | RegRegistered endpoint_id
  | RegCounted endpoint_id
  | RegDone "endpoint_id rcp_result"

record reg_thread =
  reg_stream :: stream_id
  reg_bus :: u16
  reg_endpoint :: ep_ref
  reg_pc :: reg_pc

fun reg_thread_step :: "rc_server \<Rightarrow> reg_thread \<Rightarrow> (rc_server \<times> reg_thread) option" where
  "reg_thread_step srv t =
    (case reg_pc t of
       RegStart \<Rightarrow> Some (srv, t\<lparr>reg_pc := RegLoaded (EndpointId (srv_next_endpoint_id srv))\<rparr>)
     | RegLoaded eid \<Rightarrow>
         (case register_binding (srv_endpoints srv) (reg_stream t) (reg_bus t) eid of
            (table, Inl e) \<Rightarrow> Some (srv\<lparr>srv_endpoints := table\<rparr>, t\<lparr>reg_pc := RegDone (Inl e)\<rparr>)
          | (table, Inr _) \<Rightarrow> Some (srv\<lparr>srv_endpoints := table\<rparr>, t\<lparr>reg_pc := RegRegistered eid\<rparr>))
     | RegRegistered eid \<Rightarrow>
         Some (srv\<lparr>srv_next_endpoint_id := srv_next_endpoint_id srv + 1\<rparr>, t\<lparr>reg_pc := RegCounted eid\<rparr>)
     | RegCounted eid \<Rightarrow>
         Some (srv\<lparr>srv_endpoint_impls := (srv_endpoint_impls srv)(eid \<mapsto> reg_endpoint t)\<rparr>,
               t\<lparr>reg_pc := RegDone (Inr eid)\<rparr>)
     | RegDone r \<Rightarrow> None)"

inductive reg_step :: "rc_server \<times> reg_thread list \<Rightarrow> rc_server \<times> reg_thread list \<Rightarrow> bool" where
  RegStep: "i < length ts \<Longrightarrow> reg_thread_step srv (ts ! i) = Some (srv', t') \<Longrightarrow>
     reg_step (srv, ts) (srv', ts[i := t'])"

inductive_cases reg_stepE: "reg_step s s'"

end
