(* ===== verification/Rcp_Mock_Facts.thy ===== *)
theory Rcp_Mock_Facts
  imports Rcp_Mock
begin

text \<open>
  What the RC Server guarantees: the answers to a frame match its requests, what a request can
  change, when a frame is always answered (for endpoints that keep a contract), registration
  by one thread, and what interleaved registrations can do.
\<close>

section \<open>Requests from the wire\<close>

definition request_ok :: "acf_abb_message \<Rightarrow> bool" where
  "request_ok m \<longleftrightarrow> info_in_range (abb_info m) \<and> length (abb_payload m) \<le> 2036"

lemma next_abb_message_ok:
  assumes "next_abb_message b = Inr (m, n)"
  shows "request_ok m"
proof -
  from assms obtain info where info: "decode_byte_message_info (take 8 b) = Inr info"
    and tmb: "take_message_bytes b 8 info = Inr (abb_payload m, n)" and m: "abb_info m = info"
    by (auto simp: next_abb_message_def and_then_eq_Inr rcp_consts split: if_splits)
  have rng: "info_in_range info" using info by (rule decode_in_range)
  then have "unat (acf_msg_length info) \<le> 511"
    by (simp add: info_in_range_def rcp_consts word_le_nat_alt)
  moreover have "abb_payload m = subslice 8 (unat (acf_msg_length info) * 4 - 8 - unat (bmi_pad info)) b"
    using tmb by (auto simp: take_message_bytes_def and_then_eq_Inr Let_def checked_sub_nat_def rcp_consts
        split: if_splits)
  ultimately have "length (abb_payload m) \<le> 2036" by (simp add: length_subslice)
  with rng show ?thesis by (simp add: request_ok_def m)
qed

lemma abb_messages_loop_ok:
  "abb_messages_loop b offset acc = Inr msgs \<Longrightarrow> \<forall>m\<in>set acc. request_ok m \<Longrightarrow> \<forall>m\<in>set msgs. request_ok m"
proof (induction b offset acc rule: abb_messages_loop.induct)
  case (1 b offset acc)
  show ?case
  proof (cases "offset < length b")
    case False
    with 1 show ?thesis by (subst (asm) abb_messages_loop.simps) (auto simp: abb_messages_loop.simps [of b offset acc])
  next
    case True
    with "1.prems"(1) obtain m n where m: "next_abb_message (drop offset b) = Inr (m, n)"
      and loop: "abb_messages_loop b (offset + n) (acc @ [m]) = Inr msgs"
      by (subst (asm) abb_messages_loop.simps) (auto split: sum.splits)
    have "\<forall>m\<in>set (acc @ [m]). request_ok m"
      using "1.prems"(2) next_abb_message_ok [OF m] by simp
    with "1.IH" [OF True m refl loop] show ?thesis .
  qed
qed

lemma decoded_requests_ok: "decode_acf_abb_messages b = Inr msgs \<Longrightarrow> m \<in> set msgs \<Longrightarrow> request_ok m"
  using abb_messages_loop_ok [of b 0 "[]" msgs] by (auto simp: decode_acf_abb_messages_def split: if_splits)

section \<open>What one request does\<close>

definition answers :: "acf_abb_message \<Rightarrow> acf_abb_message \<Rightarrow> bool" where
  "answers request response \<longleftrightarrow>
     byte_bus_id (abb_info response) = byte_bus_id (abb_info request) \<and>
     transaction_num (abb_info response) = transaction_num (abb_info request) \<and>
     bmi_op (abb_info response) = bmi_op (abb_info request) \<and> bmi_rsp (abb_info response)"

lemma handle_abb_Inr:
  assumes "handle_abb ops st sid request = (st', Inr response)"
  shows "abb_info response = (abb_info request)\<lparr>bmi_rsp := True\<rparr>" and "answers request response"
  using assms
  by (auto simp: handle_abb_def build_response_info_def answers_def Let_def split: prod.splits sum.splits)

lemma error_response_answers:
  "build_error_response (abb_info request) e = Some response \<Longrightarrow> answers request response"
  by (auto simp: build_error_response_def build_response_info_def answers_def split: option.splits)

text \<open>The server's part of the state: only a root client's EP0 write changes it.\<close>

definition ep0_write_by_root :: "rc_server \<Rightarrow> stream_id \<Rightarrow> acf_abb_message \<Rightarrow> bool" where
  "ep0_write_by_root srv sid request \<longleftrightarrow>
     is_ep0_address (byte_bus_id (abb_info request)) \<and> bmi_op (abb_info request) \<and> srv_root_client srv = Some sid"

lemma check_general:
  "check_ep0_access_for_stream state General info sid root =
    (if bmi_op info \<and> root \<noteq> Some sid then Inl UnauthorizedAccess else Inr ())"
  by (auto simp: check_ep0_access_for_stream_def check_ep0_access_def access_kind_def is_root_client_def
      check_register_reachable_def check_register_writable_def is_register_writable_def)

lemma handle_ep0_eq:
  "handle_ep0 srv sid request =
    (if bmi_op (abb_info request)
     then if srv_root_client srv = Some sid
       then case decode_general_registers (abb_payload request) of
              Inl e \<Rightarrow> (srv, Inl e) | Inr g \<Rightarrow> (srv\<lparr>srv_general := g\<rparr>, Inr [])
       else (srv, Inl UnauthorizedAccess)
     else (srv, Inr (encode_general_registers (srv_general srv))))"
  by (auto simp: handle_ep0_def check_general)

lemma handle_abb_eq:
  "handle_abb ops (srv, store) sid request =
    (let r = (if is_ep0_address (byte_bus_id (abb_info request))
              then case handle_ep0 srv sid request of (srv', r) \<Rightarrow> ((srv', store), r)
              else case handle_device ops srv store sid request of (store', r) \<Rightarrow> ((srv, store'), r))
     in (fst r, case snd r of Inl e \<Rightarrow> Inl e
          | Inr p \<Rightarrow> Inr \<lparr>abb_info = (abb_info request)\<lparr>bmi_rsp := True\<rparr>, abb_payload = p\<rparr>))"
  by (auto simp: handle_abb_def route_byte_bus_id_def build_response_info_def verify_echo_back_def Let_def
      split: prod.splits sum.splits)

lemma handle_abb_server:
  assumes "handle_abb ops (srv, store) sid request = ((srv', store'), r)"
  shows "srv' = srv \<or> ep0_write_by_root srv sid request \<and>
           (\<exists>g. decode_general_registers (abb_payload request) = Inr g \<and> srv' = srv\<lparr>srv_general := g\<rparr>)"
  using assms
  by (auto simp: handle_abb_eq Let_def handle_ep0_eq ep0_write_by_root_def split: if_splits prod.splits sum.splits)

text \<open>The objects a stream can reach through its bindings.\<close>

definition reaches :: "rc_server \<Rightarrow> stream_id \<Rightarrow> ep_ref \<Rightarrow> bool" where
  "reaches srv sid r \<longleftrightarrow>
     (\<exists>bus eid. lookup_binding (srv_endpoints srv) sid bus = Some eid \<and> srv_endpoint_impls srv eid = Some r)"

lemma handle_device_store:
  assumes "handle_device ops srv store sid request = (store', r)" and "\<not> reaches srv sid x"
  shows "store' x = store x"
  using assms
  by (auto simp: handle_device_def reaches_def split: option.splits if_splits prod.splits sum.splits)

lemma handle_abb_store:
  assumes "handle_abb ops (srv, store) sid request = ((srv', store'), r)" and "\<not> reaches srv sid x"
  shows "store' x = store x"
  using assms handle_device_store [OF _ assms(2)]
  by (fastforce simp: handle_abb_eq Let_def split: if_splits prod.splits)

section \<open>The requests of a frame\<close>

text \<open>The answer to one request, as the loop computes it.\<close>

definition answer_of :: "acf_abb_message \<Rightarrow> acf_abb_message rcp_result \<Rightarrow> acf_abb_message rcp_result" where
  "answer_of request result =
    (case result of Inr response \<Rightarrow> Inr response
     | Inl e \<Rightarrow> (case build_error_response (abb_info request) e of
                   Some response \<Rightarrow> Inr response | None \<Rightarrow> Inl e))"

lemma dispatch_requests_Cons:
  "dispatch_requests ops st sid (request # requests) acc =
    (case handle_abb ops st sid request of (st', result) \<Rightarrow>
      case and_then (answer_of request result) encode_acf_abb of
        Inl e \<Rightarrow> (st', Inl e)
      | Inr encoded \<Rightarrow> dispatch_requests ops st' sid requests (acc @ encoded))"
  by (auto simp: answer_of_def split: prod.splits sum.splits option.splits)

lemma answer_of_answers:
  "handle_abb ops st sid request = (st', result) \<Longrightarrow> answer_of request result = Inr response
     \<Longrightarrow> answers request response"
  by (auto simp: answer_of_def error_response_answers split: sum.splits option.splits dest: handle_abb_Inr(2))

lemma dispatch_requests_answers:
  "dispatch_requests ops st sid requests acc = (st', Inr out) \<Longrightarrow>
     \<exists>responses bs. out = acc @ bs \<and> encode_abb_messages responses = Inr bs \<and> list_all2 answers requests responses"
proof (induction requests arbitrary: st acc)
  case (Cons request requests)
  obtain st1 result where h: "handle_abb ops st sid request = (st1, result)" by fastforce
  from Cons.prems obtain response encoded where a: "answer_of request result = Inr response"
    and e: "encode_acf_abb response = Inr encoded"
    and d: "dispatch_requests ops st1 sid requests (acc @ encoded) = (st', Inr out)"
    unfolding dispatch_requests_Cons h by (auto split: sum.splits simp: and_then_eq_Inr)
  from Cons.IH [OF d] obtain responses bs where "out = (acc @ encoded) @ bs"
    "encode_abb_messages responses = Inr bs" "list_all2 answers requests responses"
    by blast
  then have "out = acc @ (encoded @ bs) \<and> encode_abb_messages (response # responses) = Inr (encoded @ bs)
      \<and> list_all2 answers (request # requests) (response # responses)"
    using answer_of_answers [OF h a] by (simp add: e)
  then show ?case by blast
qed simp

lemma answers_on_wire: "answers request response \<Longrightarrow> answers request (on_wire response)"
  by (simp add: answers_def)

lemma dispatch_preserves:
  assumes step: "\<And>srv store request srv' store' r. P srv store \<Longrightarrow>
      handle_abb ops (srv, store) sid request = ((srv', store'), r) \<Longrightarrow> P srv' store'"
    and "P srv store" and "dispatch_requests ops (srv, store) sid requests acc = ((srv', store'), out)"
  shows "P srv' store'"
  using assms(2, 3)
proof (induction requests arbitrary: srv store acc)
  case (Cons request requests)
  obtain srv1 store1 result where h: "handle_abb ops (srv, store) sid request = ((srv1, store1), result)"
    by (metis prod.collapse)
  have p: "P srv1 store1" using step [OF Cons.prems(1) h] .
  show ?case
    using Cons.prems(2) Cons.IH [OF p] p
    unfolding dispatch_requests_Cons h by (auto split: sum.splits)
qed simp

lemma handle_ntscf_frame_cases:
  "handle_ntscf_frame ops st sid frame =
    (case and_then (decode_ntscf_frame frame) (\<lambda>(_, b). decode_acf_abb_messages b) of
       Inl e \<Rightarrow> (st, Inl e)
     | Inr requests \<Rightarrow>
         (case dispatch_requests ops st sid requests [] of
            (st', Inl e) \<Rightarrow> (st', Inl e)
          | ((srv, store), Inr out) \<Rightarrow>
              ((srv\<lparr>srv_sequence_num := srv_sequence_num srv + 1\<rparr>, store),
               encode_ntscf_frame sid (ucast (srv_sequence_num srv)) out)))"
  by (auto simp: handle_ntscf_frame_def Let_def split: sum.splits prod.splits)

section \<open>Endpoints that keep a contract\<close>

text \<open>
  An endpoint keeps the contract when a read returns at most what fits one message, a write of
  anything a message can carry keeps it well, and every error it reports has a wire code. Behind
  such endpoints a request is always answered, unless the root client writes EP0 with a payload
  that is shorter than the register block.
\<close>

definition no_short_ep0_write :: "rc_server \<Rightarrow> stream_id \<Rightarrow> acf_abb_message \<Rightarrow> bool" where
  "no_short_ep0_write srv sid request \<longleftrightarrow>
     ep0_write_by_root srv sid request \<longrightarrow> 65 \<le> length (abb_payload request)"

definition answerable :: "acf_abb_message rcp_result \<Rightarrow> bool" where
  "answerable result \<longleftrightarrow>
     (case result of Inl e \<Rightarrow> tc18_wire_code e \<noteq> None | Inr response \<Rightarrow> length (abb_payload response) \<le> 2036)"

lemma encode_response:
  assumes "request_ok request" and "length p \<le> 2036"
  shows "\<exists>bs. encode_acf_abb \<lparr>abb_info = (abb_info request)\<lparr>bmi_rsp := a, bmi_err := b\<rparr>, abb_payload = p\<rparr> = Inr bs"
  using assms by (simp add: encode_acf_abb_Inr_iff request_ok_def info_in_range_def)

lemma answer_of_encodable:
  assumes "request_ok request" and "handle_abb ops st sid request = (st', result)" and "answerable result"
  shows "\<exists>response bs. answer_of request result = Inr response \<and> encode_acf_abb response = Inr bs"
proof (cases result)
  case (Inl e)
  then obtain code where "tc18_wire_code e = Some code" using assms(3) by (auto simp: answerable_def)
  then show ?thesis
    using encode_response [OF assms(1), of "[code]" True True]
    by (simp add: Inl answer_of_def build_error_response_def build_response_info_def)
next
  case (Inr response)
  have "abb_info response = (abb_info request)\<lparr>bmi_rsp := True, bmi_err := bmi_err (abb_info request)\<rparr>"
    using handle_abb_Inr(1) [OF assms(2) [unfolded Inr]] by simp
  then have "response = \<lparr>abb_info = (abb_info request)\<lparr>bmi_rsp := True, bmi_err := bmi_err (abb_info request)\<rparr>,
      abb_payload = abb_payload response\<rparr>" by simp
  moreover have "length (abb_payload response) \<le> 2036" using assms(3) by (simp add: Inr answerable_def)
  ultimately have "\<exists>bs. encode_acf_abb response = Inr bs" using encode_response [OF assms(1)] by metis
  then show ?thesis by (simp add: Inr answer_of_def)
qed

locale endpoint_contract =
  fixes ops :: "'ep endpoint_ops"
    and ok :: "'ep \<Rightarrow> bool"
  assumes read_ok: "ok e \<Longrightarrow> ok (fst (ep_read ops e n))"
    and read_result: "ok e \<Longrightarrow>
      (case snd (ep_read ops e n) of Inl err \<Rightarrow> tc18_wire_code err \<noteq> None | Inr d \<Rightarrow> length d \<le> 2036)"
    and write_ok: "ok e \<Longrightarrow> length p \<le> 2036 \<Longrightarrow> ok (fst (ep_write ops e p))"
    and write_result: "ok e \<Longrightarrow> length p \<le> 2036 \<Longrightarrow> snd (ep_write ops e p) = Inl err \<Longrightarrow> tc18_wire_code err \<noteq> None"
begin

definition store_ok :: "'ep ep_store \<Rightarrow> bool" where
  "store_ok store \<longleftrightarrow> (\<forall>r. ok (store r))"

lemma store_okI: "(\<And>r. ok (store r)) \<Longrightarrow> store_ok store"
  by (simp add: store_ok_def)

lemma handle_device_contract:
  assumes "store_ok store" and "length (abb_payload request) \<le> 2036"
    and "handle_device ops srv store sid request = (store', r)"
  shows "store_ok store'"
    and "case r of Inl e \<Rightarrow> tc18_wire_code e \<noteq> None | Inr p \<Rightarrow> length p \<le> 2036"
proof -
  have ok: "ok (store x)" for x using assms(1) by (simp add: store_ok_def)
  have rd: "ok e \<and> (case r of Inl err \<Rightarrow> tc18_wire_code err \<noteq> None | Inr d \<Rightarrow> length d \<le> 2036)"
    if "ep_read ops (store x) n = (e, r)" for x n e r
    using read_ok [OF ok, of x n] read_result [OF ok, of x n] that by simp
  have wr: "ok e \<and> (\<forall>err. r = Inl err \<longrightarrow> tc18_wire_code err \<noteq> None)"
    if "ep_write ops (store x) (abb_payload request) = (e, r)" for x e r
    using write_ok [OF ok assms(2), of x] write_result [OF ok assms(2), of x] that by simp
  show "store_ok store'"
    using assms(3) ok
    by (auto simp: handle_device_def store_ok_def split: option.splits if_splits prod.splits sum.splits
        dest!: rd wr)
  show "case r of Inl e \<Rightarrow> tc18_wire_code e \<noteq> None | Inr p \<Rightarrow> length p \<le> 2036"
    using assms(3)
    by (auto simp: handle_device_def split: option.splits if_splits prod.splits dest!: rd wr split: sum.splits)
qed

lemma handle_abb_contract:
  assumes "store_ok store" and "request_ok request" and "no_short_ep0_write srv sid request"
    and "handle_abb ops (srv, store) sid request = ((srv', store'), result)"
  shows "store_ok store'" and "answerable result"
proof -
  have len: "length (abb_payload request) \<le> 2036" using assms(2) by (simp add: request_ok_def)
  have "store_ok store' \<and> answerable result"
  proof (cases "is_ep0_address (byte_bus_id (abb_info request))")
    case True
    have "decode_general_registers (abb_payload request) \<noteq> Inl e" if "ep0_write_by_root srv sid request" for e
    proof -
      have "65 \<le> length (abb_payload request)" using assms(3) that by (simp add: no_short_ep0_write_def)
      then show ?thesis
        by (auto simp: decode_general_registers_def and_then_eq_Inl descriptor_drop rcp_consts)
    qed
    then show ?thesis
      using assms(1, 4) True
      by (auto simp: handle_abb_eq handle_ep0_eq Let_def answerable_def ep0_write_by_root_def
          general_block.length_enc split: if_splits sum.splits)
  next
    case False
    obtain store1 r where d: "handle_device ops srv store sid request = (store1, r)" by fastforce
    show ?thesis
      using assms(4) False handle_device_contract [OF assms(1) len d]
      by (auto simp: handle_abb_eq d Let_def answerable_def split: sum.splits)
  qed
  then show "store_ok store'" and "answerable result" by simp_all
qed

lemma dispatch_contract:
  assumes "store_ok store" and "\<forall>m\<in>set requests. request_ok m \<and> no_short_ep0_write srv sid m"
  shows "\<exists>srv' store' out. dispatch_requests ops (srv, store) sid requests acc = ((srv', store'), Inr out)
      \<and> store_ok store'"
  using assms
proof (induction requests arbitrary: srv store acc)
  case (Cons request requests)
  obtain srv1 store1 result where h: "handle_abb ops (srv, store) sid request = ((srv1, store1), result)"
    by (metis prod.collapse)
  have c: "store_ok store1" "answerable result"
    using handle_abb_contract [OF Cons.prems(1) _ _ h] Cons.prems(2) by simp_all
  obtain response bs where a: "answer_of request result = Inr response" "encode_acf_abb response = Inr bs"
    using answer_of_encodable [OF _ h c(2)] Cons.prems(2) by auto
  have "srv_root_client srv1 = srv_root_client srv"
    using handle_abb_server [OF h] by auto
  then have "\<forall>m\<in>set requests. request_ok m \<and> no_short_ep0_write srv1 sid m"
    using Cons.prems(2) by (auto simp: no_short_ep0_write_def ep0_write_by_root_def)
  from Cons.IH [OF c(1) this, of "acc @ bs"] show ?case
    unfolding dispatch_requests_Cons h by (simp add: a)
qed simp

end

definition mock_ok :: "mock_endpoint \<Rightarrow> bool" where
  "mock_ok ep \<longleftrightarrow> length (mock_buf ep) \<le> 2036"

interpretation mock: endpoint_contract mock_ops mock_ok
  by unfold_locales (simp_all add: mock_ops_def mock_read_def mock_write_def mock_ok_def Let_def)

section \<open>Registration by one thread\<close>

definition resolve :: "rc_server \<Rightarrow> stream_id \<Rightarrow> u16 \<Rightarrow> ep_ref option" where
  "resolve srv sid bus = Option.bind (lookup_binding (srv_endpoints srv) sid bus) (srv_endpoint_impls srv)"

text \<open>
  Every binding leads to an object, every id handed out is below the counter, and no two bindings
  share an id.
\<close>

definition registry_ok :: "rc_server \<Rightarrow> bool" where
  "registry_ok srv \<longleftrightarrow>
     (\<forall>sid bus eid. lookup_binding (srv_endpoints srv) sid bus = Some eid \<longrightarrow>
        srv_endpoint_impls srv eid \<noteq> None \<and> endpoint_raw eid < srv_next_endpoint_id srv) \<and>
     (\<forall>sid bus sid' bus' eid. lookup_binding (srv_endpoints srv) sid bus = Some eid \<longrightarrow>
        lookup_binding (srv_endpoints srv) sid' bus' = Some eid \<longrightarrow> sid = sid' \<and> bus = bus')"

lemma registry_ok_new: "registry_ok (rc_server_new g)"
  by (simp add: registry_ok_def rc_server_new_def)

lemma u32_less_Suc:
  assumes "(n :: u32) \<noteq> - 1"
  shows "n < n + 1"
proof -
  have "uint n \<noteq> 2 ^ 32 - 1"
    using assms by (simp add: word_uint_eq_iff unsigned_minus_1_eq_mask mask_eq_exp_minus_1)
  moreover have "uint n < 2 ^ 32" using unsigned_less [of n, where ?'a = int] by simp
  ultimately have "uint (n + 1) = uint n + 1" by (simp add: uint_word_ariths)
  then show ?thesis by (simp add: word_less_def)
qed

lemma registry_fresh:
  "registry_ok srv \<Longrightarrow> lookup_binding (srv_endpoints srv) s b \<noteq> Some (EndpointId (srv_next_endpoint_id srv))"
  unfolding registry_ok_def by (metis endpoint_id.sel less_irrefl)

lemma register_endpoint_cases:
  "register_endpoint srv sid bus r =
    (let eid = EndpointId (srv_next_endpoint_id srv);
         t = register_binding (srv_endpoints srv) sid bus eid in
     if bus \<le> BYTE_MESSAGE_INFO_11BIT_MAX \<and> lookup_binding (srv_endpoints srv) sid bus = None
     then (srv\<lparr>srv_endpoints := fst t, srv_next_endpoint_id := srv_next_endpoint_id srv + 1,
               srv_endpoint_impls := (srv_endpoint_impls srv)(eid \<mapsto> r)\<rparr>, Inr eid)
     else (srv\<lparr>srv_endpoints := fst t\<rparr>,
           Inl (if bus > BYTE_MESSAGE_INFO_11BIT_MAX then InvalidSize else EpError)))"
  using register_binding_result [of "srv_endpoints srv" sid bus "EndpointId (srv_next_endpoint_id srv)"]
  by (auto simp: register_endpoint_def Let_def split: prod.splits sum.splits if_splits)

lemma register_endpoint_ok:
  assumes "registry_ok srv" and "srv_next_endpoint_id srv \<noteq> - 1"
  shows "registry_ok (fst (register_endpoint srv sid bus r))"
proof -
  have "m < srv_next_endpoint_id srv \<Longrightarrow> m < srv_next_endpoint_id srv + 1" for m
    using u32_less_Suc [OF assms(2)] by (rule less_trans [rotated])
  then show ?thesis
    using assms(1) u32_less_Suc [OF assms(2)] registry_fresh [OF assms(1)]
    unfolding register_endpoint_cases registry_ok_def Let_def
    by (auto simp: lookup_register_binding split: if_splits)
qed

lemma resolve_register_endpoint:
  assumes "registry_ok srv"
  shows "resolve (fst (register_endpoint srv sid bus r)) sid' bus' =
    (if sid' = sid \<and> bus' = bus \<and> bus \<le> BYTE_MESSAGE_INFO_11BIT_MAX \<and> lookup_binding (srv_endpoints srv) sid bus = None
     then Some r else resolve srv sid' bus')"
proof -
  show ?thesis
    using registry_fresh [OF assms]
    unfolding register_endpoint_cases resolve_def Let_def
    by (auto simp: lookup_register_binding split: option.splits Option.bind_splits)
qed

section \<open>Registrations that interleave\<close>

definition reg_start :: "stream_id \<Rightarrow> u16 \<Rightarrow> ep_ref \<Rightarrow> reg_thread" where
  "reg_start sid bus r = \<lparr>reg_stream = sid, reg_bus = bus, reg_endpoint = r, reg_pc = RegStart\<rparr>"

fun run_schedule :: "rc_server \<times> reg_thread list \<Rightarrow> nat list \<Rightarrow> (rc_server \<times> reg_thread list) option" where
  "run_schedule (srv, ts) [] = Some (srv, ts)"
| "run_schedule (srv, ts) (i # is) =
    (if i < length ts
     then (case reg_thread_step srv (ts ! i) of
             None \<Rightarrow> None | Some (srv', t') \<Rightarrow> run_schedule (srv', ts[i := t']) is)
     else None)"

lemma run_schedule_reachable: "run_schedule s is = Some s' \<Longrightarrow> reg_step\<^sup>*\<^sup>* s s'"
  by (induction s "is" rule: run_schedule.induct)
    (auto simp del: reg_thread_step.simps split: if_splits option.splits prod.splits intro: converse_rtranclp_into_rtranclp reg_step.intros)

text \<open>
  Alone, a thread does what \<open>register_endpoint\<close> does. Of two threads that both load the counter
  before either increments it, both are told the same id, and the object inserted last answers
  for both bindings.
\<close>

lemma register_endpoint_alone:
  assumes "register_endpoint srv sid bus r = (srv', result)"
  shows "reg_step\<^sup>*\<^sup>* (srv, [reg_start sid bus r]) (srv', [(reg_start sid bus r)\<lparr>reg_pc := RegDone result\<rparr>])"
proof (cases result)
  case (Inl e)
  have "run_schedule (srv, [reg_start sid bus r]) [0, 0]
      = Some (srv', [(reg_start sid bus r)\<lparr>reg_pc := RegDone result\<rparr>])"
    using assms by (auto simp: Inl register_endpoint_def reg_start_def Let_def split: prod.splits sum.splits)
  then show ?thesis by (rule run_schedule_reachable)
next
  case (Inr eid)
  have "run_schedule (srv, [reg_start sid bus r]) [0, 0, 0, 0]
      = Some (srv', [(reg_start sid bus r)\<lparr>reg_pc := RegDone result\<rparr>])"
    using assms by (auto simp: Inr register_endpoint_def reg_start_def Let_def split: prod.splits sum.splits)
  then show ?thesis by (rule run_schedule_reachable)
qed

lemma registration_race_lemma:
  assumes "(sid, bus) \<noteq> (sid', bus')" and "bus \<le> BYTE_MESSAGE_INFO_11BIT_MAX" and "bus' \<le> BYTE_MESSAGE_INFO_11BIT_MAX"
    and "lookup_binding (srv_endpoints srv) sid bus = None" and "lookup_binding (srv_endpoints srv) sid' bus' = None"
  shows "\<exists>srv'. reg_step\<^sup>*\<^sup>* (srv, [reg_start sid bus r, reg_start sid' bus' r'])
     (srv', [(reg_start sid bus r)\<lparr>reg_pc := RegDone (Inr (EndpointId (srv_next_endpoint_id srv)))\<rparr>,
             (reg_start sid' bus' r')\<lparr>reg_pc := RegDone (Inr (EndpointId (srv_next_endpoint_id srv)))\<rparr>])
   \<and> resolve srv' sid bus = Some r' \<and> resolve srv' sid' bus' = Some r'"
proof -
  define eid where "eid = EndpointId (srv_next_endpoint_id srv)"
  obtain t where t: "register_binding (srv_endpoints srv) sid bus eid = (t, Inr ())"
    using register_binding_result [of "srv_endpoints srv" sid bus eid] assms(2, 4)
    by (cases "register_binding (srv_endpoints srv) sid bus eid") auto
  have lt: "lookup_binding t s b = (if s = sid \<and> b = bus then Some eid else lookup_binding (srv_endpoints srv) s b)" for s b
    using lookup_register_binding [of "srv_endpoints srv" sid bus eid s b] assms(2, 4) by (simp add: t)
  have none: "lookup_binding t sid' bus' = None" using assms(1, 5) by (auto simp: lt)
  obtain t' where t': "register_binding t sid' bus' eid = (t', Inr ())"
    using register_binding_result [of t sid' bus' eid] assms(3) none
    by (cases "register_binding t sid' bus' eid") auto
  have lt': "lookup_binding t' s b = (if s = sid' \<and> b = bus' then Some eid else lookup_binding t s b)" for s b
    using lookup_register_binding [of t sid' bus' eid s b] assms(3) none by (simp add: t')
  define srv' where "srv' = srv\<lparr>srv_endpoints := t', srv_next_endpoint_id := srv_next_endpoint_id srv + 1 + 1,
      srv_endpoint_impls := (srv_endpoint_impls srv)(eid \<mapsto> r, eid \<mapsto> r')\<rparr>"
  have "run_schedule (srv, [reg_start sid bus r, reg_start sid' bus' r']) [0, 1, 0, 1, 0, 1, 0, 1]
      = Some (srv', [(reg_start sid bus r)\<lparr>reg_pc := RegDone (Inr eid)\<rparr>, (reg_start sid' bus' r')\<lparr>reg_pc := RegDone (Inr eid)\<rparr>])"
    by (simp add: reg_start_def t t' srv'_def flip: eid_def)
  then have "reg_step\<^sup>*\<^sup>* (srv, [reg_start sid bus r, reg_start sid' bus' r'])
     (srv', [(reg_start sid bus r)\<lparr>reg_pc := RegDone (Inr eid)\<rparr>, (reg_start sid' bus' r')\<lparr>reg_pc := RegDone (Inr eid)\<rparr>])"
    by (rule run_schedule_reachable)
  moreover have "resolve srv' sid bus = Some r'" "resolve srv' sid' bus' = Some r'"
    by (simp_all add: resolve_def srv'_def lt lt')
  ultimately show ?thesis unfolding eid_def by blast
qed

section \<open>A batch that is given up\<close>

text \<open>
  A root client's EP0 write that is shorter than the register block fails with an error that has
  no wire code: the call ends, while the requests before it have taken effect.
\<close>

lemma short_ep0_write_aborts:
  assumes "ep0_write_by_root srv sid request" and "length (abb_payload request) < 65"
  shows "dispatch_requests ops (srv, store) sid (request # requests) acc = ((srv, store), Inl ShortFrame)"
proof -
  have "handle_abb ops (srv, store) sid request = ((srv, store), Inl ShortFrame)"
    using assms by (simp add: handle_abb_eq handle_ep0_eq ep0_write_by_root_def decode_general_registers_def rcp_consts)
  then show ?thesis by (simp add: build_error_response_def)
qed

lemma ep0_write_then_short_write:
  assumes "ep0_write_by_root srv sid w" and "request_ok w" and "decode_general_registers (abb_payload w) = Inr g"
    and "ep0_write_by_root srv sid request" and "length (abb_payload request) < 65"
  shows "dispatch_requests ops (srv, store) sid (w # request # requests) acc
     = ((srv\<lparr>srv_general := g\<rparr>, store), Inl ShortFrame)"
proof -
  have h: "handle_abb ops (srv, store) sid w = ((srv\<lparr>srv_general := g\<rparr>, store),
      Inr \<lparr>abb_info = (abb_info w)\<lparr>bmi_rsp := True\<rparr>, abb_payload = []\<rparr>)"
    using assms(1, 3) by (simp add: handle_abb_eq handle_ep0_eq ep0_write_by_root_def)
  have "ep0_write_by_root (srv\<lparr>srv_general := g\<rparr>) sid request"
    using assms(4) by (simp add: ep0_write_by_root_def)
  note abort = short_ep0_write_aborts [OF this assms(5)]
  obtain bs where "encode_acf_abb \<lparr>abb_info = (abb_info w)\<lparr>bmi_rsp := True\<rparr>, abb_payload = []\<rparr> = Inr bs"
    using encode_response [OF assms(2), of "[]", where a = True and b = "bmi_err (abb_info w)"] by auto
  then show ?thesis
    by (subst dispatch_requests_Cons) (simp add: h answer_of_def abort del: dispatch_requests.simps)
qed

section \<open>Properties\<close>

text \<open>C20: a short EP0 write ends the batch. When the root client writes the registers and, later in the same frame, writes EP0 with less than a register block, the call fails although the first write has taken effect and its response is lost.\<close>

theorem short_write_ends_batch:
  assumes "ep0_write_by_root srv sid w" and "request_ok w" and "decode_general_registers (abb_payload w) = Inr g"
    and "ep0_write_by_root srv sid request" and "length (abb_payload request) < 65"
  shows "dispatch_requests ops (srv, store) sid (w # request # requests) acc
     = ((srv\<lparr>srv_general := g\<rparr>, store), Inl ShortFrame)"
  using assms by (rule ep0_write_then_short_write)

lemma short_write_ends_batch_witness:
  "\<exists>w request :: acf_abb_message. \<exists>g.
     ep0_write_by_root ((rc_server_new g)\<lparr>srv_root_client := Some (stream_id_from_u64 5)\<rparr>) (stream_id_from_u64 5) w
     \<and> decode_general_registers (abb_payload w) = Inr g \<and> length (abb_payload request) < 65
     \<and> dispatch_requests mock_ops
         ((rc_server_new g)\<lparr>srv_root_client := Some (stream_id_from_u64 5)\<rparr>, \<lambda>_. mock_endpoint_new Gpio [])
         (stream_id_from_u64 5) [w, request] []
       = (((rc_server_new g)\<lparr>srv_root_client := Some (stream_id_from_u64 5), srv_general := g\<rparr>,
           \<lambda>_. mock_endpoint_new Gpio []), Inl ShortFrame)"
proof -
  obtain g where g: "decode_general_registers (replicate 65 0) = Inr g"
    using general_block.dec_exact [of "replicate 65 0"] by auto
  define info where "info = byte_message_info_default\<lparr>bmi_op := True\<rparr>"
  define w where "w = \<lparr>abb_info = info, abb_payload = replicate 65 0\<rparr>"
  define request where "request = \<lparr>abb_info = info, abb_payload = [1, 2]\<rparr>"
  define srv where "srv = (rc_server_new g)\<lparr>srv_root_client := Some (stream_id_from_u64 5)\<rparr>"
  have 1: "ep0_write_by_root srv (stream_id_from_u64 5) w" "ep0_write_by_root srv (stream_id_from_u64 5) request"
    by (simp_all add: ep0_write_by_root_def w_def request_def info_def srv_def is_ep0_address_def EP0_BYTE_BUS_ID_def
        byte_message_info_default_def)
  have 2: "request_ok w"
    by (simp add: request_ok_def w_def info_def info_in_range_def byte_message_info_default_def evt_default_def rcp_consts)
  have 3: "decode_general_registers (abb_payload w) = Inr g" "length (abb_payload request) < 65"
    using g by (simp_all add: w_def request_def)
  have "srv\<lparr>srv_general := g\<rparr> = (rc_server_new g)\<lparr>srv_root_client := Some (stream_id_from_u64 5), srv_general := g\<rparr>"
    by (simp add: srv_def)
  with short_write_ends_batch [OF 1(1) 2 3(1) 1(2) 3(2), of mock_ops "\<lambda>_. mock_endpoint_new Gpio []" "[]" "[]"] 1(1) 3
  show ?thesis unfolding srv_def by metis
qed

text \<open>C21: interleaved registrations can share an endpoint id. If two threads register different free bindings and both read the counter before either increments it, both are told the same id, and afterwards both bindings lead to the object that was inserted last.\<close>

theorem registration_race:
  assumes "(sid, bus) \<noteq> (sid', bus')" and "bus \<le> BYTE_MESSAGE_INFO_11BIT_MAX" and "bus' \<le> BYTE_MESSAGE_INFO_11BIT_MAX"
    and "lookup_binding (srv_endpoints srv) sid bus = None" and "lookup_binding (srv_endpoints srv) sid' bus' = None"
  shows "\<exists>srv'. reg_step\<^sup>*\<^sup>* (srv, [reg_start sid bus r, reg_start sid' bus' r'])
     (srv', [(reg_start sid bus r)\<lparr>reg_pc := RegDone (Inr (EndpointId (srv_next_endpoint_id srv)))\<rparr>,
             (reg_start sid' bus' r')\<lparr>reg_pc := RegDone (Inr (EndpointId (srv_next_endpoint_id srv)))\<rparr>])
   \<and> resolve srv' sid bus = Some r' \<and> resolve srv' sid' bus' = Some r'"
  using assms by (rule registration_race_lemma)

lemma registration_race_witness:
  "\<exists>g srv'. reg_step\<^sup>*\<^sup>* (rc_server_new g, [reg_start (stream_id_from_u64 5) 1 10, reg_start (stream_id_from_u64 5) 2 20])
     (srv', [(reg_start (stream_id_from_u64 5) 1 10)\<lparr>reg_pc := RegDone (Inr (EndpointId 0))\<rparr>,
             (reg_start (stream_id_from_u64 5) 2 20)\<lparr>reg_pc := RegDone (Inr (EndpointId 0))\<rparr>])
   \<and> resolve srv' (stream_id_from_u64 5) 1 = Some 20 \<and> resolve srv' (stream_id_from_u64 5) 2 = Some 20"
  using registration_race [of "stream_id_from_u64 5" 1 "stream_id_from_u64 5" 2 "rc_server_new g" 10 20 for g]
  by (simp add: rc_server_new_def rcp_consts)

text \<open>C22: registration by one thread is sound. As long as the 32-bit counter has not reached its last value, a registration keeps the registry in order (every binding has an object, ids stay below the counter, no two bindings share one) and from then on the new binding, and no other, leads to the new object.\<close>

theorem register_endpoint_sound:
  assumes "registry_ok srv" and "srv_next_endpoint_id srv \<noteq> - 1"
  shows "registry_ok (fst (register_endpoint srv sid bus r))
    \<and> resolve (fst (register_endpoint srv sid bus r)) sid' bus' =
       (if sid' = sid \<and> bus' = bus \<and> bus \<le> BYTE_MESSAGE_INFO_11BIT_MAX
           \<and> lookup_binding (srv_endpoints srv) sid bus = None
        then Some r else resolve srv sid' bus')"
  using register_endpoint_ok [OF assms] resolve_register_endpoint [OF assms(1)] by simp

lemma register_endpoint_sound_witness:
  "\<exists>g. registry_ok (fst (register_endpoint (rc_server_new g) (stream_id_from_u64 5) 3 9))
    \<and> resolve (fst (register_endpoint (rc_server_new g) (stream_id_from_u64 5) 3 9)) (stream_id_from_u64 5) 3 = Some 9"
  using register_endpoint_sound [OF registry_ok_new, of g "stream_id_from_u64 5" 3 9 "stream_id_from_u64 5" 3 for g]
  by (simp add: rc_server_new_def rcp_consts)


end
