(* ===== verification/Rcp_Mock_Wire.thy ===== *)
theory Rcp_Mock_Wire
  imports Rcp_Mock_Facts
begin

text \<open>
  The RC Server seen from the wire: the frame a client encodes, the server's handling, and the
  reply the client decodes.
\<close>

section \<open>From a client's messages to the server's requests\<close>

definition frame_requests :: "bytes \<Rightarrow> acf_abb_message list rcp_result" where
  "frame_requests frame = and_then (decode_ntscf_frame frame) (\<lambda>(_, b). decode_acf_abb_messages b)"

lemma handle_frame_cases:
  "handle_ntscf_frame ops st sid frame =
    (case frame_requests frame of
       Inl e \<Rightarrow> (st, Inl e)
     | Inr requests \<Rightarrow>
         (case dispatch_requests ops st sid requests [] of
            (st', Inl e) \<Rightarrow> (st', Inl e)
          | ((srv, store), Inr out) \<Rightarrow>
              ((srv\<lparr>srv_sequence_num := srv_sequence_num srv + 1\<rparr>, store),
               encode_ntscf_frame sid (ucast (srv_sequence_num srv)) out)))"
  unfolding frame_requests_def by (rule handle_ntscf_frame_cases)

lemma frame_requests_encoded:
  assumes "encode_abb_messages msgs = Inr body" and "msgs \<noteq> []" and "encode_ntscf_frame sid n body = Inr frame"
  shows "frame_requests frame = Inr (map on_wire msgs)"
  using decode_encode_ntscf_frame [OF assms(3)] decode_encode_abb_messages [OF assms(1, 2)]
  by (simp add: frame_requests_def)

lemma frame_requests_ok: "frame_requests frame = Inr requests \<Longrightarrow> m \<in> set requests \<Longrightarrow> request_ok m"
  by (auto simp: frame_requests_def and_then_eq_Inr dest: decoded_requests_ok)

lemma frame_requests_nonempty: "frame_requests frame = Inr requests \<Longrightarrow> requests \<noteq> []"
  by (auto simp: frame_requests_def and_then_eq_Inr dest: decode_acf_abb_messages_nonempty)

lemma dispatch_sequence_num:
  assumes "dispatch_requests ops (srv, store) sid requests acc = ((srv', store'), out)"
  shows "srv_sequence_num srv' = srv_sequence_num srv"
proof (rule dispatch_preserves [where P = "\<lambda>s _. srv_sequence_num s = srv_sequence_num srv", OF _ _ assms])
  fix s t request s' t' r
  assume "srv_sequence_num s = srv_sequence_num srv" and "handle_abb ops (s, t) sid request = ((s', t'), r)"
  then show "srv_sequence_num s' = srv_sequence_num srv" using handle_abb_server by fastforce
qed simp

section \<open>Replies\<close>

text \<open>What a client sees in a reply: the header and the messages.\<close>

definition reply_of :: "stream_id \<Rightarrow> u8 \<Rightarrow> acf_abb_message list \<Rightarrow> bytes \<Rightarrow> bool" where
  "reply_of sid seq responses reply \<longleftrightarrow>
     (\<exists>len body. decode_ntscf_frame reply =
        Inr (\<lparr>ntscf_sequence_num = seq, ntscf_data_length = len, ntscf_stream_id = stream_id_to_u64 sid\<rparr>, body)
      \<and> decode_acf_abb_messages body = Inr responses)"

lemma handled_frame_reply:
  assumes req: "frame_requests frame = Inr requests"
    and h: "handle_ntscf_frame ops (srv, store) sid frame = (st', Inr reply)"
  shows "\<exists>responses. reply_of sid (ucast (srv_sequence_num srv)) responses reply \<and> list_all2 answers requests responses"
proof -
  from h req obtain srv1 store1 out
    where d: "dispatch_requests ops (srv, store) sid requests [] = ((srv1, store1), Inr out)"
      and e: "encode_ntscf_frame sid (ucast (srv_sequence_num srv1)) out = Inr reply"
    by (auto simp: handle_frame_cases split: prod.splits sum.splits)
  from dispatch_requests_answers [OF d] obtain responses
    where enc: "encode_abb_messages responses = Inr out" and ans: "list_all2 answers requests responses"
    by auto
  have "responses \<noteq> []"
    using ans frame_requests_nonempty [OF req] by auto
  then have "decode_acf_abb_messages out = Inr (map on_wire responses)"
    using enc by (rule decode_encode_abb_messages [rotated])
  moreover have "list_all2 answers requests (map on_wire responses)"
    using ans by (auto simp: list_all2_conv_all_nth answers_on_wire)
  ultimately show ?thesis
    using decode_encode_ntscf_frame [OF e] dispatch_sequence_num [OF d]
    by (auto simp: reply_of_def)
qed

lemma dispatched_frame_handled:
  assumes req: "frame_requests frame = Inr requests"
    and d: "dispatch_requests ops (srv, store) sid requests [] = ((srv', store'), Inr out)"
    and len: "length out \<le> 2047"
  shows "\<exists>reply. handle_ntscf_frame ops (srv, store) sid frame
      = ((srv'\<lparr>srv_sequence_num := srv_sequence_num srv + 1\<rparr>, store'), Inr reply)"
proof -
  have "\<exists>reply. encode_ntscf_frame sid (ucast (srv_sequence_num srv')) out = Inr reply"
    using len by (simp add: encode_ntscf_frame_cases)
  then show ?thesis using req d dispatch_sequence_num [OF d] by (auto simp: handle_frame_cases)
qed

lemma dispatch_single:
  assumes "dispatch_requests ops st sid [request] [] = (st', Inr out)"
  shows "length out \<le> 2044"
proof -
  from assms obtain response where "encode_acf_abb response = Inr out"
    unfolding dispatch_requests_Cons by (auto split: prod.splits sum.splits simp: and_then_eq_Inr)
  then show ?thesis by (rule encode_acf_abb_length(3))
qed

text \<open>What a frame leaves alone.\<close>

definition server_frame :: "stream_id \<Rightarrow> rc_server \<Rightarrow> rc_server \<Rightarrow> bool" where
  "server_frame sid srv srv' \<longleftrightarrow>
     srv_state srv' = srv_state srv \<and> srv_root_client srv' = srv_root_client srv
     \<and> srv_endpoints srv' = srv_endpoints srv \<and> srv_endpoint_impls srv' = srv_endpoint_impls srv
     \<and> srv_next_endpoint_id srv' = srv_next_endpoint_id srv
     \<and> (srv_root_client srv \<noteq> Some sid \<longrightarrow> srv_general srv' = srv_general srv)"

lemma handled_frame_end:
  assumes "handle_ntscf_frame ops (srv, store) sid frame = ((srv', store'), result)"
  shows "(srv', store') = (srv, store)
    \<or> (\<exists>requests srv1 out. dispatch_requests ops (srv, store) sid requests [] = ((srv1, store'), out)
         \<and> (srv' = srv1 \<or> srv' = srv1\<lparr>srv_sequence_num := srv_sequence_num srv1 + 1\<rparr>))"
  using assms by (auto simp: handle_frame_cases split: sum.splits prod.splits)

lemma handle_abb_server_frame:
  assumes "server_frame sid srv s" and "handle_abb ops (s, t) sid request = ((s', t'), r)"
  shows "server_frame sid srv s'"
  using assms(1) handle_abb_server [OF assms(2)] by (auto simp: server_frame_def ep0_write_by_root_def)

lemma handled_frame_server:
  assumes "handle_ntscf_frame ops (srv, store) sid frame = ((srv', store'), result)"
  shows "srv_state srv' = srv_state srv \<and> srv_root_client srv' = srv_root_client srv
     \<and> srv_endpoints srv' = srv_endpoints srv \<and> srv_endpoint_impls srv' = srv_endpoint_impls srv
     \<and> srv_next_endpoint_id srv' = srv_next_endpoint_id srv
     \<and> (srv_root_client srv \<noteq> Some sid \<longrightarrow> srv_general srv' = srv_general srv)"
proof -
  have "server_frame sid srv srv1" if "dispatch_requests ops (srv, store) sid requests [] = ((srv1, store'), out)"
    for requests srv1 out
  proof (rule dispatch_preserves [where P = "\<lambda>s _. server_frame sid srv s", OF _ _ that])
    show "server_frame sid srv srv" by (simp add: server_frame_def)
  qed (rule handle_abb_server_frame)
  with handled_frame_end [OF assms] show ?thesis by (auto simp: server_frame_def)
qed

lemma handle_abb_isolated:
  assumes "(\<forall>x. reaches s sid x = reaches srv sid x) \<and> t r = store r" and "\<not> reaches srv sid r"
    and "handle_abb ops (s, t) sid request = ((s', t'), result)"
  shows "(\<forall>x. reaches s' sid x = reaches srv sid x) \<and> t' r = store r"
proof -
  have "reaches s' sid x = reaches s sid x" for x
    using handle_abb_server [OF assms(3)] by (elim disjE conjE exE) (simp_all add: reaches_def)
  then show ?thesis using handle_abb_store [OF assms(3), of r] assms(1, 2) by simp
qed

lemma handled_frame_store:
  assumes "handle_ntscf_frame ops (srv, store) sid frame = ((srv', store'), result)" and "\<not> reaches srv sid r"
  shows "store' r = store r"
proof -
  have "store' r = store r" if "dispatch_requests ops (srv, store) sid requests [] = ((srv1, store'), out)"
    for requests srv1 out
    using dispatch_preserves [where P = "\<lambda>s t. (\<forall>x. reaches s sid x = reaches srv sid x) \<and> t r = store r", OF _ _ that]
      handle_abb_isolated [OF _ assms(2)] by blast
  with handled_frame_end [OF assms(1)] show ?thesis by auto
qed

section \<open>Endpoint 0 from the wire\<close>

definition ep0_write_message :: "u8 \<Rightarrow> general_registers \<Rightarrow> acf_abb_message" where
  "ep0_write_message num g =
    \<lparr>abb_info = byte_message_info_default\<lparr>bmi_op := True, transaction_num := num\<rparr>,
     abb_payload = encode_general_registers g\<rparr>"

definition ep0_read_message :: "u8 \<Rightarrow> acf_abb_message" where
  "ep0_read_message num = \<lparr>abb_info = byte_message_info_default\<lparr>transaction_num := num\<rparr>, abb_payload = []\<rparr>"

lemma ep0_messages_encodable:
  "\<exists>bs. encode_acf_abb (ep0_write_message num g) = Inr bs" "\<exists>bs. encode_acf_abb (ep0_read_message num) = Inr bs"
  unfolding encode_acf_abb_Inr_iff
  by (simp_all add: ep0_write_message_def ep0_read_message_def byte_message_info_default_def evt_default_def
      general_block.length_enc rcp_consts)

lemma on_wire_ok: "encode_acf_abb m = Inr bs \<Longrightarrow> request_ok (on_wire m)"
  using next_abb_encode [of m bs "[]"] by (auto dest: next_abb_message_ok)

lemma ep0_on_wire [simp]:
  "byte_bus_id (abb_info (on_wire (ep0_write_message num g))) = 0"
  "bmi_op (abb_info (on_wire (ep0_write_message num g)))"
  "abb_payload (on_wire (ep0_write_message num g)) = encode_general_registers g"
  "byte_bus_id (abb_info (on_wire (ep0_read_message num))) = 0"
  "\<not> bmi_op (abb_info (on_wire (ep0_read_message num)))"
  by (simp_all add: ep0_write_message_def ep0_read_message_def byte_message_info_default_def)

lemma handle_ep0_write:
  "srv_root_client srv = Some sid \<Longrightarrow>
     handle_abb ops (srv, store) sid (on_wire (ep0_write_message num g)) =
       ((srv\<lparr>srv_general := g\<rparr>, store),
        Inr \<lparr>abb_info = (abb_info (on_wire (ep0_write_message num g)))\<lparr>bmi_rsp := True\<rparr>, abb_payload = []\<rparr>)"
  by (simp add: handle_abb_eq handle_ep0_eq is_ep0_address_def EP0_BYTE_BUS_ID_def general_block.dec_enc Let_def
      del: on_wire_fields)

lemma handle_ep0_read:
  "handle_abb ops (srv, store) sid (on_wire (ep0_read_message num)) =
     ((srv, store), Inr \<lparr>abb_info = (abb_info (on_wire (ep0_read_message num)))\<lparr>bmi_rsp := True\<rparr>,
                         abb_payload = encode_general_registers (srv_general srv)\<rparr>)"
  by (simp add: handle_abb_eq handle_ep0_eq is_ep0_address_def EP0_BYTE_BUS_ID_def Let_def del: on_wire_fields)

lemma ep0_write_read_dispatch:
  assumes "srv_root_client srv = Some sid"
  shows "\<exists>a b bs. dispatch_requests ops (srv, store) sid
        [on_wire (ep0_write_message n g), on_wire (ep0_read_message n')] []
      = ((srv\<lparr>srv_general := g\<rparr>, store), Inr bs)
    \<and> length bs \<le> 2047 \<and> decode_acf_abb_messages bs = Inr [a, b] \<and> abb_payload b = encode_general_registers g"
proof -
  obtain wb rb where w: "encode_acf_abb (ep0_write_message n g) = Inr wb"
    and r: "encode_acf_abb (ep0_read_message n') = Inr rb"
    using ep0_messages_encodable by blast
  define A where "A = \<lparr>abb_info = (abb_info (on_wire (ep0_write_message n g)))\<lparr>bmi_rsp := True\<rparr>, abb_payload = []\<rparr>"
  define B where "B = \<lparr>abb_info = (abb_info (on_wire (ep0_read_message n')))\<lparr>bmi_rsp := True\<rparr>,
      abb_payload = encode_general_registers g\<rparr>"
  obtain a where a: "encode_acf_abb A = Inr a"
    using encode_response [OF on_wire_ok [OF w], of "[]", where a = True
        and b = "bmi_err (abb_info (on_wire (ep0_write_message n g)))"]
    by (auto simp: A_def simp del: on_wire_fields)
  obtain b where b: "encode_acf_abb B = Inr b"
    using encode_response [OF on_wire_ok [OF r], of "encode_general_registers g", where a = True
        and b = "bmi_err (abb_info (on_wire (ep0_read_message n')))"]
    by (auto simp: B_def general_block.length_enc simp del: on_wire_fields)
  have d: "dispatch_requests ops (srv, store) sid
        [on_wire (ep0_write_message n g), on_wire (ep0_read_message n')] []
      = ((srv\<lparr>srv_general := g\<rparr>, store), Inr (a @ b))"
    using a b
    by (simp add: dispatch_requests_Cons answer_of_def A_def B_def handle_ep0_write [OF assms] handle_ep0_read
        del: on_wire_fields dispatch_requests.simps(2))
  have lens: "length a \<le> 12" "length b \<le> 76"
    using encode_acf_abb_length(1) [OF a] encode_acf_abb_length(1) [OF b] pad_for_less [of 65]
    by (simp_all add: A_def B_def general_block.length_enc pad_for_def)
  have "encode_abb_messages [A, B] = Inr (a @ b)" by (simp add: a b)
  then have "decode_acf_abb_messages (a @ b) = Inr [on_wire A, on_wire B]"
    using decode_encode_abb_messages [of "[A, B]"] by simp
  moreover have "abb_payload (on_wire B) = encode_general_registers g" by (simp add: B_def)
  ultimately show ?thesis using d lens by auto
qed

section \<open>Concrete inputs\<close>

definition zero_descriptor :: table_descriptor where
  "zero_descriptor = \<lparr>td_ptr = 0, td_capacity = 0\<rparr>"

definition zero_registers :: general_registers where
  "zero_registers =
    \<lparr>svr_oa_tc18_magic_nr = 0, svr_version = 0, svr_vendor_id = 0, svr_device_id = 0, svr_ep_count = 0,
     svr_req_stream_max = 0, svr_responder_streams_max = 0, svr_responder_mem_size = 0, svr_req_mem_size = 0,
     svr_sequencers_max = 0, svr_configuration_lock = 0, svr_implemented_options = 0, svr_io_pin_count = 0,
     svr_hw_cfg = zero_descriptor, svr_request_stream_cfg = zero_descriptor, svr_response_stream_cfg = zero_descriptor,
     svr_ep_generic_cfg = zero_descriptor, svr_ep_bytebus_id_map = zero_descriptor, svr_ep_functional_cfg_ptr = 0,
     svr_sequencer_state_ptr = 0, svr_network_interface_cfg = zero_descriptor, svr_physical_layer_cfg = zero_descriptor,
     svr_time_synch_cfg = zero_descriptor, svr_security_cfg = zero_descriptor\<rparr>"

definition sample_stream :: "u16 \<Rightarrow> stream_id" where
  "sample_stream uid = \<lparr>sender_mac = (2, 0, 0, 0, 0, 1), unique_id = uid\<rparr>"

definition sample_server :: rc_server where
  "sample_server = set_root_client (rc_server_new zero_registers) (Some (sample_stream 1))"

definition sample_store :: "mock_endpoint ep_store" where
  "sample_store = (\<lambda>_. mock_endpoint_new Gpio [1, 2, 3])"

lemma sample_frame:
  "\<exists>frame. frame_requests frame = Inr [on_wire (ep0_write_message 7 zero_registers), on_wire (ep0_read_message 8)]"
proof -
  obtain wb rb where w: "encode_acf_abb (ep0_write_message 7 zero_registers) = Inr wb"
    and r: "encode_acf_abb (ep0_read_message 8) = Inr rb"
    using ep0_messages_encodable by blast
  then have e: "encode_abb_messages [ep0_write_message 7 zero_registers, ep0_read_message 8] = Inr (wb @ rb)"
    by simp
  have "length (wb @ rb) \<le> 2047"
    using encode_acf_abb_length(1) [OF w] encode_acf_abb_length(1) [OF r] pad_for_less [of 65]
    by (simp add: ep0_write_message_def ep0_read_message_def general_block.length_enc pad_for_def)
  then obtain frame where "encode_ntscf_frame (sample_stream 1) 0 (wb @ rb) = Inr frame"
    by (simp add: encode_ntscf_frame_cases)
  with frame_requests_encoded [OF e] show ?thesis by auto
qed

lemma sample_frame_handled:
  "\<exists>frame srv' reply.
     frame_requests frame = Inr [on_wire (ep0_write_message 7 zero_registers), on_wire (ep0_read_message 8)] \<and>
     handle_ntscf_frame mock_ops (sample_server, sample_store) (sample_stream 1) frame = ((srv', sample_store), Inr reply)"
proof -
  obtain frame where f: "frame_requests frame = Inr [on_wire (ep0_write_message 7 zero_registers), on_wire (ep0_read_message 8)]"
    using sample_frame by blast
  have "srv_root_client sample_server = Some (sample_stream 1)"
    by (simp add: sample_server_def set_root_client_def)
  from ep0_write_read_dispatch [OF this, of mock_ops sample_store 7 zero_registers 8]
  obtain bs where "dispatch_requests mock_ops (sample_server, sample_store) (sample_stream 1)
      [on_wire (ep0_write_message 7 zero_registers), on_wire (ep0_read_message 8)] []
      = ((sample_server\<lparr>srv_general := zero_registers\<rparr>, sample_store), Inr bs)" "length bs \<le> 2047"
    by blast
  from dispatched_frame_handled [OF f this] f show ?thesis by blast
qed

end
