(* ===== verification/Rcp_Powerstate.thy ===== *)
theory Rcp_Powerstate
  imports Rcp_Request_Facts
begin

text \<open>
  Power modes, \<open>src/powerstate.rs\<close>: the two defined ways down, the gate on pending requests, the
  cold and the hot way back, and the wake-up handshake the hot way needs.
\<close>

datatype power_mode = PowerNormal | PowerStandBy | PowerSleep | PowerUnpowered

fun power_mode_as_str :: "power_mode \<Rightarrow> string" where
  "power_mode_as_str PowerNormal = ''normal''"
| "power_mode_as_str PowerStandBy = ''standby''"
| "power_mode_as_str PowerSleep = ''sleep''"
| "power_mode_as_str PowerUnpowered = ''unpowered''"

fun is_power_mode_transition_defined :: "power_mode \<Rightarrow> power_mode \<Rightarrow> bool" where
  "is_power_mode_transition_defined PowerNormal PowerStandBy = True"
| "is_power_mode_transition_defined PowerNormal PowerSleep = True"
| "is_power_mode_transition_defined _ _ = False"

record power_mode_gate_input =
  all_endpoints_idle :: bool
  no_pending_response :: bool

definition is_power_mode_gate_satisfied :: "power_mode_gate_input \<Rightarrow> bool" where
  "is_power_mode_gate_satisfied input \<longleftrightarrow> all_endpoints_idle input \<and> no_pending_response input"

definition power_mode_gate_from_request_states :: "request_lifecycle_state list \<Rightarrow> power_mode_gate_input" where
  "power_mode_gate_from_request_states states =
    (let idle = list_all (\<lambda>s. s = Finalized) states
     in \<lparr>all_endpoints_idle = idle, no_pending_response = idle\<rparr>)"

definition try_enter_power_mode :: "power_mode \<Rightarrow> power_mode \<Rightarrow> power_mode_gate_input \<Rightarrow> power_mode rcp_result" where
  "try_enter_power_mode from_mode to_mode gate =
    (if \<not> is_power_mode_transition_defined from_mode to_mode then Inl RequestRejected
     else if \<not> is_power_mode_gate_satisfied gate then Inl RequestRejected
     else Inr to_mode)"

definition shutdown_to_unpowered :: "power_mode \<Rightarrow> power_mode" where
  "shutdown_to_unpowered from_mode = PowerUnpowered"

datatype startup_path = StartupCold | StartupHot

definition try_cold_start :: "power_mode \<Rightarrow> power_mode_gate_input \<Rightarrow> power_mode rcp_result" where
  "try_cold_start from_mode gate =
    (if \<not> (from_mode = PowerUnpowered \<or> from_mode = PowerSleep) then Inl RequestRejected
     else if \<not> is_power_mode_gate_satisfied gate then Inl RequestRejected
     else Inr PowerNormal)"

datatype wakeup_handshake_state = HandshakeIdle | RequestSent | Acknowledged

fun send_wakeup_request :: "wakeup_handshake_state \<Rightarrow> wakeup_handshake_state rcp_result" where
  "send_wakeup_request HandshakeIdle = Inr RequestSent"
| "send_wakeup_request _ = Inl RequestRejected"

fun acknowledge_wakeup_request :: "wakeup_handshake_state \<Rightarrow> wakeup_handshake_state rcp_result" where
  "acknowledge_wakeup_request RequestSent = Inr Acknowledged"
| "acknowledge_wakeup_request _ = Inl RequestRejected"

definition is_wakeup_handshake_complete :: "wakeup_handshake_state \<Rightarrow> bool" where
  "is_wakeup_handshake_complete state \<longleftrightarrow> state = Acknowledged"

definition try_hot_start ::
  "power_mode \<Rightarrow> wakeup_handshake_state \<Rightarrow> power_mode_gate_input \<Rightarrow> power_mode rcp_result" where
  "try_hot_start from_mode wakeup gate =
    (if from_mode \<noteq> PowerStandBy then Inl RequestRejected
     else if \<not> is_wakeup_handshake_complete wakeup then Inl RequestRejected
     else if \<not> is_power_mode_gate_satisfied gate then Inl RequestRejected
     else Inr PowerNormal)"

section \<open>The modes as a machine\<close>

interpretation power_down: guarded_machine is_power_mode_transition_defined try_enter_power_mode
  by unfold_locales (auto simp: try_enter_power_mode_def split: if_splits)

text \<open>
  A server's power state is its mode and its handshake. The steps are the operations of the
  code, on the requests that are in flight.
\<close>

inductive power_step :: "power_mode \<times> wakeup_handshake_state \<Rightarrow> power_mode \<times> wakeup_handshake_state \<Rightarrow> bool" where
  Enter: "try_enter_power_mode m m' (power_mode_gate_from_request_states rs) = Inr m' \<Longrightarrow> power_step (m, h) (m', h)"
| Cold: "try_cold_start m (power_mode_gate_from_request_states rs) = Inr m' \<Longrightarrow> power_step (m, h) (m', h)"
| Hot: "try_hot_start m h (power_mode_gate_from_request_states rs) = Inr m' \<Longrightarrow> power_step (m, h) (m', h)"
| SendWakeup: "send_wakeup_request h = Inr h' \<Longrightarrow> power_step (m, h) (m, h')"
| AckWakeup: "acknowledge_wakeup_request h = Inr h' \<Longrightarrow> power_step (m, h) (m, h')"

inductive_cases power_stepE: "power_step s s'"

lemma power_gate_satisfied:
  "is_power_mode_gate_satisfied (power_mode_gate_from_request_states rs) \<longleftrightarrow> (\<forall>s\<in>set rs. s = Finalized)"
  by (simp add: is_power_mode_gate_satisfied_def power_mode_gate_from_request_states_def Let_def list_all_iff)

text \<open>Without losing power, a server in stand-by stays there until the handshake is complete.\<close>

lemma standby_step:
  "power_step s s' \<Longrightarrow> fst s = PowerStandBy \<or> snd s = Acknowledged \<Longrightarrow> fst s' = PowerStandBy \<or> snd s' = Acknowledged"
  by (elim power_stepE)
    (auto simp: try_enter_power_mode_def try_cold_start_def try_hot_start_def is_wakeup_handshake_complete_def
      split: if_splits elim!: send_wakeup_request.elims acknowledge_wakeup_request.elims)

lemma standby_until_acknowledged:
  "power_step\<^sup>*\<^sup>* (PowerStandBy, h) s \<Longrightarrow> fst s = PowerStandBy \<or> snd s = Acknowledged"
  by (induction rule: rtranclp_induct) (auto dest: standby_step)

text \<open>In sleep the only way on is the cold start; the handshake does not matter.\<close>

lemma sleep_step: "power_step (PowerSleep, h) (m', h') \<Longrightarrow> m' = PowerSleep \<or> m' = PowerNormal \<and> h' = h"
  by (elim power_stepE)
    (auto simp: try_enter_power_mode_def try_cold_start_def try_hot_start_def split: if_splits)

lemma mode_left_only_idle:
  assumes "try_enter_power_mode m m' (power_mode_gate_from_request_states rs) = Inr u
    \<or> try_cold_start m (power_mode_gate_from_request_states rs) = Inr u
    \<or> try_hot_start m h (power_mode_gate_from_request_states rs) = Inr u"
  shows "\<forall>s\<in>set rs. s = Finalized"
  using assms
  by (auto simp: try_enter_power_mode_def try_cold_start_def try_hot_start_def power_gate_satisfied split: if_splits)

section \<open>Further facts\<close>

text \<open>A server in stand-by wakes up only through the handshake. From stand-by, without a loss of power, every reachable state is still stand-by or has an acknowledged handshake.\<close>

theorem standby_needs_handshake:
  assumes "power_step\<^sup>*\<^sup>* (PowerStandBy, h) (m, h')" and "m \<noteq> PowerStandBy"
  shows "h' = Acknowledged"
  using standby_until_acknowledged [OF assms(1)] assms(2) by simp


end
