(* ===== verification/Rcp_Discovery.thy ===== *)
theory Rcp_Discovery
  imports Rcp_Acf_Messages Rcp_Ep0 Rcp_Regmap_Codecs
begin

text \<open>
  Discovery, \<open>src/discovery.rs\<close>: the broadcast stream, the discovery request, configuration
  request and response, the claim on the discovery stream with its time-out, and the cache of
  discovered servers. Instants and durations are natural numbers of the clock's unit; the
  saturating difference of instants is subtraction on them.
\<close>

section \<open>Messages\<close>

definition DISCOVERY_BROADCAST_STREAM_ID :: stream_id where
  "DISCOVERY_BROADCAST_STREAM_ID = \<lparr>sender_mac = (0xFF, 0xFF, 0xFF, 0xFF, 0xFF, 0xFF), unique_id = 0\<rparr>"

definition is_discovery_broadcast_stream_id :: "stream_id \<Rightarrow> bool" where
  "is_discovery_broadcast_stream_id sid \<longleftrightarrow> sid = DISCOVERY_BROADCAST_STREAM_ID"

definition DISCOVERY_REGISTER_ADDRESS_LEN :: nat where [rcp_consts]: "DISCOVERY_REGISTER_ADDRESS_LEN = 2"
definition DISCOVERY_REGISTER_ADDRESS :: u16 where [rcp_consts]: "DISCOVERY_REGISTER_ADDRESS = 0"

definition decode_register_address :: "bytes \<Rightarrow> u16 option" where
  "decode_register_address payload =
    (if length payload < DISCOVERY_REGISTER_ADDRESS_LEN then None
     else Some (from_be_bytes [payload ! 0, payload ! 1]))"

definition build_discovery_request :: "u8 \<Rightarrow> acf_abb_message" where
  "build_discovery_request num =
    \<lparr>abb_info = byte_message_info_default\<lparr>byte_bus_id := EP0_BYTE_BUS_ID, bmi_op := False, transaction_num := num\<rparr>,
     abb_payload = to_be_bytes DISCOVERY_REGISTER_ADDRESS\<rparr>"

definition is_discovery_request :: "acf_abb_message \<Rightarrow> bool" where
  "is_discovery_request msg \<longleftrightarrow>
     route_byte_bus_id (byte_bus_id (abb_info msg)) = RouteEp0 \<and> access_kind (abb_info msg) = AccessRead
     \<and> decode_register_address (abb_payload msg) = Some DISCOVERY_REGISTER_ADDRESS"

definition is_discovery_configure_request :: "acf_abb_message \<Rightarrow> bool" where
  "is_discovery_configure_request msg \<longleftrightarrow>
     route_byte_bus_id (byte_bus_id (abb_info msg)) = RouteEp0 \<and> access_kind (abb_info msg) = AccessWrite
     \<and> decode_register_address (abb_payload msg) = Some DISCOVERY_REGISTER_ADDRESS"

definition build_discovery_response ::
  "byte_message_info \<Rightarrow> rc_server_state \<Rightarrow> general_registers \<Rightarrow> acf_abb_message rcp_result" where
  "build_discovery_response request state general =
    and_then (check_register_reachable state General) (\<lambda>_.
      let response_info = build_response_info request byte_message_info_default
      in Inr \<lparr>abb_info = response_info, abb_payload = encode_general_registers general\<rparr>)"

section \<open>Claims\<close>

type_synonym instant = nat
type_synonym duration = nat

record discovery_claim =
  claimant :: stream_id
  claimed_at :: instant

definition has_lapsed :: "discovery_claim \<Rightarrow> instant \<Rightarrow> duration \<Rightarrow> bool" where
  "has_lapsed claim now timeout \<longleftrightarrow> now - claimed_at claim \<ge> timeout"

definition claim_permits :: "discovery_claim option \<Rightarrow> stream_id \<Rightarrow> instant \<Rightarrow> duration \<Rightarrow> bool" where
  "claim_permits current who now timeout =
    (case current of None \<Rightarrow> True | Some existing \<Rightarrow> claimant existing = who \<or> has_lapsed existing now timeout)"

definition try_claim_discovery_stream ::
  "discovery_claim option \<Rightarrow> stream_id \<Rightarrow> instant \<Rightarrow> duration \<Rightarrow> discovery_claim rcp_result" where
  "try_claim_discovery_stream current who now timeout =
    (if is_discovery_broadcast_stream_id who then Inl InvalidParameter
     else if claim_permits current who now timeout then Inr \<lparr>claimant = who, claimed_at = now\<rparr>
     else Inl RequestRejected)"

datatype discovery_access_kind = DiscoveryRead | DiscoveryConfigure

definition check_discovery_access ::
  "discovery_claim option \<Rightarrow> stream_id \<Rightarrow> discovery_access_kind \<Rightarrow> instant \<Rightarrow> duration \<Rightarrow> unit rcp_result" where
  "check_discovery_access current requester kind now timeout =
    (case kind of
       DiscoveryRead \<Rightarrow> Inr ()
     | DiscoveryConfigure \<Rightarrow>
         if is_discovery_broadcast_stream_id requester then Inl InvalidParameter
         else if claim_permits current requester now timeout then Inr ()
         else Inl UnauthorizedAccess)"

section \<open>The cache\<close>

record discovery_cache_entry =
  dce_magic_nr :: u32
  dce_version :: u32
  dce_vendor_id :: u16
  dce_device_id :: u16
  dce_ep_count :: u16
  dce_cached_at :: instant

definition entry_from_general_registers :: "general_registers \<Rightarrow> instant \<Rightarrow> discovery_cache_entry" where
  "entry_from_general_registers g cached_at =
    \<lparr>dce_magic_nr = svr_oa_tc18_magic_nr g, dce_version = svr_version g, dce_vendor_id = svr_vendor_id g,
     dce_device_id = svr_device_id g, dce_ep_count = svr_ep_count g, dce_cached_at = cached_at\<rparr>"

definition is_stale :: "discovery_cache_entry \<Rightarrow> instant \<Rightarrow> duration \<Rightarrow> bool" where
  "is_stale e now max_age \<longleftrightarrow> now - dce_cached_at e \<ge> max_age"

definition entry_matches :: "discovery_cache_entry \<Rightarrow> general_registers \<Rightarrow> bool" where
  "entry_matches e g \<longleftrightarrow>
     dce_magic_nr e = svr_oa_tc18_magic_nr g \<and> dce_version e = svr_version g \<and>
     dce_vendor_id e = svr_vendor_id g \<and> dce_device_id e = svr_device_id g \<and> dce_ep_count e = svr_ep_count g"

record discovery_cache =
  dc_entries :: "stream_id \<rightharpoonup> discovery_cache_entry"

definition discovery_cache_new :: discovery_cache where
  "discovery_cache_new = \<lparr>dc_entries = Map.empty\<rparr>"

definition cache_remember ::
  "discovery_cache \<Rightarrow> stream_id \<Rightarrow> general_registers \<Rightarrow> instant \<Rightarrow> discovery_cache \<times> unit rcp_result" where
  "cache_remember c sid g now =
    (if is_discovery_broadcast_stream_id sid then (c, Inl InvalidParameter)
     else (c\<lparr>dc_entries := (dc_entries c)(sid \<mapsto> entry_from_general_registers g now)\<rparr>, Inr ()))"

definition cache_lookup :: "discovery_cache \<Rightarrow> stream_id \<Rightarrow> discovery_cache_entry option" where
  "cache_lookup c sid = dc_entries c sid"

definition cache_is_known :: "discovery_cache \<Rightarrow> stream_id \<Rightarrow> instant \<Rightarrow> duration \<Rightarrow> bool" where
  "cache_is_known c sid now max_age =
    (case dc_entries c sid of None \<Rightarrow> False | Some e \<Rightarrow> \<not> is_stale e now max_age)"

definition cache_invalidate :: "discovery_cache \<Rightarrow> stream_id \<Rightarrow> discovery_cache \<times> bool" where
  "cache_invalidate c sid = (c\<lparr>dc_entries := (dc_entries c)(sid := None)\<rparr>, dc_entries c sid \<noteq> None)"

section \<open>What discovery guarantees\<close>

lemma discovery_request_recognised: "is_discovery_request (build_discovery_request num)"
  by (simp add: is_discovery_request_def build_discovery_request_def decode_register_address_def
      route_byte_bus_id_def is_ep0_address_def access_kind_def rcp_consts to_be_bytes_u16 from_be_bytes_u16)

lemma discovery_requests_disjoint: "\<not> (is_discovery_request msg \<and> is_discovery_configure_request msg)"
  by (simp add: is_discovery_request_def is_discovery_configure_request_def access_kind_def)

lemma build_discovery_response_eq:
  "build_discovery_response request state general
     = Inr \<lparr>abb_info = byte_message_info_default\<lparr>byte_bus_id := byte_bus_id request, bmi_rsp := True\<rparr>,
            abb_payload = encode_general_registers general\<rparr>"
  by (simp add: build_discovery_response_def check_register_reachable_def build_response_info_def)

text \<open>A discovery response of any state survives the wire and carries the registers.\<close>

lemma discovery_response_readable:
  assumes "byte_bus_id request \<le> BYTE_MESSAGE_INFO_11BIT_MAX"
  shows "\<exists>m bs. build_discovery_response request state general = Inr m \<and> encode_acf_abb m = Inr bs
     \<and> decode_acf_abb bs = Inr (on_wire m) \<and> decode_general_registers (abb_payload (on_wire m)) = Inr general"
proof -
  define m where "m = \<lparr>abb_info = byte_message_info_default\<lparr>byte_bus_id := byte_bus_id request, bmi_rsp := True\<rparr>,
            abb_payload = encode_general_registers general\<rparr>"
  have "\<exists>bs. encode_acf_abb m = Inr bs"
    unfolding encode_acf_abb_Inr_iff
    using assms by (simp add: m_def byte_message_info_default_def evt_default_def general_block.length_enc rcp_consts)
  then obtain bs where bs: "encode_acf_abb m = Inr bs" ..
  have "decode_general_registers (abb_payload (on_wire m)) = Inr general"
    by (simp add: m_def general_block.dec_enc)
  then show ?thesis
    using bs decode_encode_acf_abb [OF bs, of "[]"] by (auto simp: build_discovery_response_eq m_def)
qed

text \<open>A holder of the claim: attempts as they arrive, a refused one leaves the claim.\<close>

fun claim_attempts ::
  "discovery_claim option \<Rightarrow> duration \<Rightarrow> (stream_id \<times> instant) list \<Rightarrow> discovery_claim option" where
  "claim_attempts current timeout [] = current"
| "claim_attempts current timeout ((who, now) # rest) =
    claim_attempts (case try_claim_discovery_stream current who now timeout of
                      Inl _ \<Rightarrow> current | Inr claim \<Rightarrow> Some claim) timeout rest"

lemma claim_held:
  assumes "claimant claim = who" and "claimed_at claim \<ge> t0"
    and "\<forall>(s, now)\<in>set tries. t0 \<le> now \<and> now < t0 + timeout"
  shows "\<exists>claim'. claim_attempts (Some claim) timeout tries = Some claim' \<and> claimant claim' = who \<and> claimed_at claim' \<ge> t0"
  using assms
proof (induction tries arbitrary: claim)
  case (Cons a tries)
  obtain s now where a: "a = (s, now)" by (cases a)
  have times: "t0 \<le> now" "now < t0 + timeout" using Cons.prems(3) by (auto simp: a)
  show ?case
  proof (cases "s = who \<and> \<not> is_discovery_broadcast_stream_id s")
    case True
    then have "try_claim_discovery_stream (Some claim) s now timeout = Inr \<lparr>claimant = who, claimed_at = now\<rparr>"
      using Cons.prems(1) by (auto simp: try_claim_discovery_stream_def claim_permits_def)
    then show ?thesis using Cons.IH [of "\<lparr>claimant = who, claimed_at = now\<rparr>"] Cons.prems times by (simp add: a)
  next
    case False
    then have "\<exists>e. try_claim_discovery_stream (Some claim) s now timeout = Inl e"
      using Cons.prems(1, 2) times
      by (auto simp: try_claim_discovery_stream_def claim_permits_def has_lapsed_def)
    then show ?thesis using Cons.IH [of claim] Cons.prems by (auto simp: a)
  qed
qed simp

lemma configure_iff_claimable:
  "check_discovery_access current who DiscoveryConfigure now timeout = Inr () \<longleftrightarrow>
     (\<exists>claim. try_claim_discovery_stream current who now timeout = Inr claim)"
  by (auto simp: check_discovery_access_def try_claim_discovery_stream_def)

lemma cache_known_after_remember:
  "cache_is_known (fst (cache_remember c sid g t)) sid' now max_age \<longleftrightarrow>
     (if sid' = sid \<and> \<not> is_discovery_broadcast_stream_id sid then now - t < max_age else cache_is_known c sid' now max_age)"
  by (auto simp: cache_is_known_def cache_remember_def is_stale_def entry_from_general_registers_def)

section \<open>Further facts\<close>

text \<open>A claim on the discovery stream is exclusive until it times out. As long as every attempt comes less than the time-out after the claim was made, whoever attempts whatever, the claimant keeps it.\<close>

theorem claim_is_exclusive:
  assumes "try_claim_discovery_stream current who t0 timeout = Inr claim"
    and "\<forall>(s, now)\<in>set tries. t0 \<le> now \<and> now < t0 + timeout"
  shows "\<exists>claim'. claim_attempts (Some claim) timeout tries = Some claim' \<and> claimant claim' = who"
proof -
  have "claimant claim = who" "claimed_at claim \<ge> t0"
    using assms(1) by (auto simp: try_claim_discovery_stream_def split: if_splits)
  from claim_held [OF this assms(2)] show ?thesis by blast
qed


end
