(* ===== verification/Rcp_Gpio.thy ===== *)
theory Rcp_Gpio
  imports Rcp_Regmap_Codecs Rcp_Powerstate
begin

text \<open>
  The pin endpoints: GPIO banks of \<open>src/gpio.rs\<close> with their write operations and edge triggers,
  and the wake-up endpoint of \<open>src/wakeup.rs\<close> with its sleep command and wake sources, which feed
  the power modes of \<open>src/powerstate.rs\<close>.
\<close>

section \<open>Bitmasks\<close>

datatype gpio_bitmask = GpioBitmask (gpio_bits: u32)

definition GPIO_BITMASK_LEN :: nat where [rcp_consts]: "GPIO_BITMASK_LEN = 4"

definition gpio_bitmask_encode :: "gpio_bitmask \<Rightarrow> bytes" where
  "gpio_bitmask_encode m = to_be_bytes (gpio_bits m)"

definition gpio_bitmask_decode :: "bytes \<Rightarrow> gpio_bitmask rcp_result" where
  "gpio_bitmask_decode b =
    (if length b < GPIO_BITMASK_LEN then Inl ShortFrame else Inr (GpioBitmask (from_be_bytes (subslice 0 4 b))))"

section \<open>Writes\<close>

datatype gpio_write_semantics =
  Replace | OrMask | AndMask | XorMask | Reserved4 | AddSaturating | SubtractSaturating | Reconfigure

fun gpio_write_to_sub_opcode :: "gpio_write_semantics \<Rightarrow> u8" where
  "gpio_write_to_sub_opcode Replace = 0"
| "gpio_write_to_sub_opcode OrMask = 1"
| "gpio_write_to_sub_opcode AndMask = 2"
| "gpio_write_to_sub_opcode XorMask = 3"
| "gpio_write_to_sub_opcode Reserved4 = 4"
| "gpio_write_to_sub_opcode AddSaturating = 5"
| "gpio_write_to_sub_opcode SubtractSaturating = 6"
| "gpio_write_to_sub_opcode Reconfigure = 7"

definition gpio_write_from_sub_opcode :: "u8 \<Rightarrow> gpio_write_semantics rcp_result" where
  "gpio_write_from_sub_opcode raw =
    (if raw = 0 then Inr Replace else if raw = 1 then Inr OrMask
     else if raw = 2 then Inr AndMask else if raw = 3 then Inr XorMask
     else if raw = 4 then Inr Reserved4 else if raw = 5 then Inr AddSaturating
     else if raw = 6 then Inr SubtractSaturating else if raw = 7 then Inr Reconfigure
     else Inl InvalidParameter)"

definition gpio_write_is_named :: "gpio_write_semantics \<Rightarrow> bool" where
  "gpio_write_is_named s \<longleftrightarrow> s \<noteq> Reserved4"

definition apply_gpio_write ::
  "gpio_write_semantics \<Rightarrow> gpio_bitmask \<Rightarrow> gpio_bitmask \<Rightarrow> gpio_bitmask rcp_result" where
  "apply_gpio_write semantics current_mask operand_mask =
    (let current = gpio_bits current_mask; operand = gpio_bits operand_mask in
     case semantics of
       Replace \<Rightarrow> Inr (GpioBitmask operand)
     | OrMask \<Rightarrow> Inr (GpioBitmask (current OR operand))
     | AndMask \<Rightarrow> Inr (GpioBitmask (current AND operand))
     | XorMask \<Rightarrow> Inr (GpioBitmask (current XOR operand))
     | Reserved4 \<Rightarrow> Inl UnsupportedCmd
     | AddSaturating \<Rightarrow> Inr (GpioBitmask (saturating_add current operand))
     | SubtractSaturating \<Rightarrow> Inr (GpioBitmask (saturating_sub current operand))
     | Reconfigure \<Rightarrow> Inr (GpioBitmask operand))"

section \<open>Triggers\<close>

definition GPIO_TRIGGER_CONFIG_LEN :: nat where [rcp_consts]: "GPIO_TRIGGER_CONFIG_LEN = 3 * GPIO_BITMASK_LEN"

record gpio_trigger_config =
  change_enable :: gpio_bitmask
  rising_enable :: gpio_bitmask
  falling_enable :: gpio_bitmask

definition gpio_trigger_config_encode :: "gpio_trigger_config \<Rightarrow> bytes" where
  "gpio_trigger_config_encode c =
    gpio_bitmask_encode (change_enable c) @ gpio_bitmask_encode (rising_enable c)
    @ gpio_bitmask_encode (falling_enable c)"

definition gpio_trigger_config_decode :: "bytes \<Rightarrow> gpio_trigger_config rcp_result" where
  "gpio_trigger_config_decode b =
    (if length b < GPIO_TRIGGER_CONFIG_LEN then Inl ShortFrame
     else and_then (gpio_bitmask_decode (subslice 0 4 b)) (\<lambda>c.
          and_then (gpio_bitmask_decode (subslice 4 4 b)) (\<lambda>r.
          and_then (gpio_bitmask_decode (subslice 8 4 b)) (\<lambda>f.
          Inr \<lparr>change_enable = c, rising_enable = r, falling_enable = f\<rparr>))))"

record gpio_trigger_signals =
  pins_changed :: gpio_bitmask
  pins_rising :: gpio_bitmask
  pins_falling :: gpio_bitmask

definition evaluate_gpio_triggers ::
  "gpio_trigger_config \<Rightarrow> gpio_bitmask \<Rightarrow> gpio_bitmask \<Rightarrow> gpio_trigger_signals" where
  "evaluate_gpio_triggers config previous current =
    (let diff = gpio_bits previous XOR gpio_bits current;
         rose = diff AND gpio_bits current;
         fell = diff AND gpio_bits previous in
     \<lparr>pins_changed = GpioBitmask (diff AND gpio_bits (change_enable config)),
      pins_rising = GpioBitmask (rose AND gpio_bits (rising_enable config)),
      pins_falling = GpioBitmask (fell AND gpio_bits (falling_enable config))\<rparr>)"

record gpio_functional_config =
  gpio_trigger :: gpio_trigger_config

definition gpio_layer_tag :: "gpio_functional_config \<Rightarrow> per_ep_type_functional_config" where
  "gpio_layer_tag c = \<lparr>fun_ep_type = Gpio\<rparr>"

section \<open>The wake-up endpoint\<close>

datatype sleep_cmd_request = SleepCmdRequest

definition SLEEP_DISCRIMINANT :: u8 where [rcp_consts]: "SLEEP_DISCRIMINANT = 0xA5"

definition sleep_cmd_encode :: "sleep_cmd_request \<Rightarrow> bytes" where
  "sleep_cmd_encode c = [SLEEP_DISCRIMINANT]"

definition sleep_cmd_decode :: "bytes \<Rightarrow> sleep_cmd_request rcp_result" where
  "sleep_cmd_decode b =
    (case b of [] \<Rightarrow> Inl ShortFrame
     | x # _ \<Rightarrow> if x = SLEEP_DISCRIMINANT then Inr SleepCmdRequest else Inl InvalidParameter)"

definition WAKE_SOURCE_PIN_MASK_LEN :: nat where [rcp_consts]: "WAKE_SOURCE_PIN_MASK_LEN = 4"

datatype wake_source_pin_mask = WakeSourcePinMask (wake_bits: u32)

definition wake_mask_encode :: "wake_source_pin_mask \<Rightarrow> bytes" where
  "wake_mask_encode m = to_be_bytes (wake_bits m)"

definition wake_mask_decode :: "bytes \<Rightarrow> wake_source_pin_mask rcp_result" where
  "wake_mask_decode b =
    (if length b < WAKE_SOURCE_PIN_MASK_LEN then Inl ShortFrame
     else Inr (WakeSourcePinMask (from_be_bytes (subslice 0 4 b))))"

record wakeup_trigger_config =
  wake_enable :: wake_source_pin_mask

definition wakeup_trigger_config_encode :: "wakeup_trigger_config \<Rightarrow> bytes" where
  "wakeup_trigger_config_encode c = wake_mask_encode (wake_enable c)"

definition wakeup_trigger_config_decode :: "bytes \<Rightarrow> wakeup_trigger_config rcp_result" where
  "wakeup_trigger_config_decode b = and_then (wake_mask_decode b) (\<lambda>m. Inr \<lparr>wake_enable = m\<rparr>)"

record wake_source_signals =
  wake_fired :: wake_source_pin_mask

definition any_fired :: "wake_source_signals \<Rightarrow> bool" where
  "any_fired s \<longleftrightarrow> wake_bits (wake_fired s) \<noteq> 0"

definition evaluate_wake_source_signals ::
  "wakeup_trigger_config \<Rightarrow> wake_source_pin_mask \<Rightarrow> wake_source_signals" where
  "evaluate_wake_source_signals config observed =
    \<lparr>wake_fired = WakeSourcePinMask (wake_bits observed AND wake_bits (wake_enable config))\<rparr>"

record wakeup_functional_config =
  wakeup_trigger :: wakeup_trigger_config

definition wakeup_layer_tag :: "wakeup_functional_config \<Rightarrow> per_ep_type_functional_config" where
  "wakeup_layer_tag c = \<lparr>fun_ep_type = Wakeup\<rparr>"

definition request_sleep_via_sleep_cmd ::
  "sleep_cmd_request \<Rightarrow> power_mode \<Rightarrow> power_mode \<Rightarrow> power_mode_gate_input \<Rightarrow> power_mode rcp_result" where
  "request_sleep_via_sleep_cmd cmd from_mode to_mode gate = try_enter_power_mode from_mode to_mode gate"

definition wake_source_signals_trigger_handshake ::
  "wakeup_handshake_state \<Rightarrow> wake_source_signals \<Rightarrow> wakeup_handshake_state rcp_result" where
  "wake_source_signals_trigger_handshake state signals =
    (if \<not> any_fired signals then Inl RequestRejected else send_wakeup_request state)"

section \<open>Codecs\<close>

interpretation gpio_mask: exact_codec gpio_bitmask_encode gpio_bitmask_decode 4
proof
  show "\<exists>m. gpio_bitmask_decode bs = Inr m \<and> gpio_bitmask_encode m = bs" if "length bs = 4" for bs
    using that by (simp add: gpio_bitmask_encode_def gpio_bitmask_decode_def subslice_whole rcp_consts)
qed (simp_all add: gpio_bitmask_encode_def gpio_bitmask_decode_def rcp_consts subslice_def)

lemma gpio_trigger_config_decode_parts:
  "12 \<le> length b \<Longrightarrow> gpio_trigger_config_decode b =
     Inr \<lparr>change_enable = GpioBitmask (from_be_bytes (subslice 0 4 b)),
          rising_enable = GpioBitmask (from_be_bytes (subslice 4 4 b)),
          falling_enable = GpioBitmask (from_be_bytes (subslice 8 4 b))\<rparr>"
  by (simp add: gpio_trigger_config_decode_def gpio_bitmask_decode_def rcp_consts length_subslice subslice_whole)

interpretation gpio_triggers: exact_codec gpio_trigger_config_encode gpio_trigger_config_decode 12
proof
  show "\<exists>c. gpio_trigger_config_decode bs = Inr c \<and> gpio_trigger_config_encode c = bs" if "length bs = 12" for bs
    using that
    by (simp add: gpio_trigger_config_decode_parts gpio_trigger_config_encode_def gpio_bitmask_encode_def
        length_subslice join_slices)
  show "gpio_trigger_config_decode (gpio_trigger_config_encode c @ rest) = Inr c" for c rest
    by (cases c, cases "change_enable c"; cases "rising_enable c"; cases "falling_enable c")
      (simp add: gpio_trigger_config_decode_parts gpio_trigger_config_encode_def gpio_bitmask_encode_def subslice_def)
qed (simp_all add: gpio_trigger_config_encode_def gpio_bitmask_encode_def gpio_trigger_config_decode_def rcp_consts)

interpretation wake_mask: exact_codec wake_mask_encode wake_mask_decode 4
proof
  show "\<exists>m. wake_mask_decode bs = Inr m \<and> wake_mask_encode m = bs" if "length bs = 4" for bs
    using that by (simp add: wake_mask_encode_def wake_mask_decode_def subslice_whole rcp_consts)
qed (simp_all add: wake_mask_encode_def wake_mask_decode_def rcp_consts subslice_def)

interpretation wake_triggers: exact_codec wakeup_trigger_config_encode wakeup_trigger_config_decode 4
proof
  show "\<exists>c. wakeup_trigger_config_decode bs = Inr c \<and> wakeup_trigger_config_encode c = bs" if "length bs = 4" for bs
    using wake_mask.dec_exact [OF that] by (auto simp: wakeup_trigger_config_encode_def wakeup_trigger_config_decode_def)
qed (simp_all add: wakeup_trigger_config_encode_def wakeup_trigger_config_decode_def wake_mask.length_enc
    wake_mask.dec_enc_append wake_mask.dec_short)

lemma gpio_write_from_sub_opcode_Inr:
  "gpio_write_from_sub_opcode raw = Inr s \<longleftrightarrow> raw = gpio_write_to_sub_opcode s"
  by (cases s) (auto simp: gpio_write_from_sub_opcode_def)

lemma sleep_cmd_decode_Inr: "sleep_cmd_decode b = Inr c \<longleftrightarrow> (\<exists>rest. b = sleep_cmd_encode c @ rest)"
  by (cases c) (auto simp: sleep_cmd_decode_def sleep_cmd_encode_def split: list.split)

section \<open>Writes as arithmetic\<close>

text \<open>The value after a write, as a number for the two counting operations and pin by pin otherwise.\<close>

definition gpio_write_spec :: "gpio_write_semantics \<Rightarrow> u32 \<Rightarrow> u32 \<Rightarrow> u32 \<Rightarrow> bool" where
  "gpio_write_spec s current operand result \<longleftrightarrow>
    (case s of
       AddSaturating \<Rightarrow> unat result = min (unat current + unat operand) (2 ^ 32 - 1)
     | SubtractSaturating \<Rightarrow> unat result = unat current - unat operand
     | Reserved4 \<Rightarrow> False
     | _ \<Rightarrow> \<forall>n\<in>{..<32}. bit result n =
         (case s of OrMask \<Rightarrow> bit current n \<or> bit operand n
          | AndMask \<Rightarrow> bit current n \<and> bit operand n
          | XorMask \<Rightarrow> bit current n \<noteq> bit operand n
          | _ \<Rightarrow> bit operand n))"

lemma u32_bits_eq: "(\<forall>n\<in>{..<32}. bit (a :: u32) n = bit b n) \<longleftrightarrow> a = b"
  by (auto intro!: bit_word_eqI)

lemma apply_gpio_write_iff:
  "apply_gpio_write s (GpioBitmask a) (GpioBitmask b) = Inr (GpioBitmask r) \<longleftrightarrow> gpio_write_spec s a b r"
proof (cases s)
  case AddSaturating
  then show ?thesis
    using unat_saturating_add [of a b] by (auto simp: apply_gpio_write_def gpio_write_spec_def word_unat_eq_iff)
next
  case SubtractSaturating
  then show ?thesis
    using unat_saturating_sub [of a b] by (auto simp: apply_gpio_write_def gpio_write_spec_def word_unat_eq_iff)
next
  case OrMask
  then show ?thesis using u32_bits_eq [of r "a OR b"] by (auto simp: apply_gpio_write_def gpio_write_spec_def bit_simps)
next
  case AndMask
  then show ?thesis using u32_bits_eq [of r "a AND b"] by (auto simp: apply_gpio_write_def gpio_write_spec_def bit_simps)
next
  case XorMask
  then show ?thesis using u32_bits_eq [of r "a XOR b"] by (auto simp: apply_gpio_write_def gpio_write_spec_def bit_simps)
qed (use u32_bits_eq [of r b] in \<open>auto simp: apply_gpio_write_def gpio_write_spec_def\<close>)

section \<open>Edges\<close>

lemma gpio_trigger_bits:
  "bit (gpio_bits (pins_changed (evaluate_gpio_triggers c p q))) n
     \<longleftrightarrow> bit (gpio_bits p) n \<noteq> bit (gpio_bits q) n \<and> bit (gpio_bits (change_enable c)) n"
  "bit (gpio_bits (pins_rising (evaluate_gpio_triggers c p q))) n
     \<longleftrightarrow> \<not> bit (gpio_bits p) n \<and> bit (gpio_bits q) n \<and> bit (gpio_bits (rising_enable c)) n"
  "bit (gpio_bits (pins_falling (evaluate_gpio_triggers c p q))) n
     \<longleftrightarrow> bit (gpio_bits p) n \<and> \<not> bit (gpio_bits q) n \<and> bit (gpio_bits (falling_enable c)) n"
  by (auto simp: evaluate_gpio_triggers_def Let_def bit_simps)

text \<open>The signals of a whole sequence of samples, each compared with the one before.\<close>

fun edge_history :: "gpio_trigger_config \<Rightarrow> gpio_bitmask \<Rightarrow> gpio_bitmask list \<Rightarrow> gpio_trigger_signals list" where
  "edge_history c p [] = []"
| "edge_history c p (q # qs) = evaluate_gpio_triggers c p q # edge_history c q qs"

definition edges_of :: "(gpio_trigger_signals \<Rightarrow> gpio_bitmask) \<Rightarrow> nat \<Rightarrow> gpio_trigger_signals list \<Rightarrow> nat" where
  "edges_of sel n signals = length (filter (\<lambda>s. bit (gpio_bits (sel s)) n) signals)"

text \<open>On a pin armed for both edges, the edges seen account for the level.\<close>

lemma edges_account_for_level:
  assumes "bit (gpio_bits (rising_enable c)) n" and "bit (gpio_bits (falling_enable c)) n"
  shows "int (edges_of pins_rising n (edge_history c p qs)) - int (edges_of pins_falling n (edge_history c p qs))
    = of_bool (bit (gpio_bits (last (p # qs))) n) - of_bool (bit (gpio_bits p) n)"
  using assms
proof (induction qs arbitrary: p)
  case (Cons q qs)
  from Cons.IH [OF Cons.prems, of q] show ?case
    using Cons.prems by (auto simp: edges_of_def gpio_trigger_bits)
qed (simp add: edges_of_def)

section \<open>Waking up\<close>

lemma any_fired_iff:
  "any_fired (evaluate_wake_source_signals c observed)
     \<longleftrightarrow> (\<exists>n. bit (wake_bits observed) n \<and> bit (wake_bits (wake_enable c)) n)"
  by (auto simp: any_fired_def evaluate_wake_source_signals_def bit_eq_iff bit_simps) (meson bit_u32_beyond not_le)

lemma wake_handshake_Inr:
  "wake_source_signals_trigger_handshake h (evaluate_wake_source_signals c observed) = Inr h' \<longleftrightarrow>
     h = HandshakeIdle \<and> h' = RequestSent
     \<and> (\<exists>n. bit (wake_bits observed) n \<and> bit (wake_bits (wake_enable c)) n)"
  by (cases h) (auto simp: wake_source_signals_trigger_handshake_def any_fired_iff)

section \<open>Further facts\<close>

text \<open>No edge is missed or invented. Over any sequence of samples of a pin that is armed for both edges, the rising edges reported less the falling edges reported are the difference between the last and the first level.\<close>

theorem edges_balance_level:
  assumes "bit (gpio_bits (rising_enable c)) n" and "bit (gpio_bits (falling_enable c)) n"
  shows "int (edges_of pins_rising n (edge_history c p qs)) - int (edges_of pins_falling n (edge_history c p qs))
    = of_bool (bit (gpio_bits (last (p # qs))) n) - of_bool (bit (gpio_bits p) n)"
  by (rule edges_account_for_level [OF assms])


end
