(* ===== verification/Rcp_Can.thy ===== *)
theory Rcp_Can
  imports Rcp_Regmap_Codecs Rcp_Evtgroup
begin

text \<open>
  The CAN endpoint of \<open>src/can.rs\<close>: frame formats, classical and FD data frames, XL frames with
  their sub-header and payloads put together from segments, and what a request asks for.
\<close>

section \<open>Formats\<close>

definition CLASSICAL_CAN_MAX_DATA :: nat where [rcp_consts]: "CLASSICAL_CAN_MAX_DATA = 8"
definition CAN_FD_MAX_PAYLOAD :: nat where [rcp_consts]: "CAN_FD_MAX_PAYLOAD = 64"
definition CAN_XL_MAX_PAYLOAD :: nat where [rcp_consts]: "CAN_XL_MAX_PAYLOAD = 2048"
definition CAN_XL_SUB_HEADER_LEN :: nat where [rcp_consts]: "CAN_XL_SUB_HEADER_LEN = 6"
definition CAN_STANDARD_ID_MAX :: u32 where [rcp_consts]: "CAN_STANDARD_ID_MAX = 0x7FF"
definition CAN_EXTENDED_ID_MAX :: u32 where [rcp_consts]: "CAN_EXTENDED_ID_MAX = 0x1FFFFFFF"

datatype frame_format = Cbff | Ceff | Fbff | Feff | XlClassical | XlNew

fun frame_format_to_u8 :: "frame_format \<Rightarrow> u8" where
  "frame_format_to_u8 Cbff = 0"
| "frame_format_to_u8 Ceff = 1"
| "frame_format_to_u8 Fbff = 2"
| "frame_format_to_u8 Feff = 3"
| "frame_format_to_u8 XlClassical = 4"
| "frame_format_to_u8 XlNew = 5"

definition frame_format_from_u8 :: "u8 \<Rightarrow> frame_format rcp_result" where
  "frame_format_from_u8 raw =
    (if raw = 0 then Inr Cbff else if raw = 1 then Inr Ceff
     else if raw = 2 then Inr Fbff else if raw = 3 then Inr Feff
     else if raw = 4 then Inr XlClassical else if raw = 5 then Inr XlNew
     else Inl InvalidParameter)"

definition is_classical :: "frame_format \<Rightarrow> bool" where
  "is_classical f \<longleftrightarrow> f = Cbff \<or> f = Ceff"

definition is_fd :: "frame_format \<Rightarrow> bool" where
  "is_fd f \<longleftrightarrow> f = Fbff \<or> f = Feff"

definition is_xl :: "frame_format \<Rightarrow> bool" where
  "is_xl f \<longleftrightarrow> f = XlClassical \<or> f = XlNew"

definition is_extended_id :: "frame_format \<Rightarrow> bool" where
  "is_extended_id f \<longleftrightarrow> f = Ceff \<or> f = Feff"

definition max_data_len :: "frame_format \<Rightarrow> nat option" where
  "max_data_len f =
    (if is_classical f then Some CLASSICAL_CAN_MAX_DATA
     else if is_fd f then Some CAN_FD_MAX_PAYLOAD
     else None)"

section \<open>Data frames\<close>

record can_data_frame =
  can_format :: frame_format
  can_id :: u32
  can_data :: bytes

definition can_data_frame_encode :: "can_data_frame \<Rightarrow> bytes" where
  "can_data_frame_encode f = frame_format_to_u8 (can_format f) # to_be_bytes (can_id f) @ can_data f"

definition can_data_frame_decode :: "bytes \<Rightarrow> can_data_frame rcp_result" where
  "can_data_frame_decode b =
    (if length b < 5 then Inl ShortFrame
     else and_then (frame_format_from_u8 (b ! 0)) (\<lambda>format.
       if is_xl format then Inl InvalidParameter
       else let id_value = from_be_bytes (subslice 1 4 b);
                id_max = (if is_extended_id format then CAN_EXTENDED_ID_MAX else CAN_STANDARD_ID_MAX) in
         if id_value > id_max then Inl InvalidParameter
         else let data = drop 5 b;
                  max_len = (case max_data_len format of Some n \<Rightarrow> n | None \<Rightarrow> CLASSICAL_CAN_MAX_DATA) in
           if length data > max_len then Inl PayloadTooLarge
           else Inr \<lparr>can_format = format, can_id = id_value, can_data = data\<rparr>))"

section \<open>XL frames\<close>

datatype can_xl_sub_header = CanXlSubHeader (xl_raw: bytes)

definition can_xl_sub_header_encode :: "can_xl_sub_header \<Rightarrow> bytes" where
  "can_xl_sub_header_encode h = xl_raw h"

definition can_xl_sub_header_decode :: "bytes \<Rightarrow> can_xl_sub_header rcp_result" where
  "can_xl_sub_header_decode b =
    (if length b < CAN_XL_SUB_HEADER_LEN then Inl ShortFrame
     else Inr (CanXlSubHeader (take CAN_XL_SUB_HEADER_LEN b)))"

record can_xl_frame =
  xl_format :: frame_format
  xl_sub_header :: can_xl_sub_header
  xl_payload :: bytes

definition can_xl_frame_encode :: "can_xl_frame \<Rightarrow> bytes" where
  "can_xl_frame_encode f =
    frame_format_to_u8 (xl_format f) # can_xl_sub_header_encode (xl_sub_header f) @ xl_payload f"

definition can_xl_frame_decode :: "bytes \<Rightarrow> can_xl_frame rcp_result" where
  "can_xl_frame_decode b =
    (if length b < 1 + CAN_XL_SUB_HEADER_LEN then Inl ShortFrame
     else and_then (frame_format_from_u8 (b ! 0)) (\<lambda>format.
       if \<not> is_xl format then Inl InvalidParameter
       else and_then (can_xl_sub_header_decode (drop 1 b)) (\<lambda>sub_header.
         let payload = drop (1 + CAN_XL_SUB_HEADER_LEN) b in
         if length payload > CAN_XL_MAX_PAYLOAD then Inl PayloadTooLarge
         else Inr \<lparr>xl_format = format, xl_sub_header = sub_header, xl_payload = payload\<rparr>)))"

datatype can_xl_combined_payload = CanXlCombinedPayload bytes

definition can_xl_assemble :: "bytes list \<Rightarrow> can_xl_combined_payload" where
  "can_xl_assemble segs = CanXlCombinedPayload (foldl (\<lambda>combined segment. combined @ segment) [] segs)"

section \<open>Configuration and requests\<close>

record can_functional_config =
  can_config_format :: frame_format

definition can_layer_tag :: "can_functional_config \<Rightarrow> per_ep_type_functional_config" where
  "can_layer_tag c = \<lparr>fun_ep_type = Can\<rparr>"

datatype can_request = CanPlain can_data_frame | CanConfigWrite

definition can_request_from_evt_sub_opcode :: "u8 \<Rightarrow> can_data_frame \<Rightarrow> can_request rcp_result" where
  "can_request_from_evt_sub_opcode sub_opcode frame =
    (case evt_row2_kind_of sub_opcode of
       Plain \<Rightarrow> Inr (CanPlain frame)
     | ConfigWrite \<Rightarrow> Inl ConfigWriteNotImplemented
     | Reserved \<Rightarrow> Inl UnsupportedCmd)"

interpretation can_request: row2_request can_request_from_evt_sub_opcode "\<lambda>f. Inr (CanPlain f)"
  "Inl ConfigWriteNotImplemented"
  by unfold_locales (simp add: can_request_from_evt_sub_opcode_def)

section \<open>Exactly the well-formed frames are decoded\<close>

lemma frame_format_from_u8_Inr: "frame_format_from_u8 raw = Inr f \<longleftrightarrow> raw = frame_format_to_u8 f"
  by (cases f) (auto simp: frame_format_from_u8_def)

definition can_data_frame_ok :: "can_data_frame \<Rightarrow> bool" where
  "can_data_frame_ok f \<longleftrightarrow>
     \<not> is_xl (can_format f)
     \<and> can_id f \<le> (if is_extended_id (can_format f) then CAN_EXTENDED_ID_MAX else CAN_STANDARD_ID_MAX)
     \<and> length (can_data f) \<le> (if is_fd (can_format f) then CAN_FD_MAX_PAYLOAD else CLASSICAL_CAN_MAX_DATA)"

definition can_xl_frame_ok :: "can_xl_frame \<Rightarrow> bool" where
  "can_xl_frame_ok f \<longleftrightarrow>
     is_xl (xl_format f) \<and> length (xl_raw (xl_sub_header f)) = CAN_XL_SUB_HEADER_LEN
     \<and> length (xl_payload f) \<le> CAN_XL_MAX_PAYLOAD"

lemma max_data_len_cases:
  "\<not> is_xl f \<Longrightarrow> max_data_len f = Some (if is_fd f then CAN_FD_MAX_PAYLOAD else CLASSICAL_CAN_MAX_DATA)"
  by (cases f) (simp_all add: max_data_len_def is_classical_def is_fd_def is_xl_def)

lemma can_frame_parts:
  "5 \<le> length b \<Longrightarrow> b ! 0 # subslice 1 4 b @ drop 5 b = b"
  using subslice_append_drop [of 1 4 b] by (cases b) (simp_all add: drop_Cons')

interpretation can_frame: frame_codec can_data_frame_encode can_data_frame_decode can_data_frame_ok
proof
  fix b :: bytes and f
  show "can_data_frame_decode b = Inr f \<longleftrightarrow> b = can_data_frame_encode f \<and> can_data_frame_ok f"
  proof
    assume dec: "can_data_frame_decode b = Inr f"
    then have len: "5 \<le> length b" by (auto simp: can_data_frame_decode_def not_less split: if_splits)
    have "b ! 0 = frame_format_to_u8 (can_format f)" and "from_be_bytes (subslice 1 4 b) = can_id f"
      and "drop 5 b = can_data f" and ok: "can_data_frame_ok f"
      using dec len
      by (auto simp: can_data_frame_decode_def and_then_eq_Inr Let_def frame_format_from_u8_Inr can_data_frame_ok_def
          max_data_len_cases not_less split: if_splits)
    moreover have "to_be_bytes (from_be_bytes (subslice 1 4 b) :: u32) = subslice 1 4 b"
      using len by (simp add: length_subslice)
    ultimately have "b = can_data_frame_encode f"
      using can_frame_parts [OF len] by (simp add: can_data_frame_encode_def)
    with ok show "b = can_data_frame_encode f \<and> can_data_frame_ok f" by simp
  next
    assume "b = can_data_frame_encode f \<and> can_data_frame_ok f"
    then show "can_data_frame_decode b = Inr f"
      by (auto simp: can_data_frame_decode_def can_data_frame_encode_def can_data_frame_ok_def
          frame_format_from_u8_Inr [THEN iffD2] subslice_def max_data_len_cases Let_def not_less)
  qed
qed

interpretation xl_frame: frame_codec can_xl_frame_encode can_xl_frame_decode can_xl_frame_ok
proof
  fix b :: bytes and f
  show "can_xl_frame_decode b = Inr f \<longleftrightarrow> b = can_xl_frame_encode f \<and> can_xl_frame_ok f"
  proof
    assume dec: "can_xl_frame_decode b = Inr f"
    then obtain x xs where b: "b = x # xs" and len: "6 \<le> length xs"
      by (cases b) (auto simp: can_xl_frame_decode_def not_less rcp_consts split: if_splits)
    have "x = frame_format_to_u8 (xl_format f)" and "take 6 xs = xl_raw (xl_sub_header f)"
      and "drop 6 xs = xl_payload f" and ok: "can_xl_frame_ok f"
      using dec len
      by (auto simp: b can_xl_frame_decode_def can_xl_sub_header_decode_def and_then_eq_Inr Let_def
          frame_format_from_u8_Inr can_xl_frame_ok_def not_less rcp_consts split: if_splits)
    then show "b = can_xl_frame_encode f \<and> can_xl_frame_ok f"
      using append_take_drop_id [of 6 xs] by (simp add: b can_xl_frame_encode_def can_xl_sub_header_encode_def)
  next
    assume "b = can_xl_frame_encode f \<and> can_xl_frame_ok f"
    then show "can_xl_frame_decode b = Inr f"
      by (cases "xl_sub_header f")
        (auto simp: can_xl_frame_decode_def can_xl_frame_encode_def can_xl_sub_header_encode_def
          can_xl_sub_header_decode_def can_xl_frame_ok_def frame_format_from_u8_Inr [THEN iffD2] Let_def not_less rcp_consts)
  qed
qed

text \<open>No octets are both a data frame and an XL frame.\<close>

lemma can_frames_disjoint: "can_data_frame_decode b = Inr f \<Longrightarrow> can_xl_frame_decode b \<noteq> Inr g"
  by (auto simp: can_frame.dec_Inr_iff xl_frame.dec_Inr_iff can_data_frame_encode_def can_xl_frame_encode_def
      can_data_frame_ok_def can_xl_frame_ok_def)
    (metis frame_format_from_u8_Inr sum.inject(2))

lemma can_xl_assemble_concat: "can_xl_assemble segs = CanXlCombinedPayload (concat segs)"
proof -
  have "foldl (\<lambda>combined segment. combined @ segment) acc segs = acc @ concat segs" for acc :: bytes
    by (induction segs arbitrary: acc) simp_all
  then show ?thesis by (simp add: can_xl_assemble_def)
qed

section \<open>Properties\<close>

text \<open>C38: only well-formed CAN frames are decoded, and all of them. A buffer decodes to a data frame exactly when it is the encoding of a frame whose format is not XL, whose identifier fits the format and whose data fit the format; to an XL frame exactly when it is the encoding of a well-formed XL frame; and never to both.\<close>

theorem can_frames_well_formed:
  "(can_data_frame_decode b = Inr f \<longleftrightarrow> b = can_data_frame_encode f \<and> can_data_frame_ok f)
   \<and> (can_xl_frame_decode b = Inr x \<longleftrightarrow> b = can_xl_frame_encode x \<and> can_xl_frame_ok x)
   \<and> \<not> (can_data_frame_decode b = Inr f \<and> can_xl_frame_decode b = Inr x)"
  using can_frame.dec_Inr_iff [of b f] xl_frame.dec_Inr_iff [of b x] can_frames_disjoint [of b f x] by blast


end
