(* ===== verification/Rcp_Iseled.thy ===== *)
theory Rcp_Iseled
  imports Rcp_Regmap_Codecs Rcp_Evtgroup
begin

text \<open>
  The ISELED endpoint of \<open>src/iseled.rs\<close>: 4b/5b line coding, frames for a device of the daisy
  chain, the native checksum and the collected responses.
\<close>

section \<open>Line coding\<close>

definition NIBBLE_TO_5B :: "u8 list" where
  "NIBBLE_TO_5B =
    [0b11110, 0b01001, 0b10100, 0b10101, 0b01010, 0b01011, 0b01110, 0b01111,
     0b10010, 0b10011, 0b10110, 0b10111, 0b11010, 0b11011, 0b11100, 0b11101]"

text \<open>\<open>position\<close> of an iterator: the index of the first element with the property.\<close>

fun position :: "('a \<Rightarrow> bool) \<Rightarrow> 'a list \<Rightarrow> nat option" where
  "position P [] = None"
| "position P (x # xs) = (if P x then Some 0 else map_option Suc (position P xs))"

definition symbol_to_nibble :: "u8 \<Rightarrow> u8 option" where
  "symbol_to_nibble symbol = map_option of_nat (position (\<lambda>code. code = symbol) NIBBLE_TO_5B)"

fun encode_4b5b :: "bytes \<Rightarrow> bytes" where
  "encode_4b5b [] = []"
| "encode_4b5b (byte # data) =
     NIBBLE_TO_5B ! unat (drop_bit 4 byte) # NIBBLE_TO_5B ! unat (byte AND 0x0F) # encode_4b5b data"

text \<open>The loop over the pairs of symbols, once their number is known to be even.\<close>

fun decode_pairs :: "bytes \<Rightarrow> bytes rcp_result" where
  "decode_pairs (hi_symbol # lo_symbol # symbols) =
     and_then (ok_or (symbol_to_nibble hi_symbol) InvalidParameter) (\<lambda>hi.
     and_then (ok_or (symbol_to_nibble lo_symbol) InvalidParameter) (\<lambda>lo.
     and_then (decode_pairs symbols) (\<lambda>out. Inr ((push_bit 4 hi OR lo) # out))))"
| "decode_pairs _ = Inr []"

definition decode_4b5b :: "bytes \<Rightarrow> bytes rcp_result" where
  "decode_4b5b symbols = (if length symbols mod 2 \<noteq> 0 then Inl ShortFrame else decode_pairs symbols)"

section \<open>Frames\<close>

record iseled_frame =
  iseled_chain_address :: u8
  iseled_command :: u8
  iseled_data :: bytes

definition iseled_frame_encode :: "iseled_frame \<Rightarrow> bytes" where
  "iseled_frame_encode f = iseled_chain_address f # iseled_command f # iseled_data f"

definition iseled_frame_decode :: "bytes \<Rightarrow> iseled_frame rcp_result" where
  "iseled_frame_decode b =
    (if length b < 2 then Inl ShortFrame
     else Inr \<lparr>iseled_chain_address = b ! 0, iseled_command = b ! 1, iseled_data = drop 2 b\<rparr>)"

definition iseled_encode_line :: "iseled_frame \<Rightarrow> bytes" where
  "iseled_encode_line f = encode_4b5b (iseled_frame_encode f)"

definition iseled_decode_line :: "bytes \<Rightarrow> iseled_frame rcp_result" where
  "iseled_decode_line symbols = and_then (decode_4b5b symbols) iseled_frame_decode"

section \<open>The native checksum\<close>

definition crc8_shift :: "u8 \<Rightarrow> u8" where
  "crc8_shift crc = (if crc AND 0x80 \<noteq> 0 then push_bit 1 crc XOR 0x2F else push_bit 1 crc)"

definition crc8_byte :: "u8 \<Rightarrow> u8 \<Rightarrow> u8" where
  "crc8_byte crc byte = (crc8_shift ^^ 8) (crc XOR byte)"

definition crc8_autosar :: "bytes \<Rightarrow> u8" where
  "crc8_autosar data = foldl crc8_byte 0xFF data XOR 0xFF"

datatype iseled_frame_crc = IseledFrameCrc u8

definition iseled_frame_crc8 :: "iseled_frame \<Rightarrow> iseled_frame_crc" where
  "iseled_frame_crc8 f = IseledFrameCrc (crc8_autosar (iseled_frame_encode f))"

section \<open>Responses, configuration and requests\<close>

record iseled_device_response =
  response_chain_address :: u8
  response_data :: bytes

datatype iseled_collected_response = IseledCollectedResponse "iseled_device_response list"

definition iseled_collect_resp :: "iseled_device_response list \<Rightarrow> iseled_collected_response" where
  "iseled_collect_resp per_device = IseledCollectedResponse per_device"

record iseled_functional_config =
  native_crc_enabled :: bool

definition iseled_layer_tag :: "iseled_functional_config \<Rightarrow> per_ep_type_functional_config" where
  "iseled_layer_tag c = \<lparr>fun_ep_type = Iseled\<rparr>"

datatype iseled_request = IseledPlain iseled_frame | IseledConfigWrite

definition iseled_request_from_evt_sub_opcode :: "u8 \<Rightarrow> iseled_frame \<Rightarrow> iseled_request rcp_result" where
  "iseled_request_from_evt_sub_opcode sub_opcode frame =
    (case evt_row2_kind_of sub_opcode of
       Plain \<Rightarrow> Inr (IseledPlain frame)
     | ConfigWrite \<Rightarrow> Inl ConfigWriteNotImplemented
     | Reserved \<Rightarrow> Inl UnsupportedCmd)"

interpretation iseled_request: row2_request iseled_request_from_evt_sub_opcode "\<lambda>f. Inr (IseledPlain f)"
  "Inl ConfigWriteNotImplemented"
  by unfold_locales (simp add: iseled_request_from_evt_sub_opcode_def)

section \<open>The line code is exact\<close>

lemma position_SomeD: "position P xs = Some i \<Longrightarrow> i < length xs \<and> P (xs ! i)"
  by (induction P xs arbitrary: i rule: position.induct) (auto split: if_splits)

lemma position_nth:
  assumes "distinct xs" and "i < length xs"
  shows "position (\<lambda>x. x = xs ! i) xs = Some i"
  using assms
proof (induction xs arbitrary: i)
  case (Cons x xs)
  show ?case
  proof (cases i)
    case (Suc j)
    with Cons.prems have "x \<noteq> xs ! j" by auto
    with Suc Cons show ?thesis by simp
  qed simp
qed simp

lemma distinct_NIBBLE_TO_5B: "distinct NIBBLE_TO_5B"
  by (simp add: NIBBLE_TO_5B_def)

lemma length_NIBBLE_TO_5B: "length NIBBLE_TO_5B = 16"
  by (simp add: NIBBLE_TO_5B_def)

lemma nibble_small: "unat (drop_bit 4 (b :: u8)) < 16" "unat (b AND 0x0F :: u8) < 16"
proof -
  have "drop_bit 4 b \<le> mask 4"
    by (rule not_bit_imp_le_mask) (simp add: bit_simps)
  moreover have "b AND 0x0F \<le> 0x0F" by (rule word_and_le1)
  ultimately show "unat (drop_bit 4 b) < 16" "unat (b AND 0x0F) < 16"
    by (simp_all add: mask_eq_exp_minus_1 word_le_nat_alt)
qed

lemma symbol_to_nibble_code:
  assumes "unat n < 16"
  shows "symbol_to_nibble (NIBBLE_TO_5B ! unat n) = Some n"
  using position_nth [OF distinct_NIBBLE_TO_5B, of "unat n"] assms
  by (simp add: symbol_to_nibble_def length_NIBBLE_TO_5B)

lemma symbol_to_nibble_Some:
  assumes "symbol_to_nibble s = Some n"
  shows "s = NIBBLE_TO_5B ! unat n" and "unat n < 16"
proof -
  from assms obtain i where i: "position (\<lambda>code. code = s) NIBBLE_TO_5B = Some i" and n: "n = of_nat i"
    by (auto simp: symbol_to_nibble_def)
  from position_SomeD [OF i] have "i < 16" "NIBBLE_TO_5B ! i = s" by (simp_all add: length_NIBBLE_TO_5B)
  then show "s = NIBBLE_TO_5B ! unat n" and "unat n < 16" by (simp_all add: n unat_of_nat)
qed

lemma join_nibbles: "push_bit 4 (drop_bit 4 b) OR (b AND 0x0F) = (b :: u8)"
  by (simp add: u8_eq_iff bit_simps)

lemma split_nibbles:
  assumes "unat (hi :: u8) < 16" and "unat (lo :: u8) < 16"
  shows "drop_bit 4 (push_bit 4 hi OR lo) = hi" and "(push_bit 4 hi OR lo) AND 0x0F = lo"
proof -
  have "uint hi < 2 ^ 4" "uint lo < 2 ^ 4"
    using assms of_nat_less_iff [of "unat hi" 16, where 'a = int] of_nat_less_iff [of "unat lo" 16, where 'a = int]
    by simp_all
  then have "\<not> bit hi n" "\<not> bit lo n" if "4 \<le> n" for n
    using uint_less_imp_not_bit that by blast+
  then show "drop_bit 4 (push_bit 4 hi OR lo) = hi" and "(push_bit 4 hi OR lo) AND 0x0F = lo"
    by (simp_all add: u8_eq_iff bit_simps)
qed

lemma length_encode_4b5b: "length (encode_4b5b data) = 2 * length data"
  by (induction data) simp_all

lemma decode_pairs_Inr_iff:
  "even (length symbols) \<Longrightarrow> decode_pairs symbols = Inr data \<longleftrightarrow> symbols = encode_4b5b data"
proof (induction symbols arbitrary: data rule: decode_pairs.induct)
  case (1 hi_symbol lo_symbol symbols)
  show ?case
  proof
    assume "decode_pairs (hi_symbol # lo_symbol # symbols) = Inr data"
    then obtain hi lo out where h: "symbol_to_nibble hi_symbol = Some hi" and l: "symbol_to_nibble lo_symbol = Some lo"
      and "decode_pairs symbols = Inr out" and d: "data = (push_bit 4 hi OR lo) # out"
      by (auto simp: and_then_eq_Inr)
    then have "symbols = encode_4b5b out" using 1 by auto
    then show "hi_symbol # lo_symbol # symbols = encode_4b5b data"
      unfolding d encode_4b5b.simps
        split_nibbles [OF symbol_to_nibble_Some(2) [OF h] symbol_to_nibble_Some(2) [OF l]]
      using symbol_to_nibble_Some(1) [OF h] symbol_to_nibble_Some(1) [OF l] by simp
  next
    assume e: "hi_symbol # lo_symbol # symbols = encode_4b5b data"
    then obtain b out where d: "data = b # out" by (cases data) simp_all
    with e have "symbols = encode_4b5b out" by simp
    with 1 have "decode_pairs symbols = Inr out" by auto
    then show "decode_pairs (hi_symbol # lo_symbol # symbols) = Inr data"
      using e by (simp add: d symbol_to_nibble_code nibble_small join_nibbles)
  qed
next
  case "2_1"
  then show ?case by (cases data) auto
qed simp

lemma decode_4b5b_Inr_iff: "decode_4b5b symbols = Inr data \<longleftrightarrow> symbols = encode_4b5b data"
proof (cases "even (length symbols)")
  case True
  then show ?thesis using decode_pairs_Inr_iff [OF True] by (simp add: decode_4b5b_def even_iff_mod_2_eq_zero)
next
  case False
  then show ?thesis by (auto simp: decode_4b5b_def length_encode_4b5b even_iff_mod_2_eq_zero)
qed

interpretation line_code: frame_codec encode_4b5b decode_4b5b "\<lambda>_. True"
  by unfold_locales (simp add: decode_4b5b_Inr_iff)

interpretation iseled_octets: frame_codec iseled_frame_encode iseled_frame_decode "\<lambda>_. True"
proof
  fix b :: bytes and f
  show "iseled_frame_decode b = Inr f \<longleftrightarrow> b = iseled_frame_encode f \<and> True"
    by (cases b rule: remdups_adj.cases) (auto simp: iseled_frame_decode_def iseled_frame_encode_def)
qed

interpretation iseled_line: frame_codec iseled_encode_line iseled_decode_line "\<lambda>_. True"
proof
  fix b :: bytes and f
  show "iseled_decode_line b = Inr f \<longleftrightarrow> b = iseled_encode_line f \<and> True"
    by (auto simp: iseled_decode_line_def iseled_encode_line_def and_then_eq_Inr decode_4b5b_Inr_iff
        iseled_octets.dec_Inr_iff)
qed

text \<open>
  The point of the code: in two symbols one after the other there are at most three levels of
  zero in a row, so the line changes often enough for the receiver's clock.
\<close>

definition symbol_levels :: "u8 \<Rightarrow> bool list" where
  "symbol_levels s = map (bit s) [4, 3, 2, 1, 0]"

fun longest_low :: "bool list \<Rightarrow> nat \<Rightarrow> nat" where
  "longest_low [] n = n"
| "longest_low (True # bs) n = max n (longest_low bs 0)"
| "longest_low (False # bs) n = longest_low bs (Suc n)"

lemma longest_low_pairs:
  "\<forall>a\<in>set NIBBLE_TO_5B. \<forall>b\<in>set NIBBLE_TO_5B. longest_low (symbol_levels a @ symbol_levels b) 0 \<le> 3"
  unfolding NIBBLE_TO_5B_def symbol_levels_def by code_simp

lemma encode_4b5b_symbols: "set (encode_4b5b data) \<subseteq> set NIBBLE_TO_5B"
  by (induction data) (simp_all add: nibble_small length_NIBBLE_TO_5B)

section \<open>Further facts\<close>

text \<open>The ISELED line code is lossless and tight. A sequence of line symbols decodes to a frame exactly when it is the encoding of that frame, and within the encoding of any octets two neighbouring symbols never hold the line low for more than three bit times.\<close>

theorem line_code_exact:
  "(iseled_decode_line symbols = Inr f \<longleftrightarrow> symbols = iseled_encode_line f)
   \<and> (\<forall>a \<in> set (encode_4b5b data). \<forall>b \<in> set (encode_4b5b data).
        longest_low (symbol_levels a @ symbol_levels b) 0 \<le> 3)"
  using iseled_line.dec_Inr_iff [of symbols f] longest_low_pairs encode_4b5b_symbols [of data] by blast


end
