(* ===== verification/Rcp_Serial.thy ===== *)
theory Rcp_Serial
  imports Rcp_Regmap_Codecs Rcp_Evtgroup
begin

text \<open>
  The byte-oriented bus endpoints: SPI (\<open>src/spi.rs\<close>), I2C (\<open>src/i2c.rs\<close>), UART (\<open>src/uart.rs\<close>),
  LIN (\<open>src/lin.rs\<close>) and MDIO (\<open>src/mdio.rs\<close>): transfers, status blocks, functional
  configuration, and what a request asks for.
\<close>

section \<open>SPI\<close>

definition SPI_CHANNEL_COUNT :: nat where [rcp_consts]: "SPI_CHANNEL_COUNT = 6"

datatype spi_channel_select =
  Channel0 | Channel1 | Channel2 | Channel3 | Channel4 | Channel5 | Reserved6 | Reconfigure7

fun spi_channel_to_sub_opcode :: "spi_channel_select \<Rightarrow> u8" where
  "spi_channel_to_sub_opcode Channel0 = 0"
| "spi_channel_to_sub_opcode Channel1 = 1"
| "spi_channel_to_sub_opcode Channel2 = 2"
| "spi_channel_to_sub_opcode Channel3 = 3"
| "spi_channel_to_sub_opcode Channel4 = 4"
| "spi_channel_to_sub_opcode Channel5 = 5"
| "spi_channel_to_sub_opcode Reserved6 = 6"
| "spi_channel_to_sub_opcode Reconfigure7 = 7"

definition spi_channel_from_sub_opcode :: "u8 \<Rightarrow> spi_channel_select rcp_result" where
  "spi_channel_from_sub_opcode raw =
    (if raw = 0 then Inr Channel0 else if raw = 1 then Inr Channel1
     else if raw = 2 then Inr Channel2 else if raw = 3 then Inr Channel3
     else if raw = 4 then Inr Channel4 else if raw = 5 then Inr Channel5
     else if raw = 6 then Inr Reserved6 else if raw = 7 then Inr Reconfigure7
     else Inl InvalidParameter)"

definition spi_channel_is_named :: "spi_channel_select \<Rightarrow> bool" where
  "spi_channel_is_named s \<longleftrightarrow> \<not> (s = Reserved6 \<or> s = Reconfigure7)"

fun resolve_spi_channel_index :: "spi_channel_select \<Rightarrow> nat rcp_result" where
  "resolve_spi_channel_index Channel0 = Inr 0"
| "resolve_spi_channel_index Channel1 = Inr 1"
| "resolve_spi_channel_index Channel2 = Inr 2"
| "resolve_spi_channel_index Channel3 = Inr 3"
| "resolve_spi_channel_index Channel4 = Inr 4"
| "resolve_spi_channel_index Channel5 = Inr 5"
| "resolve_spi_channel_index Reserved6 = Inl UnsupportedCmd"
| "resolve_spi_channel_index Reconfigure7 = Inl UnsupportedCmd"

datatype spi_channel_config_slot = SpiChannelConfigSlot

text \<open>The array of slots has a fixed length in the code; \<open>spi_config_ok\<close> says so of the list.\<close>

record spi_functional_config =
  spi_channels :: "spi_channel_config_slot list"

definition spi_config_ok :: "spi_functional_config \<Rightarrow> bool" where
  "spi_config_ok c \<longleftrightarrow> length (spi_channels c) = SPI_CHANNEL_COUNT"

definition spi_functional_config_default :: spi_functional_config where
  "spi_functional_config_default = \<lparr>spi_channels = replicate SPI_CHANNEL_COUNT SpiChannelConfigSlot\<rparr>"

definition spi_layer_tag :: "spi_functional_config \<Rightarrow> per_ep_type_functional_config" where
  "spi_layer_tag c = \<lparr>fun_ep_type = Spi\<rparr>"

definition select_spi_channel_config ::
  "spi_channel_select \<Rightarrow> spi_functional_config \<Rightarrow> spi_channel_config_slot rcp_result" where
  "select_spi_channel_config select config =
    and_then (resolve_spi_channel_index select) (\<lambda>index. Inr (spi_channels config ! index))"

record spi_byte_transfer =
  spi_pico :: bytes

definition spi_transfer_encode :: "spi_byte_transfer \<Rightarrow> bytes" where
  "spi_transfer_encode t = spi_pico t"

definition spi_transfer_decode :: "bytes \<Rightarrow> spi_byte_transfer" where
  "spi_transfer_decode b = \<lparr>spi_pico = b\<rparr>"

record spi_byte_transfer_result =
  spi_poci :: bytes

definition spi_result_encode :: "spi_byte_transfer_result \<Rightarrow> bytes" where
  "spi_result_encode t = spi_poci t"

definition spi_result_decode :: "bytes \<Rightarrow> spi_byte_transfer_result" where
  "spi_result_decode b = \<lparr>spi_poci = b\<rparr>"

definition SPI_STATUS_LEN :: nat where [rcp_consts]: "SPI_STATUS_LEN = 20"
definition SPI_COMPOUND_WAIT_STATUS_LEN :: nat where [rcp_consts]: "SPI_COMPOUND_WAIT_STATUS_LEN = 4"

datatype spi_status = SpiStatus (spi_status_bytes: bytes)
datatype spi_compound_wait_status = SpiCompoundWaitStatus (wait_status_bytes: bytes)

definition spi_status_encode :: "spi_status \<Rightarrow> bytes" where
  "spi_status_encode s = spi_status_bytes s"

definition spi_status_decode :: "bytes \<Rightarrow> spi_status rcp_result" where
  "spi_status_decode b =
    (if length b < SPI_STATUS_LEN then Inl ShortFrame else Inr (SpiStatus (take SPI_STATUS_LEN b)))"

definition wait_status_encode :: "spi_compound_wait_status \<Rightarrow> bytes" where
  "wait_status_encode s = wait_status_bytes s"

definition wait_status_decode :: "bytes \<Rightarrow> spi_compound_wait_status rcp_result" where
  "wait_status_decode b =
    (if length b < SPI_COMPOUND_WAIT_STATUS_LEN then Inl ShortFrame
     else Inr (SpiCompoundWaitStatus (take SPI_COMPOUND_WAIT_STATUS_LEN b)))"

definition truncate_spi_status_for_compound_wait :: "spi_status \<Rightarrow> spi_compound_wait_status" where
  "truncate_spi_status_for_compound_wait s =
    SpiCompoundWaitStatus (take SPI_COMPOUND_WAIT_STATUS_LEN (spi_status_bytes s))"

section \<open>I2C\<close>

datatype i2c_speed_mode = I2cStandard | I2cFast | I2cFastPlus | HighSpeedRowA | HighSpeedRowB

fun i2c_speed_to_u8 :: "i2c_speed_mode \<Rightarrow> u8" where
  "i2c_speed_to_u8 I2cStandard = 0"
| "i2c_speed_to_u8 I2cFast = 1"
| "i2c_speed_to_u8 I2cFastPlus = 2"
| "i2c_speed_to_u8 HighSpeedRowA = 3"
| "i2c_speed_to_u8 HighSpeedRowB = 4"

definition i2c_speed_from_u8 :: "u8 \<Rightarrow> i2c_speed_mode rcp_result" where
  "i2c_speed_from_u8 raw =
    (if raw = 0 then Inr I2cStandard else if raw = 1 then Inr I2cFast
     else if raw = 2 then Inr I2cFastPlus else if raw = 3 then Inr HighSpeedRowA
     else if raw = 4 then Inr HighSpeedRowB else Inl InvalidParameter)"

definition is_ambiguous_high_speed_row :: "i2c_speed_mode \<Rightarrow> bool" where
  "is_ambiguous_high_speed_row m \<longleftrightarrow> m = HighSpeedRowA \<or> m = HighSpeedRowB"

record i2c_functional_config =
  i2c_speed :: i2c_speed_mode

definition i2c_layer_tag :: "i2c_functional_config \<Rightarrow> per_ep_type_functional_config" where
  "i2c_layer_tag c = \<lparr>fun_ep_type = I2c\<rparr>"

record i2c_byte_transfer =
  i2c_bytes :: bytes

definition i2c_transfer_encode :: "i2c_byte_transfer \<Rightarrow> bytes" where
  "i2c_transfer_encode t = i2c_bytes t"

definition i2c_transfer_decode :: "bytes \<Rightarrow> i2c_byte_transfer" where
  "i2c_transfer_decode b = \<lparr>i2c_bytes = b\<rparr>"

record i2c_byte_transfer_result =
  i2c_result_bytes :: bytes

definition i2c_result_encode :: "i2c_byte_transfer_result \<Rightarrow> bytes" where
  "i2c_result_encode t = i2c_result_bytes t"

definition i2c_result_decode :: "bytes \<Rightarrow> i2c_byte_transfer_result" where
  "i2c_result_decode b = \<lparr>i2c_result_bytes = b\<rparr>"

datatype i2c_request = I2cPlain i2c_byte_transfer | I2cConfigWrite

definition i2c_request_from_evt_sub_opcode :: "u8 \<Rightarrow> bytes \<Rightarrow> i2c_request rcp_result" where
  "i2c_request_from_evt_sub_opcode sub_opcode payload =
    (case evt_row2_kind_of sub_opcode of
       Plain \<Rightarrow> Inr (I2cPlain (i2c_transfer_decode payload))
     | ConfigWrite \<Rightarrow> Inr I2cConfigWrite
     | Reserved \<Rightarrow> Inl UnsupportedCmd)"

section \<open>UART\<close>

record uart_tx_queue =
  tx_bytes :: bytes

definition uart_tx_encode :: "uart_tx_queue \<Rightarrow> bytes" where
  "uart_tx_encode q = tx_bytes q"

definition uart_tx_decode :: "bytes \<Rightarrow> uart_tx_queue" where
  "uart_tx_decode b = \<lparr>tx_bytes = b\<rparr>"

record uart_rx_queue =
  rx_bytes :: bytes

definition uart_rx_encode :: "uart_rx_queue \<Rightarrow> bytes" where
  "uart_rx_encode q = rx_bytes q"

definition uart_rx_decode :: "bytes \<Rightarrow> uart_rx_queue" where
  "uart_rx_decode b = \<lparr>rx_bytes = b\<rparr>"

datatype uart_tx_queue_config = UartTxQueueConfig

record uart_rx_queue_config =
  rx_read_size :: read_size_or_segment
  uart_timeout :: u32

record uart_functional_config =
  uart_tx :: uart_tx_queue_config
  uart_rx :: uart_rx_queue_config

definition uart_layer_tag :: "uart_functional_config \<Rightarrow> per_ep_type_functional_config" where
  "uart_layer_tag c = \<lparr>fun_ep_type = Uart\<rparr>"

datatype uart_read_completion_reason = ReadSizeReached | TimedOut | BothReached

definition resolve_uart_read_completion ::
  "uart_rx_queue_config \<Rightarrow> u16 \<Rightarrow> u32 \<Rightarrow> uart_read_completion_reason option" where
  "resolve_uart_read_completion rx bytes_collected elapsed =
    (let size_reached = bytes_collected \<ge> as_read_size (rx_read_size rx);
         timed_out = elapsed \<ge> uart_timeout rx in
     case (size_reached, timed_out) of
       (True, True) \<Rightarrow> Some BothReached
     | (True, False) \<Rightarrow> Some ReadSizeReached
     | (False, True) \<Rightarrow> Some TimedOut
     | (False, False) \<Rightarrow> None)"

definition validate_uart_read_request :: "bytes \<Rightarrow> unit rcp_result" where
  "validate_uart_read_request payload = (if payload = [] then Inr () else Inl UnsupportedCmd)"

datatype uart_request = UartWrite uart_tx_queue | UartRead | UartConfigWrite

definition uart_request_from_evt_sub_opcode :: "u8 \<Rightarrow> bool \<Rightarrow> bytes \<Rightarrow> uart_request rcp_result" where
  "uart_request_from_evt_sub_opcode sub_opcode is_write payload =
    (case evt_row2_kind_of sub_opcode of
       Plain \<Rightarrow>
         if is_write then Inr (UartWrite (uart_tx_decode payload))
         else and_then (validate_uart_read_request payload) (\<lambda>_. Inr UartRead)
     | ConfigWrite \<Rightarrow> Inr UartConfigWrite
     | Reserved \<Rightarrow> Inl UnsupportedCmd)"

section \<open>LIN\<close>

definition LIN_MAX_DATA :: nat where [rcp_consts]: "LIN_MAX_DATA = 8"

record lin_frame_transfer =
  lin_pid :: u8
  lin_data :: bytes

definition lin_transfer_encode :: "lin_frame_transfer \<Rightarrow> bytes" where
  "lin_transfer_encode f = lin_pid f # lin_data f"

definition lin_transfer_decode :: "bytes \<Rightarrow> lin_frame_transfer rcp_result" where
  "lin_transfer_decode b =
    (case b of [] \<Rightarrow> Inl ShortFrame
     | pid # data \<Rightarrow>
         if length data > LIN_MAX_DATA then Inl PayloadTooLarge
         else Inr \<lparr>lin_pid = pid, lin_data = data\<rparr>)"

record lin_frame_transfer_result =
  lin_result_data :: bytes

definition lin_result_encode :: "lin_frame_transfer_result \<Rightarrow> bytes" where
  "lin_result_encode f = lin_result_data f"

definition lin_result_decode :: "bytes \<Rightarrow> lin_frame_transfer_result rcp_result" where
  "lin_result_decode b =
    (if length b > LIN_MAX_DATA then Inl PayloadTooLarge else Inr \<lparr>lin_result_data = b\<rparr>)"

datatype lin_functional_config = LinFunctionalConfig

definition lin_layer_tag :: "lin_functional_config \<Rightarrow> per_ep_type_functional_config" where
  "lin_layer_tag c = \<lparr>fun_ep_type = Lin\<rparr>"

datatype lin_request = LinPlain lin_frame_transfer | LinConfigWrite

definition lin_request_from_evt_sub_opcode :: "u8 \<Rightarrow> bytes \<Rightarrow> lin_request rcp_result" where
  "lin_request_from_evt_sub_opcode sub_opcode payload =
    (case evt_row2_kind_of sub_opcode of
       Plain \<Rightarrow> and_then (lin_transfer_decode payload) (\<lambda>f. Inr (LinPlain f))
     | ConfigWrite \<Rightarrow> Inr LinConfigWrite
     | Reserved \<Rightarrow> Inl UnsupportedCmd)"

section \<open>MDIO\<close>

datatype mdio_addressing_mode = Clause22 | Clause45 | Spare2 | Spare3

fun mdio_mode_to_u8 :: "mdio_addressing_mode \<Rightarrow> u8" where
  "mdio_mode_to_u8 Clause22 = 0"
| "mdio_mode_to_u8 Clause45 = 1"
| "mdio_mode_to_u8 Spare2 = 2"
| "mdio_mode_to_u8 Spare3 = 3"

definition mdio_mode_from_u8 :: "u8 \<Rightarrow> mdio_addressing_mode rcp_result" where
  "mdio_mode_from_u8 raw =
    (if raw = 0 then Inr Clause22 else if raw = 1 then Inr Clause45
     else if raw = 2 then Inr Spare2 else if raw = 3 then Inr Spare3
     else Inl InvalidParameter)"

definition is_unallocated_slot :: "mdio_addressing_mode \<Rightarrow> bool" where
  "is_unallocated_slot m \<longleftrightarrow> m = Spare2 \<or> m = Spare3"

record mdio_functional_config =
  mdio_mode :: mdio_addressing_mode

definition mdio_layer_tag :: "mdio_functional_config \<Rightarrow> per_ep_type_functional_config" where
  "mdio_layer_tag c = \<lparr>fun_ep_type = Mdio\<rparr>"

record mdio_transfer =
  mdio_bytes :: bytes

definition mdio_transfer_encode :: "mdio_transfer \<Rightarrow> bytes" where
  "mdio_transfer_encode t = mdio_bytes t"

definition mdio_transfer_decode :: "bytes \<Rightarrow> mdio_transfer" where
  "mdio_transfer_decode b = \<lparr>mdio_bytes = b\<rparr>"

record mdio_transfer_result =
  mdio_result_bytes :: bytes

definition mdio_result_encode :: "mdio_transfer_result \<Rightarrow> bytes" where
  "mdio_result_encode t = mdio_result_bytes t"

definition mdio_result_decode :: "bytes \<Rightarrow> mdio_transfer_result" where
  "mdio_result_decode b = \<lparr>mdio_result_bytes = b\<rparr>"

datatype mdio_request = MdioPlain mdio_transfer | MdioConfigWrite

definition mdio_request_from_evt_sub_opcode :: "u8 \<Rightarrow> mdio_transfer \<Rightarrow> mdio_request rcp_result" where
  "mdio_request_from_evt_sub_opcode sub_opcode transfer =
    (case evt_row2_kind_of sub_opcode of
       Plain \<Rightarrow> Inr (MdioPlain transfer)
     | ConfigWrite \<Rightarrow> Inr MdioConfigWrite
     | Reserved \<Rightarrow> Inl UnsupportedCmd)"

section \<open>Codecs\<close>

lemma spi_channel_from_sub_opcode_Inr: "spi_channel_from_sub_opcode raw = Inr s \<longleftrightarrow> raw = spi_channel_to_sub_opcode s"
  by (cases s) (auto simp: spi_channel_from_sub_opcode_def)

lemma i2c_speed_from_u8_Inr: "i2c_speed_from_u8 raw = Inr m \<longleftrightarrow> raw = i2c_speed_to_u8 m"
  by (cases m) (auto simp: i2c_speed_from_u8_def)

lemma mdio_mode_from_u8_Inr: "mdio_mode_from_u8 raw = Inr a \<longleftrightarrow> raw = mdio_mode_to_u8 a"
  by (cases a) (auto simp: mdio_mode_from_u8_def)

interpretation lin_frame: frame_codec lin_transfer_encode lin_transfer_decode "\<lambda>f. length (lin_data f) \<le> LIN_MAX_DATA"
  by unfold_locales (auto simp: lin_transfer_decode_def lin_transfer_encode_def split: list.split)

interpretation lin_result: frame_codec lin_result_encode lin_result_decode
  "\<lambda>f. length (lin_result_data f) \<le> LIN_MAX_DATA"
  by unfold_locales (auto simp: lin_result_decode_def lin_result_encode_def)

interpretation i2c_request: row2_request i2c_request_from_evt_sub_opcode
  "\<lambda>p. Inr (I2cPlain (i2c_transfer_decode p))" "Inr I2cConfigWrite"
  by unfold_locales (simp add: i2c_request_from_evt_sub_opcode_def)

interpretation uart_request: row2_request "\<lambda>n. case_prod (uart_request_from_evt_sub_opcode n)"
  "\<lambda>(w, p). if w then Inr (UartWrite (uart_tx_decode p))
     else and_then (validate_uart_read_request p) (\<lambda>_. Inr UartRead)"
  "Inr UartConfigWrite"
  by unfold_locales (auto simp: uart_request_from_evt_sub_opcode_def split: evt_row2_kind.split)

interpretation lin_request: row2_request lin_request_from_evt_sub_opcode
  "\<lambda>p. and_then (lin_transfer_decode p) (\<lambda>f. Inr (LinPlain f))" "Inr LinConfigWrite"
  by unfold_locales (simp add: lin_request_from_evt_sub_opcode_def)

interpretation mdio_request: row2_request mdio_request_from_evt_sub_opcode "\<lambda>t. Inr (MdioPlain t)" "Inr MdioConfigWrite"
  by unfold_locales (simp add: mdio_request_from_evt_sub_opcode_def)

section \<open>SPI channels and status\<close>

text \<open>The index of a selected channel is its sub-opcode and always within the array.\<close>

lemma spi_channel_index:
  "resolve_spi_channel_index s = Inr i \<longleftrightarrow> spi_channel_is_named s \<and> i = unat (spi_channel_to_sub_opcode s)"
  "resolve_spi_channel_index s = Inl e \<longleftrightarrow> \<not> spi_channel_is_named s \<and> e = UnsupportedCmd"
  by (cases s; auto simp: spi_channel_is_named_def)+

lemma spi_channel_index_bound: "resolve_spi_channel_index s = Inr i \<Longrightarrow> i < SPI_CHANNEL_COUNT"
  by (cases s) (auto simp: rcp_consts)

lemma truncated_status_decodes:
  assumes "spi_status_decode b = Inr s"
  shows "wait_status_decode b = Inr (truncate_spi_status_for_compound_wait s)"
  using assms
  by (auto simp: spi_status_decode_def wait_status_decode_def truncate_spi_status_for_compound_wait_def min_def
      rcp_consts split: if_splits)

section \<open>UART reads\<close>

text \<open>
  A read that goes on collecting octets while time passes stays complete once it is complete, and
  completes at the latest when the time-out has elapsed.
\<close>

lemma uart_read_complete_iff:
  "resolve_uart_read_completion rx n t \<noteq> None \<longleftrightarrow> as_read_size (rx_read_size rx) \<le> n \<or> uart_timeout rx \<le> t"
  by (auto simp: resolve_uart_read_completion_def Let_def split: bool.splits)

lemma uart_read_reason:
  "resolve_uart_read_completion rx n t = Some reason \<longleftrightarrow>
    (case reason of
       BothReached \<Rightarrow> as_read_size (rx_read_size rx) \<le> n \<and> uart_timeout rx \<le> t
     | ReadSizeReached \<Rightarrow> as_read_size (rx_read_size rx) \<le> n \<and> t < uart_timeout rx
     | TimedOut \<Rightarrow> n < as_read_size (rx_read_size rx) \<and> uart_timeout rx \<le> t)"
  by (cases reason) (auto simp: resolve_uart_read_completion_def Let_def not_le split: bool.splits)

lemma uart_read_stays_complete:
  assumes "resolve_uart_read_completion rx n t \<noteq> None" and "n \<le> n'" and "t \<le> t'"
  shows "resolve_uart_read_completion rx n' t' \<noteq> None"
  using assms unfolding uart_read_complete_iff by (meson order_trans)

end
