(* ===== verification/Rcp_Analog.thy ===== *)
theory Rcp_Analog
  imports Rcp_Regmap_Codecs Rcp_Evtgroup
begin

text \<open>
  The measuring endpoints: the analogue-to-digital converter of \<open>src/adc.rs\<close> with its resolution
  and its chain of averages, and pulse widths in and out of \<open>src/pwm.rs\<close>.
\<close>

section \<open>Resolution and samples\<close>

datatype adc_resolution_bits = AdcResolutionBits (adc_bits: u8)

definition adc_resolution_new :: "u8 \<Rightarrow> adc_resolution_bits rcp_result" where
  "adc_resolution_new b = (if 1 \<le> b \<and> b \<le> 16 then Inr (AdcResolutionBits b) else Inl InvalidParameter)"

definition max_raw_value :: "adc_resolution_bits \<Rightarrow> u16" where
  "max_raw_value r = ucast (push_bit (unat (adc_bits r)) (1 :: u32) - 1)"

definition adc_resolution_default :: adc_resolution_bits where
  "adc_resolution_default = AdcResolutionBits 16"

record adc_sample_value =
  sample_raw :: u16
  sample_resolution :: adc_resolution_bits

definition adc_sample_new :: "u16 \<Rightarrow> adc_resolution_bits \<Rightarrow> adc_sample_value rcp_result" where
  "adc_sample_new raw resolution =
    (if raw > max_raw_value resolution then Inl InvalidParameter
     else Inr \<lparr>sample_raw = raw, sample_resolution = resolution\<rparr>)"

definition adc_sample_encode :: "adc_sample_value \<Rightarrow> bytes" where
  "adc_sample_encode s = to_be_bytes (sample_raw s)"

text \<open>The octets are an array of two in the code, here the two octets one by one.\<close>

definition adc_sample_decode :: "u8 \<Rightarrow> u8 \<Rightarrow> adc_resolution_bits \<Rightarrow> adc_sample_value rcp_result" where
  "adc_sample_decode b0 b1 resolution = adc_sample_new (from_be_bytes [b0, b1]) resolution"

section \<open>Averages\<close>

record adc_averaging_config =
  adc_sample_interval :: u32
  adc_avg_intervals_per_request :: u16
  adc_combine_avg_values :: u16

record adc_functional_config =
  adc_resolution :: adc_resolution_bits
  adc_averaging :: adc_averaging_config

definition adc_layer_tag :: "adc_functional_config \<Rightarrow> per_ep_type_functional_config" where
  "adc_layer_tag c = \<lparr>fun_ep_type = Adc\<rparr>"

definition checked_mul :: "'a::len word \<Rightarrow> 'a word \<Rightarrow> 'a word option" where
  "checked_mul a b = (if uint a * uint b < 2 ^ LENGTH('a) then Some (a * b) else None)"

definition resolve_adc_sample_window_ticks :: "adc_averaging_config \<Rightarrow> u64 option" where
  "resolve_adc_sample_window_ticks averaging =
    Option.bind (checked_mul (ucast (adc_avg_intervals_per_request averaging)) (ucast (adc_combine_avg_values averaging)))
      (\<lambda>raw_samples_needed. checked_mul raw_samples_needed (ucast (adc_sample_interval averaging)))"

text \<open>
  The loop over the groups, with the sums in 64 bits as in the code. \<open>chunks_exact\<close> yields whole
  groups only.
\<close>

function chunks_exact :: "nat \<Rightarrow> 'a list \<Rightarrow> 'a list list" where
  "chunks_exact n xs = (if n = 0 \<or> length xs < n then [] else take n xs # chunks_exact n (drop n xs))"
  by pat_completeness auto
termination by (relation "measure (\<lambda>(n, xs). length xs)") auto

declare chunks_exact.simps [simp del]

definition group_sum :: "u16 list \<Rightarrow> u64" where
  "group_sum samples = foldl (\<lambda>acc v. acc + ucast v) 0 samples"

definition resolve_adc_averaged_value :: "u16 list \<Rightarrow> adc_averaging_config \<Rightarrow> u32 rcp_result" where
  "resolve_adc_averaged_value raw_samples averaging =
    (let group_size = unat (adc_avg_intervals_per_request averaging);
         group_count = unat (adc_combine_avg_values averaging) in
     if group_size = 0 \<or> group_count = 0 then Inl InvalidParameter
     else let raw_samples_needed = group_size * group_count in
       if length raw_samples < raw_samples_needed then Inl InvalidParameter
       else let combined_sum = foldl (\<lambda>acc samples. acc + group_sum samples div of_nat group_size) 0
                  (chunks_exact group_size (take raw_samples_needed raw_samples)) in
         Inr (ucast (combined_sum div of_nat group_count)))"

section \<open>Sample requests\<close>

datatype adc_sampling_mode = RequestDriven | Continuous

fun validate_adc_sample_request :: "adc_sampling_mode \<Rightarrow> unit rcp_result" where
  "validate_adc_sample_request RequestDriven = Inr ()"
| "validate_adc_sample_request Continuous = Inl UnsupportedCmd"

datatype adc_request = AdcPlain | AdcConfigWrite

definition adc_request_from_evt_sub_opcode :: "u8 \<Rightarrow> bytes \<Rightarrow> adc_request rcp_result" where
  "adc_request_from_evt_sub_opcode sub_opcode payload =
    (case evt_row2_kind_of sub_opcode of
       Plain \<Rightarrow> if payload = [] then Inr AdcPlain else Inl InvalidParameter
     | ConfigWrite \<Rightarrow> Inr AdcConfigWrite
     | Reserved \<Rightarrow> Inl UnsupportedCmd)"

interpretation adc_request: row2_request adc_request_from_evt_sub_opcode
  "\<lambda>p. if p = [] then Inr AdcPlain else Inl InvalidParameter" "Inr AdcConfigWrite"
  by unfold_locales (simp add: adc_request_from_evt_sub_opcode_def)

section \<open>Pulse widths\<close>

record pwm_duration_pair =
  pwm_period :: u32
  pwm_active_duration :: u32

record pwm_out_functional_config =
  pwm_target :: pwm_duration_pair

definition pwm_out_layer_tag :: "pwm_out_functional_config \<Rightarrow> per_ep_type_functional_config" where
  "pwm_out_layer_tag c = \<lparr>fun_ep_type = PwmOut\<rparr>"

record pwm_in_functional_config =
  no_signal_timeout :: u32

definition pwm_in_layer_tag :: "pwm_in_functional_config \<Rightarrow> per_ep_type_functional_config" where
  "pwm_in_layer_tag c = \<lparr>fun_ep_type = PwmIn\<rparr>"

datatype pwm_in_read_resolution = Measured pwm_duration_pair | NoSignal

definition resolve_pwm_in_read ::
  "pwm_in_functional_config \<Rightarrow> pwm_duration_pair option \<Rightarrow> u32 \<Rightarrow> pwm_in_read_resolution option" where
  "resolve_pwm_in_read config last_measured elapsed_since_last_edge =
    (let timed_out = elapsed_since_last_edge \<ge> no_signal_timeout config in
     case (last_measured, timed_out) of
       (_, True) \<Rightarrow> Some NoSignal
     | (Some pair, False) \<Rightarrow> Some (Measured pair)
     | (None, False) \<Rightarrow> None)"

record pwm_in_byte_transfer =
  pwm_in_bytes :: bytes

definition pwm_in_transfer_encode :: "pwm_in_byte_transfer \<Rightarrow> bytes" where
  "pwm_in_transfer_encode t = pwm_in_bytes t"

definition pwm_in_transfer_decode :: "bytes \<Rightarrow> pwm_in_byte_transfer" where
  "pwm_in_transfer_decode b = \<lparr>pwm_in_bytes = b\<rparr>"

datatype pwm_in_request = PwmInPlain pwm_in_byte_transfer | PwmInConfigWrite

definition pwm_in_request_from_evt_sub_opcode :: "u8 \<Rightarrow> bytes \<Rightarrow> pwm_in_request rcp_result" where
  "pwm_in_request_from_evt_sub_opcode sub_opcode payload =
    (case evt_row2_kind_of sub_opcode of
       Plain \<Rightarrow> Inr (PwmInPlain (pwm_in_transfer_decode payload))
     | ConfigWrite \<Rightarrow> Inr PwmInConfigWrite
     | Reserved \<Rightarrow> Inl UnsupportedCmd)"

interpretation pwm_in_request: row2_request pwm_in_request_from_evt_sub_opcode
  "\<lambda>p. Inr (PwmInPlain (pwm_in_transfer_decode p))" "Inr PwmInConfigWrite"
  by unfold_locales (simp add: pwm_in_request_from_evt_sub_opcode_def)

text \<open>A measurement past the time-out is never reported, and one within it always is.\<close>

lemma pwm_in_read_iff:
  "resolve_pwm_in_read c m t = Some (Measured p) \<longleftrightarrow> m = Some p \<and> t < no_signal_timeout c"
  "resolve_pwm_in_read c m t = Some NoSignal \<longleftrightarrow> no_signal_timeout c \<le> t"
  by (auto simp: resolve_pwm_in_read_def Let_def not_le split: option.splits bool.splits)

section \<open>What the averages are\<close>

text \<open>The reference: numbers without a width, and the mean rounded down.\<close>

definition mean_of :: "nat list \<Rightarrow> nat" where
  "mean_of xs = sum_list xs div length xs"

definition averaged_value :: "nat \<Rightarrow> nat \<Rightarrow> nat list \<Rightarrow> nat" where
  "averaged_value group_size group_count xs =
    mean_of (map mean_of (chunks_exact group_size (take (group_size * group_count) xs)))"

lemma mean_of_bounds:
  assumes "xs \<noteq> []" and "\<forall>x\<in>set xs. lo \<le> x \<and> x \<le> hi"
  shows "lo \<le> mean_of xs" and "mean_of xs \<le> hi"
proof -
  have s: "lo * length xs \<le> sum_list xs \<and> sum_list xs \<le> hi * length xs"
    using assms(2) by (induction xs) auto
  have "0 < length xs" using assms(1) by simp
  with s show "lo \<le> mean_of xs" and "mean_of xs \<le> hi"
    by (auto simp: mean_of_def less_eq_div_iff_mult_less_eq dest: div_le_mono [of _ _ "length xs"])
qed

lemma chunks_exact_exact:
  assumes "0 < n" and "length xs = n * k"
  shows "length (chunks_exact n xs) = k \<and> (\<forall>c\<in>set (chunks_exact n xs). length c = n \<and> set c \<subseteq> set xs)"
  using assms(2)
proof (induction k arbitrary: xs)
  case 0
  then show ?case using assms(1) by (subst (1 2) chunks_exact.simps) simp
next
  case (Suc k)
  have "length (drop n xs) = n * k" using Suc.prems by simp
  from Suc.IH [OF this] have
    "length (chunks_exact n (drop n xs)) = k \<and> (\<forall>c\<in>set (chunks_exact n (drop n xs)). length c = n \<and> set c \<subseteq> set xs)"
    by (meson order_trans set_drop_subset)
  moreover have "chunks_exact n xs = take n xs # chunks_exact n (drop n xs)"
    using Suc.prems assms(1) by (subst chunks_exact.simps) simp
  moreover have "length (take n xs) = n \<and> set (take n xs) \<subseteq> set xs"
    using Suc.prems by (simp add: set_take_subset)
  ultimately show ?case by simp
qed

lemma map_chunks_exact: "map (map f) (chunks_exact n xs) = chunks_exact n (map f xs)"
proof (induction n xs rule: chunks_exact.induct)
  case (1 n xs)
  show ?case
  proof (cases "n = 0 \<or> length xs < n")
    case True
    then show ?thesis by (auto simp: chunks_exact.simps [of n])
  next
    case False
    with 1 show ?thesis by (simp add: chunks_exact.simps [of n xs] chunks_exact.simps [of n "map f xs"] take_map drop_map)
  qed
qed

text \<open>Summing in a word loses nothing while the sum of the numbers fits.\<close>

lemma unat_foldl_add:
  assumes "unat a + sum_list (map (\<lambda>x. unat (f x)) xs) < 2 ^ LENGTH('w)"
  shows "unat (foldl (\<lambda>acc x. acc + f x) a xs) = unat (a :: 'w::len word) + sum_list (map (\<lambda>x. unat (f x)) xs)"
  using assms
proof (induction xs arbitrary: a)
  case (Cons x xs)
  have "unat (a + f x) = unat a + unat (f x)"
    using Cons.prems by (intro unat_add_lem [THEN iffD1]) simp
  with Cons.IH [of "a + f x"] Cons.prems show ?case by simp
qed simp

lemma unat_u16_le: "unat (w :: u16) \<le> 65535"
  using unsigned_less [of w, where 'a = nat] by simp

lemma sum_list_le_bound: "(\<And>x. x \<in> set xs \<Longrightarrow> f x \<le> (b :: nat)) \<Longrightarrow> sum_list (map f xs) \<le> length xs * b"
  by (induction xs) (auto intro: add_mono)

lemma unat_group_sum:
  assumes "length g \<le> 65535"
  shows "unat (group_sum g) = sum_list (map unat g)" and "sum_list (map unat g) \<le> length g * 65535"
proof -
  show b: "sum_list (map unat g) \<le> length g * 65535"
    by (rule sum_list_le_bound) (rule unat_u16_le)
  have "sum_list (map unat g) < 2 ^ 64" using b assms by simp
  then show "unat (group_sum g) = sum_list (map unat g)"
    unfolding group_sum_def
    using unat_foldl_add [where 'w = 64, of 0 "\<lambda>v. ucast v :: u64" g] by (simp add: unat_ucast_u16_u64)
qed

lemma unat_group_mean:
  assumes "length g = n" and "0 < n" and "n \<le> 65535"
  shows "unat (group_sum g div of_nat n) = mean_of (map unat g)" and "mean_of (map unat g) \<le> 65535"
proof -
  have "unat (of_nat n :: u64) = n" using assms(3) by (simp add: unat_of_nat)
  then show "unat (group_sum g div of_nat n) = mean_of (map unat g)"
    using unat_group_sum(1) [of g] assms by (simp add: unat_div mean_of_def)
  show "mean_of (map unat g) \<le> 65535"
    using mean_of_bounds(2) [of "map unat g" 0 65535] assms(1, 2) by (auto simp: unat_u16_le)
qed

lemma adc_averaged_value:
  assumes "adc_avg_intervals_per_request a \<noteq> 0" and "adc_combine_avg_values a \<noteq> 0"
    and "unat (adc_avg_intervals_per_request a) * unat (adc_combine_avg_values a) \<le> length samples"
  shows "resolve_adc_averaged_value samples a = Inr (of_nat (averaged_value
      (unat (adc_avg_intervals_per_request a)) (unat (adc_combine_avg_values a)) (map unat samples)))"
    and "averaged_value (unat (adc_avg_intervals_per_request a)) (unat (adc_combine_avg_values a)) (map unat samples)
      \<le> 65535"
proof -
  define n where "n = unat (adc_avg_intervals_per_request a)"
  define k where "k = unat (adc_combine_avg_values a)"
  define gs where "gs = chunks_exact n (take (n * k) samples)"
  have n: "0 < n" "n \<le> 65535" and k: "0 < k" "k \<le> 65535"
    using assms(1, 2) unat_u16_le by (simp_all add: n_def k_def unat_gt_0)
  have taken: "length (take (n * k) samples) = n * k"
    using assms(3) by (simp add: n_def k_def)
  have gs: "length gs = k" "\<And>g. g \<in> set gs \<Longrightarrow> length g = n"
    using chunks_exact_exact [OF n(1) taken] unfolding gs_def by blast+
  have means: "map (\<lambda>g. unat (group_sum g div of_nat n)) gs = map (\<lambda>g. mean_of (map unat g)) gs"
    by (intro map_cong refl unat_group_mean(1) gs(2) n)
  have avg: "averaged_value n k (map unat samples) = mean_of (map (\<lambda>g. mean_of (map unat g)) gs)"
    unfolding averaged_value_def gs_def take_map map_chunks_exact [symmetric] map_map o_def ..
  have small: "mean_of (map unat g) \<le> 65535" if "g \<in> set gs" for g
    using unat_group_mean(2) [OF gs(2) [OF that]] n by simp
  have sum: "sum_list (map (\<lambda>g. mean_of (map unat g)) gs) \<le> k * 65535"
    using sum_list_le_bound [of gs "\<lambda>g. mean_of (map unat g)"] small gs(1) by simp
  then have "unat (foldl (\<lambda>acc g. acc + group_sum g div of_nat n) (0 :: u64) gs) = sum_list (map (\<lambda>g. mean_of (map unat g)) gs)"
    using unat_foldl_add [where 'w = 64, of 0 "\<lambda>g. group_sum g div of_nat n" gs] k by (simp add: means)
  then have u: "unat (foldl (\<lambda>acc g. acc + group_sum g div of_nat n) (0 :: u64) gs div of_nat k)
      = averaged_value n k (map unat samples)"
    using k gs(1) by (simp add: unat_div unat_of_nat avg mean_of_def)
  show b: "averaged_value n k (map unat samples) \<le> 65535"
    unfolding avg using gs(1) k small by (intro mean_of_bounds(2) [where lo = 0]) auto
  have "(ucast (foldl (\<lambda>acc g. acc + group_sum g div of_nat n) (0 :: u64) gs div of_nat k) :: u32)
      = of_nat (averaged_value n k (map unat samples))"
    unfolding u [symmetric] by simp
  then show "resolve_adc_averaged_value samples a = Inr (of_nat (averaged_value n k (map unat samples)))"
    using n k assms(3) by (simp add: resolve_adc_averaged_value_def Let_def gs_def not_less flip: n_def k_def)
qed

text \<open>The average lies between the smallest and the largest sample.\<close>

lemma averaged_value_bounds:
  assumes "0 < n" and "0 < k" and "n * k \<le> length xs" and "\<forall>x\<in>set xs. lo \<le> x \<and> x \<le> hi"
  shows "lo \<le> averaged_value n k xs \<and> averaged_value n k xs \<le> hi"
proof -
  have "length (take (n * k) xs) = n * k" using assms(3) by simp
  from chunks_exact_exact [OF assms(1) this] have gs: "length (chunks_exact n (take (n * k) xs)) = k"
    "\<And>c. c \<in> set (chunks_exact n (take (n * k) xs)) \<Longrightarrow> length c = n \<and> set c \<subseteq> set xs"
    by (blast, meson order_trans set_take_subset)
  have "lo \<le> mean_of c \<and> mean_of c \<le> hi" if "c \<in> set (chunks_exact n (take (n * k) xs))" for c
    using mean_of_bounds [of c lo hi] gs(2) [OF that] assms(1, 4) by auto
  then show ?thesis
    unfolding averaged_value_def using gs(1) assms(2) by (intro conjI mean_of_bounds) auto
qed

text \<open>The window of a request always fits its 64 bits.\<close>

lemma adc_window_fits:
  "\<exists>ticks. resolve_adc_sample_window_ticks a = Some ticks
    \<and> unat ticks = unat (adc_avg_intervals_per_request a) * unat (adc_combine_avg_values a) * unat (adc_sample_interval a)"
proof -
  define n where "n = unat (adc_avg_intervals_per_request a)"
  define k where "k = unat (adc_combine_avg_values a)"
  define i where "i = unat (adc_sample_interval a)"
  have b: "n \<le> 65535" "k \<le> 65535" "i < 2 ^ 32"
    using unat_u16_le unsigned_less [of "adc_sample_interval a", where 'a = nat] by (simp_all add: n_def k_def i_def)
  have nk: "n * k \<le> 65535 * 65535" using b(1, 2) by (rule mult_le_mono)
  have nki: "n * k * i < 2 ^ 64"
  proof -
    have "n * k * i \<le> (65535 * 65535) * 2 ^ 32" by (rule mult_le_mono [OF nk less_imp_le [OF b(3)]])
    also have "\<dots> < 2 ^ 64" by simp
    finally show ?thesis .
  qed
  have mul: "\<exists>c. checked_mul a b = Some c \<and> unat c = unat a * unat b" if "unat a * unat b < 2 ^ 64" for a b :: u64
  proof -
    have "uint a * uint b < 2 ^ 64"
      using that of_nat_less_iff [of "unat a * unat b" "2 ^ 64", where 'a = int] by simp
    moreover have "unat (a * b) = unat a * unat b" using that by (intro unat_mult_lem [THEN iffD1]) simp
    ultimately show ?thesis by (simp add: checked_mul_def)
  qed
  have u: "unat (ucast (adc_sample_interval a) :: u64) = i"
    by (simp add: i_def unsigned_ucast_eq take_bit_nat_eq_self less_le_trans [OF unsigned_less])
  obtain c where c: "checked_mul (ucast (adc_avg_intervals_per_request a)) (ucast (adc_combine_avg_values a) :: u64) = Some c"
    "unat c = n * k"
    using mul [of "ucast (adc_avg_intervals_per_request a)" "ucast (adc_combine_avg_values a)"] nk
    by (auto simp: unat_ucast_u16_u64 n_def k_def)
  from mul [of c "ucast (adc_sample_interval a)"] nki show ?thesis
    by (auto simp: resolve_adc_sample_window_ticks_def c u n_def k_def i_def)
qed

section \<open>Further facts\<close>

text \<open>The averaged value loses nothing to its word sizes. When enough samples are there, the 64-bit computation returns the mean, rounded down, of the means of the groups, as unbounded numbers; the result fits 16 bits and lies between the smallest and the largest sample used.\<close>

theorem average_is_exact:
  assumes "adc_avg_intervals_per_request a \<noteq> 0" and "adc_combine_avg_values a \<noteq> 0"
    and "unat (adc_avg_intervals_per_request a) * unat (adc_combine_avg_values a) \<le> length samples"
    and "\<forall>x\<in>set samples. lo \<le> unat x \<and> unat x \<le> hi"
  shows "\<exists>v. resolve_adc_averaged_value samples a = Inr (of_nat v) \<and> v \<le> 65535 \<and> lo \<le> v \<and> v \<le> hi
    \<and> v = averaged_value (unat (adc_avg_intervals_per_request a)) (unat (adc_combine_avg_values a)) (map unat samples)"
proof -
  have "0 < unat (adc_avg_intervals_per_request a)" "0 < unat (adc_combine_avg_values a)"
    using assms(1, 2) by (simp_all add: unat_gt_0)
  from averaged_value_bounds [OF this, of "map unat samples" lo hi] adc_averaged_value [OF assms(1-3)] assms(3, 4)
  show ?thesis by simp
qed


end
