(* ===== verification/Rcp_Decorators.thy ===== *)
theory Rcp_Decorators
  imports Rcp_Mock
begin

text \<open>
  The endpoints that wrap another endpoint: \<open>src/proxy.rs\<close>, \<open>src/authz.rs\<close>,
  \<open>src/redundancy.rs\<close>, \<open>src/deadline.rs\<close>, \<open>src/faultinject.rs\<close>, \<open>src/record.rs\<close>,
  \<open>src/observe.rs\<close>, and the test double \<open>src/sim.rs\<close> that wraps none. A wrapper is a record that
  owns the wrapped endpoint, and its implementation of the trait \<open>Endpoint\<close> is an \<open>endpoint_ops\<close>
  made from the one of the wrapped endpoint. What a clock returns during a call is a parameter.
\<close>

text \<open>The call goes to the wrapped endpoint, which is put back afterwards.\<close>

definition through :: "('s \<Rightarrow> 'ep) \<Rightarrow> ('ep \<Rightarrow> 's) \<Rightarrow> ('ep \<Rightarrow> 'ep \<times> 'r) \<Rightarrow> 's \<Rightarrow> 's \<times> 'r" where
  "through get put call s = (case call (get s) of (ep, r) \<Rightarrow> (put ep, r))"

section \<open>Proxy\<close>

record 'ep proxy_endpoint =
  proxy_ep_type :: endpoint_type
  proxy_inner :: "'ep option"

definition proxy_new :: "'ep endpoint_ops \<Rightarrow> 'ep \<Rightarrow> 'ep proxy_endpoint" where
  "proxy_new ops inner = \<lparr>proxy_ep_type = ep_type_of ops inner, proxy_inner = Some inner\<rparr>"

definition proxy_swap :: "'ep proxy_endpoint \<Rightarrow> 'ep \<Rightarrow> 'ep proxy_endpoint" where
  "proxy_swap p new_inner = p\<lparr>proxy_inner := Some new_inner\<rparr>"

definition proxy_detach :: "'ep proxy_endpoint \<Rightarrow> 'ep proxy_endpoint" where
  "proxy_detach p = p\<lparr>proxy_inner := None\<rparr>"

definition proxy_read ::
  "'ep endpoint_ops \<Rightarrow> 'ep proxy_endpoint \<Rightarrow> u16 \<Rightarrow> 'ep proxy_endpoint \<times> bytes rcp_result" where
  "proxy_read ops p read_size =
    (case proxy_inner p of
       Some ep \<Rightarrow> (case ep_read ops ep read_size of (ep', r) \<Rightarrow> (p\<lparr>proxy_inner := Some ep'\<rparr>, r))
     | None \<Rightarrow> (p, Inl NotConnected))"

definition proxy_write ::
  "'ep endpoint_ops \<Rightarrow> 'ep proxy_endpoint \<Rightarrow> bytes \<Rightarrow> 'ep proxy_endpoint \<times> unit rcp_result" where
  "proxy_write ops p payload =
    (case proxy_inner p of
       Some ep \<Rightarrow> (case ep_write ops ep payload of (ep', r) \<Rightarrow> (p\<lparr>proxy_inner := Some ep'\<rparr>, r))
     | None \<Rightarrow> (p, Inl NotConnected))"

definition proxy_ops :: "'ep endpoint_ops \<Rightarrow> 'ep proxy_endpoint endpoint_ops" where
  "proxy_ops ops = \<lparr>ep_type_of = proxy_ep_type, ep_read = proxy_read ops, ep_write = proxy_write ops\<rparr>"

section \<open>Authorisation\<close>

record policy =
  policy_allowed :: "(u8 \<times> bool) set"

definition ALL_EP_TYPE_BYTES :: "u8 list" where
  "ALL_EP_TYPE_BYTES = map of_nat [0x01..<0x0E]"

definition policy_allow_all :: policy where
  "policy_allow_all =
    \<lparr>policy_allowed = fold (\<lambda>b set. insert (b, True) (insert (b, False) set)) ALL_EP_TYPE_BYTES {}\<rparr>"

definition policy_deny_all :: policy where
  "policy_deny_all = \<lparr>policy_allowed = {}\<rparr>"

definition is_allowed :: "policy \<Rightarrow> endpoint_type \<Rightarrow> bool \<Rightarrow> bool" where
  "is_allowed pol ep_type is_write \<longleftrightarrow> (endpoint_type_to_u8 ep_type, is_write) \<in> policy_allowed pol"

record 'ep authz_endpoint =
  authz_inner :: 'ep
  authz_policy :: policy

definition authz_new :: "'ep \<Rightarrow> policy \<Rightarrow> 'ep authz_endpoint" where
  "authz_new inner pol = \<lparr>authz_inner = inner, authz_policy = pol\<rparr>"

definition set_policy :: "'ep authz_endpoint \<Rightarrow> policy \<Rightarrow> 'ep authz_endpoint" where
  "set_policy a pol = a\<lparr>authz_policy := pol\<rparr>"

definition authz_read ::
  "'ep endpoint_ops \<Rightarrow> 'ep authz_endpoint \<Rightarrow> u16 \<Rightarrow> 'ep authz_endpoint \<times> bytes rcp_result" where
  "authz_read ops a read_size =
    (if \<not> is_allowed (authz_policy a) (ep_type_of ops (authz_inner a)) False then (a, Inl NotFound)
     else through authz_inner (\<lambda>ep. a\<lparr>authz_inner := ep\<rparr>) (\<lambda>ep. ep_read ops ep read_size) a)"

definition authz_write ::
  "'ep endpoint_ops \<Rightarrow> 'ep authz_endpoint \<Rightarrow> bytes \<Rightarrow> 'ep authz_endpoint \<times> unit rcp_result" where
  "authz_write ops a payload =
    (if \<not> is_allowed (authz_policy a) (ep_type_of ops (authz_inner a)) True then (a, Inl NotFound)
     else through authz_inner (\<lambda>ep. a\<lparr>authz_inner := ep\<rparr>) (\<lambda>ep. ep_write ops ep payload) a)"

definition authz_ops :: "'ep endpoint_ops \<Rightarrow> 'ep authz_endpoint endpoint_ops" where
  "authz_ops ops = \<lparr>ep_type_of = (\<lambda>a. ep_type_of ops (authz_inner a)),
     ep_read = authz_read ops, ep_write = authz_write ops\<rparr>"

section \<open>Redundancy\<close>

record 'ep redundancy_endpoint =
  red_ep_type :: endpoint_type
  red_primary :: 'ep
  red_secondary :: "'ep option"
  red_failovers :: u32

definition redundancy_new :: "'ep endpoint_ops \<Rightarrow> 'ep \<Rightarrow> 'ep \<Rightarrow> 'ep redundancy_endpoint" where
  "redundancy_new ops primary secondary =
    \<lparr>red_ep_type = ep_type_of ops primary, red_primary = primary, red_secondary = Some secondary,
     red_failovers = 0\<rparr>"

definition has_secondary :: "'ep redundancy_endpoint \<Rightarrow> bool" where
  "has_secondary e \<longleftrightarrow> red_secondary e \<noteq> None"

definition redundancy_dispatch ::
  "('ep \<Rightarrow> 'ep \<times> 'v rcp_result) \<Rightarrow> 'ep redundancy_endpoint \<Rightarrow> 'ep redundancy_endpoint \<times> 'v rcp_result" where
  "redundancy_dispatch op e =
    (case op (red_primary e) of
       (p, Inr v) \<Rightarrow> (e\<lparr>red_primary := p\<rparr>, Inr v)
     | (p, Inl primary_err) \<Rightarrow>
         (case red_secondary e of
            None \<Rightarrow> (e\<lparr>red_primary := p\<rparr>, Inl primary_err)
          | Some sec \<Rightarrow>
              (case op sec of
                 (p', r) \<Rightarrow> (e\<lparr>red_primary := p', red_secondary := None,
                              red_failovers := red_failovers e + 1\<rparr>, r))))"

definition redundancy_ops :: "'ep endpoint_ops \<Rightarrow> 'ep redundancy_endpoint endpoint_ops" where
  "redundancy_ops ops =
    \<lparr>ep_type_of = red_ep_type,
     ep_read = (\<lambda>e read_size. redundancy_dispatch (\<lambda>ep. ep_read ops ep read_size) e),
     ep_write = (\<lambda>e payload. redundancy_dispatch (\<lambda>ep. ep_write ops ep payload) e)\<rparr>"

section \<open>Deadline\<close>

text \<open>Durations are whole nanoseconds.\<close>

type_synonym nanos = nat

record 'ep deadline_endpoint =
  dl_inner :: 'ep
  dl_deadline :: nanos

text \<open>The constructor's assertion fails on a deadline of zero.\<close>

definition deadline_new :: "'ep \<Rightarrow> nanos \<Rightarrow> 'ep deadline_endpoint option" where
  "deadline_new inner deadline =
    (if deadline = 0 then None else Some \<lparr>dl_inner = inner, dl_deadline = deadline\<rparr>)"

definition effective_timeout :: "'ep deadline_endpoint \<Rightarrow> nanos option \<Rightarrow> nanos rcp_result" where
  "effective_timeout d timeout =
    (if timeout = Some 0 then Inl Timeout
     else Inr (case timeout of None \<Rightarrow> dl_deadline d | Some t \<Rightarrow> min t (dl_deadline d)))"

definition deadline_read ::
  "'ep endpoint_ops \<Rightarrow> 'ep deadline_endpoint \<Rightarrow> u16 \<Rightarrow> 'ep deadline_endpoint \<times> bytes rcp_result" where
  "deadline_read ops d read_size =
    through dl_inner (\<lambda>ep. d\<lparr>dl_inner := ep\<rparr>) (\<lambda>ep. ep_read ops ep read_size) d"

definition deadline_write ::
  "'ep endpoint_ops \<Rightarrow> 'ep deadline_endpoint \<Rightarrow> bytes \<Rightarrow> 'ep deadline_endpoint \<times> unit rcp_result" where
  "deadline_write ops d payload =
    through dl_inner (\<lambda>ep. d\<lparr>dl_inner := ep\<rparr>) (\<lambda>ep. ep_write ops ep payload) d"

definition read_with_deadline ::
  "'ep endpoint_ops \<Rightarrow> 'ep deadline_endpoint \<Rightarrow> u16 \<Rightarrow> nanos option
    \<Rightarrow> 'ep deadline_endpoint \<times> bytes rcp_result" where
  "read_with_deadline ops d read_size timeout =
    (case effective_timeout d timeout of Inl e \<Rightarrow> (d, Inl e) | Inr _ \<Rightarrow> deadline_read ops d read_size)"

definition write_with_deadline ::
  "'ep endpoint_ops \<Rightarrow> 'ep deadline_endpoint \<Rightarrow> bytes \<Rightarrow> nanos option
    \<Rightarrow> 'ep deadline_endpoint \<times> unit rcp_result" where
  "write_with_deadline ops d payload timeout =
    (case effective_timeout d timeout of Inl e \<Rightarrow> (d, Inl e) | Inr _ \<Rightarrow> deadline_write ops d payload)"

definition deadline_ops :: "'ep endpoint_ops \<Rightarrow> 'ep deadline_endpoint endpoint_ops" where
  "deadline_ops ops = \<lparr>ep_type_of = (\<lambda>d. ep_type_of ops (dl_inner d)),
     ep_read = deadline_read ops, ep_write = deadline_write ops\<rparr>"

section \<open>Fault injection\<close>

datatype fault_rule = Always | OnNthCall u64 | AfterNthCall u64

record fault_spec =
  fault_rule_of :: fault_rule
  fault_error :: rcp_error

record 'ep fault_endpoint =
  fault_inner :: 'ep
  fault_specs :: "fault_spec list"
  fault_call_no :: u64
  fault_total :: u64

definition fault_new :: "'ep \<Rightarrow> 'ep fault_endpoint" where
  "fault_new inner = \<lparr>fault_inner = inner, fault_specs = [], fault_call_no = 0, fault_total = 0\<rparr>"

definition fault_inject :: "'ep fault_endpoint \<Rightarrow> fault_spec \<Rightarrow> 'ep fault_endpoint" where
  "fault_inject f spec = f\<lparr>fault_specs := fault_specs f @ [spec]\<rparr>"

definition fault_clear :: "'ep fault_endpoint \<Rightarrow> 'ep fault_endpoint" where
  "fault_clear f = f\<lparr>fault_specs := []\<rparr>"

definition fault_triggered :: "u64 \<Rightarrow> fault_spec \<Rightarrow> bool" where
  "fault_triggered call_no spec =
    (case fault_rule_of spec of
       Always \<Rightarrow> True
     | OnNthCall n \<Rightarrow> call_no = n
     | AfterNthCall n \<Rightarrow> call_no \<ge> n)"

definition next_fault :: "'ep fault_endpoint \<Rightarrow> 'ep fault_endpoint \<times> rcp_error option" where
  "next_fault f =
    (let call_no = fault_call_no f + 1 in
     (f\<lparr>fault_call_no := call_no, fault_total := fault_total f + 1\<rparr>,
      map_option fault_error (find (fault_triggered call_no) (fault_specs f))))"

definition fault_call ::
  "('ep \<Rightarrow> 'ep \<times> 'v rcp_result) \<Rightarrow> 'ep fault_endpoint \<Rightarrow> 'ep fault_endpoint \<times> 'v rcp_result" where
  "fault_call op f =
    (case next_fault f of
       (f', Some err) \<Rightarrow> (f', Inl err)
     | (f', None) \<Rightarrow> through fault_inner (\<lambda>ep. f'\<lparr>fault_inner := ep\<rparr>) op f')"

definition fault_ops :: "'ep endpoint_ops \<Rightarrow> 'ep fault_endpoint endpoint_ops" where
  "fault_ops ops =
    \<lparr>ep_type_of = (\<lambda>f. ep_type_of ops (fault_inner f)),
     ep_read = (\<lambda>f read_size. fault_call (\<lambda>ep. ep_read ops ep read_size) f),
     ep_write = (\<lambda>f payload. fault_call (\<lambda>ep. ep_write ops ep payload) f)\<rparr>"

section \<open>Recording\<close>

type_synonym system_time = nat

datatype record_entry =
    ReadEntry system_time u16 "bytes rcp_result"
  | WriteEntry system_time bytes "unit rcp_result"

fun entry_timestamp :: "record_entry \<Rightarrow> system_time" where
  "entry_timestamp (ReadEntry t _ _) = t"
| "entry_timestamp (WriteEntry t _ _) = t"

fun entry_is_err :: "record_entry \<Rightarrow> bool" where
  "entry_is_err (ReadEntry _ _ r) = isl r"
| "entry_is_err (WriteEntry _ _ r) = isl r"

record 'ep record_endpoint =
  rec_inner :: 'ep
  rec_log :: "record_entry list"

definition record_new :: "'ep \<Rightarrow> 'ep record_endpoint" where
  "record_new inner = \<lparr>rec_inner = inner, rec_log = []\<rparr>"

definition record_clear :: "'ep record_endpoint \<Rightarrow> 'ep record_endpoint" where
  "record_clear e = e\<lparr>rec_log := []\<rparr>"

definition record_read ::
  "system_time \<Rightarrow> 'ep endpoint_ops \<Rightarrow> 'ep record_endpoint \<Rightarrow> u16 \<Rightarrow> 'ep record_endpoint \<times> bytes rcp_result" where
  "record_read now ops e read_size =
    (case ep_read ops (rec_inner e) read_size of
       (ep, r) \<Rightarrow> (e\<lparr>rec_inner := ep, rec_log := rec_log e @ [ReadEntry now read_size r]\<rparr>, r))"

definition record_write ::
  "system_time \<Rightarrow> 'ep endpoint_ops \<Rightarrow> 'ep record_endpoint \<Rightarrow> bytes \<Rightarrow> 'ep record_endpoint \<times> unit rcp_result" where
  "record_write now ops e payload =
    (case ep_write ops (rec_inner e) payload of
       (ep, r) \<Rightarrow> (e\<lparr>rec_inner := ep, rec_log := rec_log e @ [WriteEntry now payload r]\<rparr>, r))"

definition record_ops :: "system_time \<Rightarrow> 'ep endpoint_ops \<Rightarrow> 'ep record_endpoint endpoint_ops" where
  "record_ops now ops = \<lparr>ep_type_of = (\<lambda>e. ep_type_of ops (rec_inner e)),
     ep_read = record_read now ops, ep_write = record_write now ops\<rparr>"

section \<open>Observation\<close>

text \<open>
  The counters are atomic and wrap. A hook is a closure with effects: it is a function on the
  world the hooks act on.
\<close>

record metrics =
  total_calls :: u64
  total_errors :: u64
  total_latency_us :: u64

definition metrics_default :: metrics where
  "metrics_default = \<lparr>total_calls = 0, total_errors = 0, total_latency_us = 0\<rparr>"

definition mean_latency_us :: "metrics \<Rightarrow> u64" where
  "mean_latency_us m = (if total_calls m = 0 then 0 else total_latency_us m div total_calls m)"

definition metrics_record :: "metrics \<Rightarrow> nanos \<Rightarrow> bool \<Rightarrow> metrics" where
  "metrics_record m elapsed is_err =
    m\<lparr>total_calls := total_calls m + 1,
      total_latency_us := total_latency_us m + of_nat (elapsed div 1000),
      total_errors := (if is_err then total_errors m + 1 else total_errors m)\<rparr>"

type_synonym 'w read_hook = "u16 \<Rightarrow> bytes rcp_result \<Rightarrow> nanos \<Rightarrow> 'w \<Rightarrow> 'w"
type_synonym 'w write_hook = "bytes \<Rightarrow> unit rcp_result \<Rightarrow> nanos \<Rightarrow> 'w \<Rightarrow> 'w"

record ('ep, 'w) observe_endpoint =
  obs_inner :: 'ep
  obs_metrics :: metrics
  obs_read_hooks :: "'w read_hook list"
  obs_write_hooks :: "'w write_hook list"
  obs_world :: 'w

definition observe_new :: "'ep \<Rightarrow> 'w \<Rightarrow> ('ep, 'w) observe_endpoint" where
  "observe_new inner w =
    \<lparr>obs_inner = inner, obs_metrics = metrics_default, obs_read_hooks = [], obs_write_hooks = [], obs_world = w\<rparr>"

definition add_read_hook :: "('ep, 'w) observe_endpoint \<Rightarrow> 'w read_hook \<Rightarrow> ('ep, 'w) observe_endpoint" where
  "add_read_hook e h = e\<lparr>obs_read_hooks := obs_read_hooks e @ [h]\<rparr>"

definition add_write_hook :: "('ep, 'w) observe_endpoint \<Rightarrow> 'w write_hook \<Rightarrow> ('ep, 'w) observe_endpoint" where
  "add_write_hook e h = e\<lparr>obs_write_hooks := obs_write_hooks e @ [h]\<rparr>"

definition observe_read ::
  "nanos \<Rightarrow> 'ep endpoint_ops \<Rightarrow> ('ep, 'w) observe_endpoint \<Rightarrow> u16
    \<Rightarrow> ('ep, 'w) observe_endpoint \<times> bytes rcp_result" where
  "observe_read elapsed ops e read_size =
    (case ep_read ops (obs_inner e) read_size of
       (ep, r) \<Rightarrow> (e\<lparr>obs_inner := ep, obs_metrics := metrics_record (obs_metrics e) elapsed (isl r),
                   obs_world := fold (\<lambda>hook. hook read_size r elapsed) (obs_read_hooks e) (obs_world e)\<rparr>, r))"

definition observe_write ::
  "nanos \<Rightarrow> 'ep endpoint_ops \<Rightarrow> ('ep, 'w) observe_endpoint \<Rightarrow> bytes
    \<Rightarrow> ('ep, 'w) observe_endpoint \<times> unit rcp_result" where
  "observe_write elapsed ops e payload =
    (case ep_write ops (obs_inner e) payload of
       (ep, r) \<Rightarrow> (e\<lparr>obs_inner := ep, obs_metrics := metrics_record (obs_metrics e) elapsed (isl r),
                   obs_world := fold (\<lambda>hook. hook payload r elapsed) (obs_write_hooks e) (obs_world e)\<rparr>, r))"

definition observe_ops :: "nanos \<Rightarrow> 'ep endpoint_ops \<Rightarrow> ('ep, 'w) observe_endpoint endpoint_ops" where
  "observe_ops elapsed ops = \<lparr>ep_type_of = (\<lambda>e. ep_type_of ops (obs_inner e)),
     ep_read = observe_read elapsed ops, ep_write = observe_write elapsed ops\<rparr>"

section \<open>Simulation\<close>

datatype sim_call = SimRead u16 | SimWrite bytes

record sim_endpoint =
  sim_ep_type :: endpoint_type
  sim_buf :: bytes
  sim_calls :: "sim_call list"
  sim_read_responses :: "bytes rcp_result list"
  sim_write_responses :: "unit rcp_result list"
  sim_closed :: bool

definition sim_new :: "endpoint_type \<Rightarrow> sim_endpoint" where
  "sim_new t = \<lparr>sim_ep_type = t, sim_buf = [], sim_calls = [], sim_read_responses = [],
     sim_write_responses = [], sim_closed = False\<rparr>"

definition queue_read_response :: "sim_endpoint \<Rightarrow> bytes rcp_result \<Rightarrow> sim_endpoint" where
  "queue_read_response s r = s\<lparr>sim_read_responses := sim_read_responses s @ [r]\<rparr>"

definition queue_write_response :: "sim_endpoint \<Rightarrow> unit rcp_result \<Rightarrow> sim_endpoint" where
  "queue_write_response s r = s\<lparr>sim_write_responses := sim_write_responses s @ [r]\<rparr>"

definition clear_calls :: "sim_endpoint \<Rightarrow> sim_endpoint" where
  "clear_calls s = s\<lparr>sim_calls := []\<rparr>"

definition sim_close :: "sim_endpoint \<Rightarrow> sim_endpoint" where
  "sim_close s = s\<lparr>sim_closed := True\<rparr>"

definition sim_read :: "sim_endpoint \<Rightarrow> u16 \<Rightarrow> sim_endpoint \<times> bytes rcp_result" where
  "sim_read s read_size =
    (if sim_closed s then (s, Inl Closed)
     else let s = s\<lparr>sim_calls := sim_calls s @ [SimRead read_size]\<rparr> in
       case sim_read_responses s of
         queued # rest \<Rightarrow> (s\<lparr>sim_read_responses := rest\<rparr>, queued)
       | [] \<Rightarrow> (let n = min (unat read_size) (length (sim_buf s)) in (s, Inr (take n (sim_buf s)))))"

definition sim_write :: "sim_endpoint \<Rightarrow> bytes \<Rightarrow> sim_endpoint \<times> unit rcp_result" where
  "sim_write s payload =
    (if sim_closed s then (s, Inl Closed)
     else let s = s\<lparr>sim_calls := sim_calls s @ [SimWrite payload]\<rparr> in
       case sim_write_responses s of
         queued # rest \<Rightarrow> (s\<lparr>sim_write_responses := rest\<rparr>, queued)
       | [] \<Rightarrow> (s\<lparr>sim_buf := payload\<rparr>, Inr ()))"

definition sim_ops :: "sim_endpoint endpoint_ops" where
  "sim_ops = \<lparr>ep_type_of = sim_ep_type, ep_read = sim_read, ep_write = sim_write\<rparr>"

end
