(* ===== verification/Rcp_Decorator_Facts.thy ===== *)
theory Rcp_Decorator_Facts
  imports Rcp_Decorators Rcp_Mock_Wire
begin

text \<open>
  What the wrapped endpoints guarantee, alone and behind the RC Server: which of them a client
  cannot tell from the endpoint inside, when they answer, and how each of them decides.
\<close>

section \<open>Simulation between endpoints\<close>

text \<open>
  \<open>abs\<close> forgets what the wrapper adds. As long as the wrapper is in a state that satisfies \<open>ok\<close>, it
  answers like the endpoint it stands for and stays in such a state.
\<close>

locale endpoint_simulation =
  fixes ops :: "'e endpoint_ops"
    and ops' :: "'f endpoint_ops"
    and abs :: "'e \<Rightarrow> 'f"
    and ok :: "'e \<Rightarrow> bool"
  assumes sim_read: "ok e \<Longrightarrow> ok (fst (ep_read ops e n)) \<and> ep_read ops' (abs e) n = apfst abs (ep_read ops e n)"
    and sim_write: "ok e \<Longrightarrow> ok (fst (ep_write ops e p)) \<and> ep_write ops' (abs e) p = apfst abs (ep_write ops e p)"
begin

definition abs_store :: "'e ep_store \<Rightarrow> 'f ep_store" where
  "abs_store store = (\<lambda>r. abs (store r))"

definition all_ok :: "'e ep_store \<Rightarrow> bool" where
  "all_ok store \<longleftrightarrow> (\<forall>r. ok (store r))"

lemma abs_store_upd: "abs_store (store(r := e)) = (abs_store store)(r := abs e)"
  by (auto simp: abs_store_def)

lemma all_ok_upd: "all_ok store \<Longrightarrow> ok e \<Longrightarrow> all_ok (store(r := e))"
  by (simp add: all_ok_def)

lemma handle_device_simulation:
  assumes "all_ok store"
  shows "all_ok (fst (handle_device ops srv store sid request))
    \<and> handle_device ops' srv (abs_store store) sid request
      = apfst abs_store (handle_device ops srv store sid request)"
proof -
  have ok: "ok (store r)" for r using assms by (simp add: all_ok_def)
  have wr: "all_ok (store(r := e)) \<and> ep_write ops' (abs (store r)) p = (abs e, res)"
    if "ep_write ops (store r) p = (e, res)" for r p e res
    using sim_write [OF ok, of r p] all_ok_upd [OF assms] that by simp
  have rd: "all_ok (store(r := e)) \<and> ep_read ops' (abs (store r)) n = (abs e, res)"
    if "ep_read ops (store r) n = (e, res)" for r n e res
    using sim_read [OF ok, of r n] all_ok_upd [OF assms] that by simp
  show ?thesis
  proof (cases "Option.bind (lookup_binding (srv_endpoints srv) sid (byte_bus_id (abb_info request)))
      (srv_endpoint_impls srv)")
    case None
    then show ?thesis using assms by (auto simp: handle_device_def bind_eq_None_conv split: option.splits)
  next
    case (Some r)
    then obtain eid where b: "lookup_binding (srv_endpoints srv) sid (byte_bus_id (abb_info request)) = Some eid"
      "srv_endpoint_impls srv eid = Some r" by (auto simp: bind_eq_Some_conv)
    obtain e res where w: "ep_write ops (store r) (abb_payload request) = (e, res)" by fastforce
    obtain e' res' where d: "ep_read ops (store r) (as_read_size (read_size_segment (abb_info request))) = (e', res')"
      by fastforce
    show ?thesis
      using wr [OF w] rd [OF d]
      by (simp add: handle_device_def b w d abs_store_upd abs_store_def [of store] split: sum.split)
  qed
qed

lemma handle_abb_simulation:
  assumes "all_ok store"
  shows "all_ok (snd (fst (handle_abb ops (srv, store) sid request)))
    \<and> handle_abb ops' (srv, abs_store store) sid request
      = apfst (apsnd abs_store) (handle_abb ops (srv, store) sid request)"
  using handle_device_simulation [OF assms, of srv sid request] assms
  by (auto simp: handle_abb_eq Let_def split: prod.splits)

lemma dispatch_simulation:
  assumes "all_ok store"
  shows "all_ok (snd (fst (dispatch_requests ops (srv, store) sid requests acc)))
    \<and> dispatch_requests ops' (srv, abs_store store) sid requests acc
      = apfst (apsnd abs_store) (dispatch_requests ops (srv, store) sid requests acc)"
  using assms
proof (induction requests arbitrary: srv store acc)
  case (Cons request requests)
  obtain srv1 store1 r where h: "handle_abb ops (srv, store) sid request = ((srv1, store1), r)"
    by (metis prod.collapse)
  have a: "all_ok store1" "handle_abb ops' (srv, abs_store store) sid request = ((srv1, abs_store store1), r)"
    using handle_abb_simulation [OF Cons.prems, of srv sid request] by (simp_all add: h)
  show ?case
    unfolding dispatch_requests_Cons a(2) h using Cons.IH [OF a(1)] a(1)
    by (simp split: sum.splits)
qed simp

lemma handle_frame_simulation:
  assumes "all_ok store"
  shows "all_ok (snd (fst (handle_ntscf_frame ops (srv, store) sid frame)))
    \<and> handle_ntscf_frame ops' (srv, abs_store store) sid frame
      = apfst (apsnd abs_store) (handle_ntscf_frame ops (srv, store) sid frame)"
proof (cases "frame_requests frame")
  case (Inr requests)
  show ?thesis
    using dispatch_simulation [OF assms, of srv sid requests "[]"]
    by (auto simp: handle_frame_cases Inr split: prod.splits sum.splits)
qed (simp add: handle_frame_cases assms)

end

text \<open>Wrappers can be stacked.\<close>

lemma simulation_trans:
  assumes "endpoint_simulation ops ops' f ok" and "endpoint_simulation ops' ops'' g ok'"
  shows "endpoint_simulation ops ops'' (\<lambda>e. g (f e)) (\<lambda>e. ok e \<and> ok' (f e))"
proof
  fix e n
  assume "ok e \<and> ok' (f e)"
  then show "(ok (fst (ep_read ops e n)) \<and> ok' (f (fst (ep_read ops e n))))
      \<and> ep_read ops'' (g (f e)) n = apfst (\<lambda>e. g (f e)) (ep_read ops e n)"
    using endpoint_simulation.sim_read [OF assms(1), of e n] endpoint_simulation.sim_read [OF assms(2), of "f e" n]
    by (simp add: prod_eq_iff)
next
  fix e p
  assume "ok e \<and> ok' (f e)"
  then show "(ok (fst (ep_write ops e p)) \<and> ok' (f (fst (ep_write ops e p))))
      \<and> ep_write ops'' (g (f e)) p = apfst (\<lambda>e. g (f e)) (ep_write ops e p)"
    using endpoint_simulation.sim_write [OF assms(1), of e p] endpoint_simulation.sim_write [OF assms(2), of "f e" p]
    by (simp add: prod_eq_iff)
qed

interpretation recorded: endpoint_simulation "record_ops now ops" ops rec_inner "\<lambda>_. True" for now ops
  by unfold_locales (simp_all add: record_ops_def record_read_def record_write_def split: prod.splits)

interpretation observed: endpoint_simulation "observe_ops elapsed ops" ops obs_inner "\<lambda>_. True" for elapsed ops
  by unfold_locales (simp_all add: observe_ops_def observe_read_def observe_write_def split: prod.splits)

interpretation deadlined: endpoint_simulation "deadline_ops ops" ops dl_inner "\<lambda>_. True" for ops
  by unfold_locales (simp_all add: deadline_ops_def deadline_read_def deadline_write_def through_def split: prod.splits)

interpretation proxied: endpoint_simulation "proxy_ops ops" ops "\<lambda>p. the (proxy_inner p)" "\<lambda>p. proxy_inner p \<noteq> None"
  for ops
  by unfold_locales (auto simp: proxy_ops_def proxy_read_def proxy_write_def split: prod.splits)

interpretation unfaulted: endpoint_simulation "fault_ops ops" ops fault_inner "\<lambda>f. fault_specs f = []" for ops
  by unfold_locales (simp_all add: fault_ops_def fault_call_def next_fault_def through_def Let_def split: prod.splits)

lemma allow_all_allows: "is_allowed policy_allow_all t w"
  by (cases t; cases w) (simp_all add: is_allowed_def policy_allow_all_def ALL_EP_TYPE_BYTES_def upt_rec)

lemma deny_all_denies: "\<not> is_allowed policy_deny_all t w"
  by (simp add: is_allowed_def policy_deny_all_def)

interpretation authorised: endpoint_simulation "authz_ops ops" ops authz_inner "\<lambda>a. authz_policy a = policy_allow_all"
  for ops
  by unfold_locales
    (simp_all add: authz_ops_def authz_read_def authz_write_def through_def allow_all_allows split: prod.splits)

text \<open>A simulated endpoint with nothing queued is a mock endpoint that keeps a log of its calls.\<close>

definition sim_as_mock :: "sim_endpoint \<Rightarrow> mock_endpoint" where
  "sim_as_mock s = \<lparr>mock_ep_type = sim_ep_type s, mock_buf = sim_buf s\<rparr>"

definition sim_idle :: "sim_endpoint \<Rightarrow> bool" where
  "sim_idle s \<longleftrightarrow> \<not> sim_closed s \<and> sim_read_responses s = [] \<and> sim_write_responses s = []"

interpretation simulated: endpoint_simulation sim_ops mock_ops sim_as_mock sim_idle
  by unfold_locales
    (simp_all add: sim_ops_def sim_read_def sim_write_def mock_ops_def mock_read_def mock_write_def sim_as_mock_def
      sim_idle_def Let_def)

section \<open>Histories of calls\<close>

text \<open>
  The calls made to one endpoint, each with the time it is made at, and their results. A read that
  succeeds returns octets, a write that succeeds returns none.
\<close>

datatype ep_call = CallRead u16 | CallWrite bytes

fun call_ep :: "'ep endpoint_ops \<Rightarrow> 'ep \<Rightarrow> ep_call \<Rightarrow> 'ep \<times> bytes option rcp_result" where
  "call_ep ops e (CallRead n) = apsnd (map_sum id Some) (ep_read ops e n)"
| "call_ep ops e (CallWrite p) = apsnd (map_sum id (\<lambda>_. None)) (ep_write ops e p)"

fun run_calls ::
  "(nat \<Rightarrow> 'ep endpoint_ops) \<Rightarrow> 'ep \<Rightarrow> (nat \<times> ep_call) list \<Rightarrow> 'ep \<times> bytes option rcp_result list" where
  "run_calls ops e [] = (e, [])"
| "run_calls ops e ((now, c) # cs) =
    (case call_ep (ops now) e c of
       (e', r) \<Rightarrow> (case run_calls ops e' cs of (e'', rs) \<Rightarrow> (e'', r # rs)))"

lemma length_run_calls: "length (snd (run_calls ops e cs)) = length cs"
  by (induction ops e cs rule: run_calls.induct) (auto split: prod.splits)

section \<open>The log\<close>

fun log_entry :: "nat \<times> ep_call \<Rightarrow> bytes option rcp_result \<Rightarrow> record_entry" where
  "log_entry (now, CallRead n) r = ReadEntry now n (map_sum id the r)"
| "log_entry (now, CallWrite p) r = WriteEntry now p (map_sum id (\<lambda>_. ()) r)"

lemma record_call:
  "call_ep (record_ops now ops) e c =
    (case call_ep ops (rec_inner e) c of
       (ep, r) \<Rightarrow> (e\<lparr>rec_inner := ep, rec_log := rec_log e @ [log_entry (now, c) r]\<rparr>, r))"
proof (cases c)
  case (CallRead n)
  then show ?thesis
    by (auto simp: record_ops_def record_read_def sum.map_comp o_def sum.map_ident split: prod.splits)
next
  case (CallWrite p)
  have "map_sum (\<lambda>x. x) (\<lambda>_. ()) r = r" for r :: "unit rcp_result" by (cases r) auto
  with CallWrite show ?thesis
    by (auto simp: record_ops_def record_write_def sum.map_comp o_def split: prod.splits)
qed

lemma record_history:
  "run_calls (\<lambda>now. record_ops now ops) e cs =
    (case run_calls (\<lambda>_. ops) (rec_inner e) cs of
       (ep, rs) \<Rightarrow> (e\<lparr>rec_inner := ep, rec_log := rec_log e @ map2 log_entry cs rs\<rparr>, rs))"
  by (induction cs arbitrary: e) (auto simp: record_call split: prod.splits)

section \<open>Failover\<close>

lemma redundancy_call:
  "call_ep (redundancy_ops ops) e c = redundancy_dispatch (\<lambda>ep. call_ep ops ep c) e"
  by (cases c)
    (auto simp: redundancy_ops_def redundancy_dispatch_def apsnd_def split: prod.splits sum.splits option.splits)

lemma redundancy_alone:
  assumes "red_secondary e = None"
  shows "run_calls (\<lambda>_. redundancy_ops ops) e cs =
    (case run_calls (\<lambda>_. ops) (red_primary e) cs of (ep, rs) \<Rightarrow> (e\<lparr>red_primary := ep\<rparr>, rs))"
  using assms
  by (induction cs arbitrary: e)
    (auto simp: redundancy_call redundancy_dispatch_def split: prod.splits sum.splits)

lemma redundancy_history:
  assumes "red_secondary e = Some sec"
    and "run_calls (\<lambda>_. ops) (red_primary e) cs = (p, rs)"
    and "k = length (takeWhile (\<lambda>r. \<not> isl r) rs)"
    and "run_calls (\<lambda>_. redundancy_ops ops) e cs = (e', rs')"
  shows "rs' = take k rs @ snd (run_calls (\<lambda>_. ops) sec (drop k cs))
    \<and> (if k < length cs
       then red_secondary e' = None \<and> red_failovers e' = red_failovers e + 1
          \<and> red_primary e' = fst (run_calls (\<lambda>_. ops) sec (drop k cs))
       else e' = e\<lparr>red_primary := p\<rparr>)"
  using assms
proof (induction cs arbitrary: e p rs k e' rs')
  case (Cons tc cs)
  obtain now c where tc: "tc = (now, c)" by (cases tc)
  obtain p1 r where c1: "call_ep ops (red_primary e) c = (p1, r)" by fastforce
  show ?case
  proof (cases r)
    case (Inl err)
    obtain s1 r1 where c2: "call_ep ops sec c = (s1, r1)" by fastforce
    have "k = 0" using Cons.prems(2, 3) by (auto simp: tc c1 Inl split: prod.splits)
    moreover define e1 where "e1 = e\<lparr>red_primary := s1, red_secondary := None, red_failovers := red_failovers e + 1\<rparr>"
    moreover have "call_ep (redundancy_ops ops) e c = (e1, r1)"
      by (simp add: redundancy_call redundancy_dispatch_def c1 Inl Cons.prems(1) c2 e1_def)
    ultimately show ?thesis
      using Cons.prems(4) redundancy_alone [of e1 ops cs]
      by (auto simp: tc c2 split: prod.splits)
  next
    case (Inr v)
    have c3: "call_ep (redundancy_ops ops) e c = (e\<lparr>red_primary := p1\<rparr>, Inr v)"
      by (simp add: redundancy_call redundancy_dispatch_def c1 Inr)
    obtain rs1 where r1: "run_calls (\<lambda>_. ops) p1 cs = (p, rs1)" "rs = Inr v # rs1"
      using Cons.prems(2) by (auto simp: tc c1 Inr split: prod.splits)
    obtain rs2 where r2: "run_calls (\<lambda>_. redundancy_ops ops) (e\<lparr>red_primary := p1\<rparr>) cs = (e', rs2)" "rs' = Inr v # rs2"
      using Cons.prems(4) by (auto simp: tc c3 split: prod.splits)
    define k1 where "k1 = length (takeWhile (\<lambda>r. \<not> isl r) rs1)"
    have "k = Suc k1" using Cons.prems(3) by (simp add: r1 k1_def)
    then show ?thesis
      using Cons.IH [of "e\<lparr>red_primary := p1\<rparr>" p rs1 k1 e' rs2] Cons.prems(1) r1 r2 by (simp add: k1_def)
  qed
qed simp

section \<open>Injected faults\<close>

definition planned_fault :: "fault_spec list \<Rightarrow> u64 \<Rightarrow> rcp_error option" where
  "planned_fault specs call_no = map_option fault_error (find (fault_triggered call_no) specs)"

text \<open>
  The reference: a call that has a planned fault fails with it and never reaches the endpoint, all
  other calls reach it in their order.
\<close>

fun calls_with_faults ::
  "(u64 \<Rightarrow> rcp_error option) \<Rightarrow> u64 \<Rightarrow> 'ep endpoint_ops \<Rightarrow> 'ep \<Rightarrow> (nat \<times> ep_call) list
    \<Rightarrow> 'ep \<times> bytes option rcp_result list" where
  "calls_with_faults plan n ops e [] = (e, [])"
| "calls_with_faults plan n ops e ((_, c) # cs) =
    (case (case plan (n + 1) of Some err \<Rightarrow> (e, Inl err) | None \<Rightarrow> call_ep ops e c) of
       (e', r) \<Rightarrow> (case calls_with_faults plan (n + 1) ops e' cs of (e'', rs) \<Rightarrow> (e'', r # rs)))"

lemma fault_call_ep:
  "call_ep (fault_ops ops) f c =
    (let n = fault_call_no f + 1; f' = f\<lparr>fault_call_no := n, fault_total := fault_total f + 1\<rparr> in
     case planned_fault (fault_specs f) n of
       Some err \<Rightarrow> (f', Inl err)
     | None \<Rightarrow> (case call_ep ops (fault_inner f) c of (ep, r) \<Rightarrow> (f'\<lparr>fault_inner := ep\<rparr>, r)))"
  by (cases c)
    (auto simp: fault_ops_def fault_call_def next_fault_def through_def planned_fault_def Let_def
      split: prod.splits option.splits)

lemma fault_history:
  "run_calls (\<lambda>_. fault_ops ops) f cs =
    (case calls_with_faults (planned_fault (fault_specs f)) (fault_call_no f) ops (fault_inner f) cs of
       (ep, rs) \<Rightarrow> (f\<lparr>fault_inner := ep, fault_call_no := fault_call_no f + of_nat (length cs),
                      fault_total := fault_total f + of_nat (length cs)\<rparr>, rs))"
proof (induction cs arbitrary: f)
  case (Cons tc cs)
  obtain now c where tc: "tc = (now, c)" by (cases tc)
  show ?case
  proof (cases "planned_fault (fault_specs f) (fault_call_no f + 1)")
    case None
    obtain ep r where "call_ep ops (fault_inner f) c = (ep, r)" by fastforce
    with None show ?thesis
      using Cons.IH [of "f\<lparr>fault_call_no := fault_call_no f + 1, fault_total := fault_total f + 1, fault_inner := ep\<rparr>"]
      by (simp add: tc fault_call_ep Let_def algebra_simps split: prod.splits)
  next
    case (Some err)
    then show ?thesis
      using Cons.IH [of "f\<lparr>fault_call_no := fault_call_no f + 1, fault_total := fault_total f + 1\<rparr>"]
      by (simp add: tc fault_call_ep Let_def algebra_simps split: prod.splits)
  qed
qed simp

section \<open>Errors without a wire code\<close>

text \<open>
  The server can answer an error only if it has a wire code. The errors of a denied, a detached and
  a closed endpoint have none, so one such request ends the handling of the whole frame.
\<close>

lemma dispatch_append:
  "dispatch_requests ops st sid (requests @ requests') acc =
    (case dispatch_requests ops st sid requests acc of
       (st', Inl e) \<Rightarrow> (st', Inl e)
     | (st', Inr out) \<Rightarrow> dispatch_requests ops st' sid requests' out)"
proof (induction requests arbitrary: st acc)
  case (Cons request requests)
  show ?case unfolding append_Cons dispatch_requests_Cons by (simp add: Cons.IH split: prod.splits sum.splits)
qed simp

lemma unanswerable_ends_batch:
  assumes "dispatch_requests ops st sid requests acc = (st1, Inr out)"
    and "handle_abb ops st1 sid request = (st', Inl e)" and "tc18_wire_code e = None"
  shows "dispatch_requests ops st sid (requests @ request # requests') acc = (st', Inl e)"
  using assms(2, 3)
  by (simp add: dispatch_append assms(1) dispatch_requests_Cons answer_of_def build_error_response_def
      del: dispatch_requests.simps)

definition device_request :: "rc_server \<Rightarrow> stream_id \<Rightarrow> acf_abb_message \<Rightarrow> ep_ref \<Rightarrow> bool" where
  "device_request srv sid request r \<longleftrightarrow>
     \<not> is_ep0_address (byte_bus_id (abb_info request))
     \<and> (\<exists>eid. lookup_binding (srv_endpoints srv) sid (byte_bus_id (abb_info request)) = Some eid
           \<and> srv_endpoint_impls srv eid = Some r)"

definition request_call :: "acf_abb_message \<Rightarrow> ep_call" where
  "request_call request =
    (if bmi_op (abb_info request) then CallWrite (abb_payload request)
     else CallRead (as_read_size (read_size_segment (abb_info request))))"

lemma handle_abb_device:
  assumes "device_request srv sid request r"
  shows "handle_abb ops (srv, store) sid request =
    (case call_ep ops (store r) (request_call request) of
       (ep, result) \<Rightarrow> ((srv, store(r := ep)),
         map_sum id (\<lambda>p. \<lparr>abb_info = (abb_info request)\<lparr>bmi_rsp := True\<rparr>,
                          abb_payload = (case p of Some d \<Rightarrow> d | None \<Rightarrow> [])\<rparr>) result))"
  using assms
  by (auto simp: device_request_def request_call_def handle_abb_eq handle_device_def Let_def
      split: prod.splits sum.splits)

lemma authz_denies:
  assumes "\<not> is_allowed (authz_policy a) (ep_type_of ops (authz_inner a)) (\<exists>p. c = CallWrite p)"
  shows "call_ep (authz_ops ops) a c = (a, Inl NotFound)"
  using assms by (cases c) (auto simp: authz_ops_def authz_read_def authz_write_def)

section \<open>Further facts\<close>

text \<open>Injected faults hit exactly the planned calls. A history of calls through the fault injector has the results, and leaves the endpoint in the state, of the reference history in which a call with a planned fault fails without reaching the endpoint and every other call reaches it.\<close>

theorem faults_as_planned:
  "run_calls (\<lambda>_. fault_ops ops) f cs =
    (case calls_with_faults (planned_fault (fault_specs f)) (fault_call_no f) ops (fault_inner f) cs of
       (ep, rs) \<Rightarrow> (f\<lparr>fault_inner := ep, fault_call_no := fault_call_no f + of_nat (length cs),
                      fault_total := fault_total f + of_nat (length cs)\<rparr>, rs))"
  by (rule fault_history)

section \<open>Properties\<close>

text \<open>C15: logging, measuring and deadlines are transparent. A server whose endpoints are wrapped by a recorder around an observer around a deadline handles every frame exactly as the server with the bare endpoints: same reply or error, same server state, and the wrapped endpoints are left as the bare ones are.\<close>

theorem wrappers_transparent:
  "handle_ntscf_frame ops (srv, \<lambda>r. dl_inner (obs_inner (rec_inner (store r)))) sid frame
    = apfst (apsnd (\<lambda>store r. dl_inner (obs_inner (rec_inner (store r)))))
        (handle_ntscf_frame (record_ops now (observe_ops elapsed (deadline_ops ops))) (srv, store) sid frame)"
proof -
  note rec = recorded.endpoint_simulation_axioms [of now "observe_ops elapsed (deadline_ops ops)"]
  note obs = observed.endpoint_simulation_axioms [of elapsed "deadline_ops ops"]
  note sim = simulation_trans [OF rec simulation_trans [OF obs deadlined.endpoint_simulation_axioms [of ops]]]
  from endpoint_simulation.handle_frame_simulation [OF sim, of store srv sid frame] show ?thesis
    by (simp add: recorded.all_ok_def endpoint_simulation.all_ok_def [OF sim] endpoint_simulation.abs_store_def [OF sim, abs_def])
qed

text \<open>C19: a denied request ends its frame. The refusal of the authorisation wrapper has no wire code, so when a request of a frame reaches an endpoint whose policy denies it, the endpoint is not called, there is no reply at all, not even for the requests before it, whose effects stay, and the requests after it are not dispatched.\<close>

theorem denied_request_ends_frame:
  assumes "dispatch_requests (authz_ops ops) (srv, store) sid requests [] = ((srv1, store1), Inr out)"
    and "device_request srv1 sid request r"
    and "\<not> is_allowed (authz_policy (store1 r)) (ep_type_of ops (authz_inner (store1 r))) (bmi_op (abb_info request))"
  shows "dispatch_requests (authz_ops ops) (srv, store) sid (requests @ request # later) []
    = ((srv1, store1), Inl NotFound)"
proof -
  have "(\<exists>p. request_call request = CallWrite p) \<longleftrightarrow> bmi_op (abb_info request)" by (simp add: request_call_def)
  then have "call_ep (authz_ops ops) (store1 r) (request_call request) = (store1 r, Inl NotFound)"
    using assms(3) by (intro authz_denies) simp
  then have "handle_abb (authz_ops ops) (srv1, store1) sid request = ((srv1, store1), Inl NotFound)"
    by (simp add: handle_abb_device [OF assms(2)])
  then show ?thesis by (rule unanswerable_ends_batch [OF assms(1)]) simp
qed

lemma denied_request_ends_frame_witness:
  "dispatch_requests (authz_ops mock_ops)
      ((rc_server_new zero_registers)
         \<lparr>srv_endpoints := \<lparr>streams = Map.empty(sample_stream 1 \<mapsto> Map.empty(3 \<mapsto> EndpointId 0))\<rparr>,
           srv_endpoint_impls := Map.empty(EndpointId 0 \<mapsto> 0)\<rparr>,
       \<lambda>_. authz_new (mock_endpoint_new Gpio [1]) policy_deny_all) (sample_stream 1)
      ([] @ \<lparr>abb_info = byte_message_info_default\<lparr>byte_bus_id := 3\<rparr>, abb_payload = []\<rparr> # [ep0_read_message 8]) []
    = (((rc_server_new zero_registers)
         \<lparr>srv_endpoints := \<lparr>streams = Map.empty(sample_stream 1 \<mapsto> Map.empty(3 \<mapsto> EndpointId 0))\<rparr>,
           srv_endpoint_impls := Map.empty(EndpointId 0 \<mapsto> 0)\<rparr>,
        \<lambda>_. authz_new (mock_endpoint_new Gpio [1]) policy_deny_all), Inl NotFound)"
  by (rule denied_request_ends_frame [where r = 0 and out = "[]"])
    (simp_all add: device_request_def lookup_binding_def is_ep0_address_def EP0_BYTE_BUS_ID_def
      authz_new_def deny_all_denies)

text \<open>C32: a redundant pair fails over once and loses no call. Along any history of reads and writes, the pair answers like the primary up to its first failure; that call and all later ones are answered by the secondary, which has seen none of the earlier ones, and the failure itself is never reported. The failover counter counts the one change.\<close>

theorem pair_fails_over_once:
  assumes "red_secondary e = Some sec"
    and "run_calls (\<lambda>_. ops) (red_primary e) cs = (p, rs)"
    and "run_calls (\<lambda>_. redundancy_ops ops) e cs = (e', rs')"
  shows "rs' = takeWhile (\<lambda>r. \<not> isl r) rs
      @ snd (run_calls (\<lambda>_. ops) sec (drop (length (takeWhile (\<lambda>r. \<not> isl r) rs)) cs))
    \<and> red_failovers e' = red_failovers e + of_bool (\<exists>r\<in>set rs. isl r)
    \<and> (red_secondary e' = None \<longleftrightarrow> (\<exists>r\<in>set rs. isl r))"
proof -
  define k where "k = length (takeWhile (\<lambda>r. \<not> isl r) rs)"
  have len: "length rs = length cs" using length_run_calls [of "\<lambda>_. ops" "red_primary e" cs] assms(2) by simp
  have k: "k < length cs \<longleftrightarrow> (\<exists>r\<in>set rs. isl r)"
  proof -
    have "k = length rs \<longleftrightarrow> takeWhile (\<lambda>r. \<not> isl r) rs = rs"
      unfolding k_def by (metis take_all_iff takeWhile_eq_take order_refl)
    moreover have "k \<le> length rs" by (simp add: k_def length_takeWhile_le)
    ultimately show ?thesis by (auto simp: len [symmetric] takeWhile_eq_all_conv)
  qed
  have "take k rs = takeWhile (\<lambda>r. \<not> isl r) rs" by (simp add: k_def takeWhile_eq_take [symmetric])
  with redundancy_history [OF assms(1, 2) k_def assms(3)] show ?thesis
    using assms(1) by (cases "k < length cs") (auto simp: k [symmetric] k_def)
qed

lemma pair_fails_over_once_witness:
  "\<exists>e' rs'. run_calls (\<lambda>_. redundancy_ops mock_ops)
      (redundancy_new mock_ops (mock_endpoint_new Gpio [1]) (mock_endpoint_new Gpio [2])) [(0, CallRead 1)] = (e', rs')
    \<and> red_failovers e' = 0"
proof -
  have p: "run_calls (\<lambda>_. mock_ops) (red_primary (redundancy_new mock_ops (mock_endpoint_new Gpio [1]) (mock_endpoint_new Gpio [2])))
      [(0, CallRead 1)] = (mock_endpoint_new Gpio [1], [Inr (Some [1])])"
    by (simp add: redundancy_new_def mock_ops_def mock_read_def mock_endpoint_new_def Let_def)
  obtain e' rs' where r: "run_calls (\<lambda>_. redundancy_ops mock_ops)
      (redundancy_new mock_ops (mock_endpoint_new Gpio [1]) (mock_endpoint_new Gpio [2])) [(0, CallRead 1)] = (e', rs')"
    by fastforce
  have "red_secondary (redundancy_new mock_ops (mock_endpoint_new Gpio [1]) (mock_endpoint_new Gpio [2]))
      = Some (mock_endpoint_new Gpio [2])" by (simp add: redundancy_new_def)
  from pair_fails_over_once [OF this p r] r show ?thesis by (simp add: redundancy_new_def)
qed


end
