(* ===== verification/Rcp_Loan.thy ===== *)
theory Rcp_Loan
  imports Rcp_Decorator_Facts
begin

text \<open>
  The buffer pool of \<open>src/loan.rs\<close> with the \<open>Loan\<close> of \<open>src/lib.rs\<close>: buffers go out as loans,
  a client changes their contents, and a loan that is dropped, returned or written goes back. The
  pool is a stack, \<open>pop\<close> and \<open>push\<close> work at the end of the vector.
\<close>

section \<open>The pool\<close>

record loan_pool =
  pool_bufs :: "bytes list"
  pool_size :: nat

definition loan_pool_new :: "nat \<Rightarrow> nat \<Rightarrow> loan_pool" where
  "loan_pool_new count sz = \<lparr>pool_bufs = replicate count (replicate sz 0), pool_size = sz\<rparr>"

definition pool_available :: "loan_pool \<Rightarrow> nat" where
  "pool_available pool = length (pool_bufs pool)"

text \<open>A loan is its payload; the pool it came from is the one it is released to.\<close>

datatype loan = Loan (loan_payload: bytes)

definition try_acquire :: "loan_pool \<Rightarrow> loan_pool \<times> loan option" where
  "try_acquire pool =
    (if pool_bufs pool = [] then (pool, None)
     else (pool\<lparr>pool_bufs := butlast (pool_bufs pool)\<rparr>, Some (Loan (last (pool_bufs pool)))))"

text \<open>
  \<open>acquire\<close> waits on an empty pool. One turn of its loop is an attempt, and \<open>None\<close> means that the
  caller is still waiting.
\<close>

definition acquire :: "loan_pool \<Rightarrow> (loan_pool \<times> loan) option" where
  "acquire pool =
    (case try_acquire pool of (pool', Some l) \<Rightarrow> Some (pool', l) | (_, None) \<Rightarrow> None)"

definition release_loan :: "loan_pool \<Rightarrow> loan \<Rightarrow> loan_pool" where
  "release_loan pool l = pool\<lparr>pool_bufs := pool_bufs pool @ [loan_payload l]\<rparr>"

section \<open>The endpoint\<close>

record 'ep loan_endpoint =
  loan_inner :: 'ep
  loan_pool_of :: loan_pool

text \<open>As before, no result means that the caller waits for a buffer.\<close>

definition loan_request :: "'ep loan_endpoint \<Rightarrow> nat \<Rightarrow> ('ep loan_endpoint \<times> loan rcp_result) option" where
  "loan_request e sz =
    (if sz > pool_size (loan_pool_of e) then Some (e, Inl PayloadTooLarge)
     else map_option (\<lambda>(pool, l). (e\<lparr>loan_pool_of := pool\<rparr>, Inr l)) (acquire (loan_pool_of e)))"

definition write_loaned ::
  "'ep endpoint_ops \<Rightarrow> 'ep loan_endpoint \<Rightarrow> loan \<Rightarrow> 'ep loan_endpoint \<times> unit rcp_result" where
  "write_loaned ops e l =
    (let payload = loan_payload l;
         e = e\<lparr>loan_pool_of := release_loan (loan_pool_of e) l\<rparr> in
     through loan_inner (\<lambda>ep. e\<lparr>loan_inner := ep\<rparr>) (\<lambda>ep. ep_write ops ep payload) e)"

definition loan_ops :: "'ep endpoint_ops \<Rightarrow> 'ep loan_endpoint endpoint_ops" where
  "loan_ops ops =
    \<lparr>ep_type_of = (\<lambda>e. ep_type_of ops (loan_inner e)),
     ep_read = (\<lambda>e read_size. through loan_inner (\<lambda>ep. e\<lparr>loan_inner := ep\<rparr>) (\<lambda>ep. ep_read ops ep read_size) e),
     ep_write = (\<lambda>e payload. through loan_inner (\<lambda>ep. e\<lparr>loan_inner := ep\<rparr>) (\<lambda>ep. ep_write ops ep payload) e)\<rparr>"

interpretation loaned: endpoint_simulation "loan_ops ops" ops loan_inner "\<lambda>_. True" for ops
  by unfold_locales (simp_all add: loan_ops_def through_def split: prod.splits)

section \<open>Clients of the pool\<close>

text \<open>
  The pool together with the loans that are out. A client may do anything to the payload it holds,
  and gives a loan back by dropping, returning or writing it.
\<close>

inductive pool_step ::
  "'ep endpoint_ops \<Rightarrow> 'ep loan_endpoint \<times> loan list \<Rightarrow> 'ep loan_endpoint \<times> loan list \<Rightarrow> bool"
  for ops :: "'ep endpoint_ops" where
  Borrow: "loan_request e sz = Some (e', Inr l) \<Longrightarrow> pool_step ops (e, loans) (e', loans @ [l])"
| Refuse: "loan_request e sz = Some (e', Inl err) \<Longrightarrow> pool_step ops (e, loans) (e', loans)"
| Edit: "i < length loans \<Longrightarrow> pool_step ops (e, loans) (e, loans[i := Loan payload])"
| GiveBack: "i < length loans \<Longrightarrow>
    pool_step ops (e, loans)
      (e\<lparr>loan_pool_of := release_loan (loan_pool_of e) (loans ! i)\<rparr>, take i loans @ drop (Suc i) loans)"
| WriteLoan: "i < length loans \<Longrightarrow>
    pool_step ops (e, loans) (fst (write_loaned ops e (loans ! i)), take i loans @ drop (Suc i) loans)"

inductive_cases pool_stepE: "pool_step ops s s'"

lemma loan_request_Inr:
  "loan_request e sz = Some (e', Inr l) \<longleftrightarrow>
     sz \<le> pool_size (loan_pool_of e) \<and> pool_bufs (loan_pool_of e) \<noteq> []
     \<and> l = Loan (last (pool_bufs (loan_pool_of e)))
     \<and> e' = e\<lparr>loan_pool_of := (loan_pool_of e)\<lparr>pool_bufs := butlast (pool_bufs (loan_pool_of e))\<rparr>\<rparr>"
  by (auto simp: loan_request_def acquire_def try_acquire_def not_less)

lemma loan_request_Inl:
  "loan_request e sz = Some (e', Inl err) \<longleftrightarrow> sz > pool_size (loan_pool_of e) \<and> e' = e \<and> err = PayloadTooLarge"
  by (auto simp: loan_request_def)

lemma loan_request_waits:
  "loan_request e sz = None \<longleftrightarrow> sz \<le> pool_size (loan_pool_of e) \<and> pool_available (loan_pool_of e) = 0"
  by (auto simp: loan_request_def acquire_def try_acquire_def pool_available_def)

lemma write_loaned_pool:
  "loan_pool_of (fst (write_loaned ops e l)) = release_loan (loan_pool_of e) l"
  "(loan_inner (fst (write_loaned ops e l)), snd (write_loaned ops e l)) = ep_write ops (loan_inner e) (loan_payload l)"
  by (auto simp: write_loaned_def through_def Let_def split: prod.splits)

text \<open>No buffer is lost or made: those in the pool and those on loan add up.\<close>

lemma pool_step_count:
  assumes "pool_step ops (e, loans) (e', loans')"
  shows "pool_available (loan_pool_of e') + length loans' = pool_available (loan_pool_of e) + length loans"
    and "pool_size (loan_pool_of e') = pool_size (loan_pool_of e)"
proof -
  have "pool_available (loan_pool_of e') + length loans' = pool_available (loan_pool_of e) + length loans
      \<and> pool_size (loan_pool_of e') = pool_size (loan_pool_of e)"
    using assms
    by (auto elim!: pool_stepE
        simp: loan_request_Inr loan_request_Inl pool_available_def release_loan_def write_loaned_pool(1))
  then show "pool_available (loan_pool_of e') + length loans' = pool_available (loan_pool_of e) + length loans"
    and "pool_size (loan_pool_of e') = pool_size (loan_pool_of e)" by simp_all
qed

lemma pool_conserved:
  assumes "(pool_step ops)\<^sup>*\<^sup>* (e, loans) (e', loans')"
  shows "pool_available (loan_pool_of e') + length loans' = pool_available (loan_pool_of e) + length loans
    \<and> pool_size (loan_pool_of e') = pool_size (loan_pool_of e)"
  using assms
proof (induction "(e', loans')" arbitrary: e' loans' rule: rtranclp_induct)
  case (step s)
  obtain e1 loans1 where s: "s = (e1, loans1)" by (cases s)
  show ?case
    using step.hyps(3) [OF s] pool_step_count [OF step.hyps(2) [unfolded s]] by simp
qed simp

text \<open>
  Contents survive. A buffer that was shortened by one client is handed to the next as it is, and
  a request for \<open>size\<close> octets gets whatever the top buffer holds.
\<close>

lemma shortened_buffer_is_lent:
  assumes "pool_bufs (loan_pool_of e) \<noteq> []" and "sz \<le> pool_size (loan_pool_of e)"
  shows "\<exists>e'. (pool_step ops)\<^sup>*\<^sup>* (e, []) (e', []) \<and> loan_inner e' = loan_inner e
    \<and> (\<exists>e''. loan_request e' sz = Some (e'', Inr (Loan payload)))"
proof -
  define pool where "pool = loan_pool_of e"
  define e1 where "e1 = e\<lparr>loan_pool_of := pool\<lparr>pool_bufs := butlast (pool_bufs pool)\<rparr>\<rparr>"
  define e2 where "e2 = e1\<lparr>loan_pool_of := release_loan (loan_pool_of e1) (Loan payload)\<rparr>"
  have "pool_step ops (e, []) (e1, [] @ [Loan (last (pool_bufs pool))])"
    by (rule Borrow [where sz = sz]) (use assms in \<open>simp add: loan_request_Inr e1_def pool_def\<close>)
  moreover have "pool_step ops (e1, [Loan (last (pool_bufs pool))]) (e1, [Loan (last (pool_bufs pool))][0 := Loan payload])"
    by (rule Edit) simp
  moreover have "pool_step ops (e1, [Loan payload])
      (e1\<lparr>loan_pool_of := release_loan (loan_pool_of e1) ([Loan payload] ! 0)\<rparr>, take 0 [Loan payload] @ drop (Suc 0) [Loan payload])"
    by (rule GiveBack) simp
  ultimately have "(pool_step ops)\<^sup>*\<^sup>* (e, []) (e2, [])"
    by (simp add: e2_def)
  moreover have "loan_request e2 sz = Some (e1, Inr (Loan payload))"
    using assms(2) by (simp add: loan_request_Inr e2_def e1_def release_loan_def pool_def)
  ultimately show ?thesis by (auto simp: e2_def e1_def)
qed

section \<open>Properties\<close>

text \<open>C34: no buffer is lost or made. Through any interleaving of borrowing, refused borrowing, edits of lent payloads, returns and writes of loans, the buffers in the pool and those on loan together stay as many as they were.\<close>

theorem buffers_conserved:
  assumes "(pool_step ops)\<^sup>*\<^sup>* (e, []) (e', loans)"
  shows "pool_available (loan_pool_of e') + length loans = pool_available (loan_pool_of e)
    \<and> length loans \<le> pool_available (loan_pool_of e)"
  using pool_conserved [OF assms] by simp

lemma buffers_conserved_witness:
  "\<exists>e' l. loan_request \<lparr>loan_inner = mock_endpoint_new Gpio [], loan_pool_of = loan_pool_new 2 4\<rparr> 3 = Some (e', Inr l)
    \<and> pool_available (loan_pool_of e') + length [l] = pool_available (loan_pool_of \<lparr>loan_inner = mock_endpoint_new Gpio [], loan_pool_of = loan_pool_new 2 4\<rparr>)"
proof -
  let ?e = "\<lparr>loan_inner = mock_endpoint_new Gpio [], loan_pool_of = loan_pool_new 2 4\<rparr>"
  obtain e' l where r: "loan_request ?e 3 = Some (e', Inr l)"
    by (simp add: loan_request_Inr loan_pool_new_def numeral_2_eq_2)
  then have "pool_step mock_ops (?e, []) (e', [] @ [l])" by (rule Borrow)
  then have "(pool_step mock_ops)\<^sup>*\<^sup>* (?e, []) (e', [l])" by simp
  from buffers_conserved [OF this] r show ?thesis by blast
qed


end
