(* ===== verification/Rcp_Float.thy ===== *)
theory Rcp_Float
  imports Complex_Main
begin

text \<open>
  The arithmetic of \<open>f64\<close>: the result of an operation is the exact one, rounded to the nearest value
  with 53 binary digits and an exponent of at least -1074, on a tie to the one whose last digit is
  even. The range is not bounded above: the program's only use of a huge result is its minimum with
  a finite value, where infinity does the same.
\<close>

section \<open>Rounding to an integer\<close>

definition round_even :: "real \<Rightarrow> int" where
  "round_even x =
    (let n = \<lfloor>x\<rfloor>; rest = x - of_int n in
     if rest < 1 / 2 \<or> rest = 1 / 2 \<and> even n then n else n + 1)"

lemma round_even_of_int [simp]: "round_even (of_int k) = k"
  by (simp add: round_even_def)

lemma round_even_error: "\<bar>of_int (round_even x) - x\<bar> \<le> 1 / 2"
proof -
  have "of_int \<lfloor>x\<rfloor> \<le> x" "x < of_int \<lfloor>x\<rfloor> + 1" by linarith+
  then show ?thesis by (simp add: round_even_def Let_def)
qed

lemma round_even_mono:
  assumes "x \<le> y"
  shows "round_even x \<le> round_even y"
proof (cases "\<lfloor>x\<rfloor> = \<lfloor>y\<rfloor>")
  case True
  then show ?thesis using assms by (auto simp: round_even_def Let_def)
next
  case False
  then have "\<lfloor>x\<rfloor> + 1 \<le> \<lfloor>y\<rfloor>" using floor_mono [OF assms] by simp
  moreover have "round_even x \<le> \<lfloor>x\<rfloor> + 1" "\<lfloor>y\<rfloor> \<le> round_even y" by (simp_all add: round_even_def Let_def)
  ultimately show ?thesis by linarith
qed

lemma round_even_le: "x \<le> of_int k \<Longrightarrow> round_even x \<le> k"
  using round_even_mono [of x "of_int k"] by simp

lemma round_even_ge: "of_int k \<le> x \<Longrightarrow> k \<le> round_even x"
  using round_even_mono [of "of_int k" x] by simp

section \<open>Rounding to a number with 53 digits\<close>

definition f64_exponent :: "real \<Rightarrow> int" where
  "f64_exponent x = max (\<lfloor>log 2 \<bar>x\<bar>\<rfloor> - 52) (- 1074)"

definition f64_round :: "real \<Rightarrow> real" where
  "f64_round x = of_int (round_even (x / 2 powr of_int (f64_exponent x))) * 2 powr of_int (f64_exponent x)"

lemma f64_round_0 [simp]: "f64_round 0 = 0"
  using round_even_of_int [of 0] by (simp add: f64_round_def)

lemma f64_exponent_above: "0 < x \<Longrightarrow> x < 2 powr (of_int (f64_exponent x) + 53)"
proof -
  assume x: "0 < x"
  have "log 2 x < of_int \<lfloor>log 2 x\<rfloor> + 1" by linarith
  also have "\<dots> \<le> of_int (f64_exponent x) + 53" using x by (simp add: f64_exponent_def)
  finally show ?thesis using x by (simp add: log_less_iff)
qed

lemma f64_exponent_below: "0 < x \<Longrightarrow> - 1074 < f64_exponent x \<Longrightarrow> 2 powr (of_int (f64_exponent x) + 52) \<le> x"
proof -
  assume x: "0 < x" and e: "- 1074 < f64_exponent x"
  then have "of_int (f64_exponent x) + 52 = (of_int \<lfloor>log 2 x\<rfloor> :: real)" by (simp add: f64_exponent_def max_def split: if_splits)
  also have "\<dots> \<le> log 2 x" by simp
  finally show ?thesis using x by (simp add: le_log_iff)
qed

lemma f64_exponent_mono: "0 < x \<Longrightarrow> x \<le> y \<Longrightarrow> f64_exponent x \<le> f64_exponent y"
  by (simp add: f64_exponent_def max.coboundedI1 floor_mono)

lemma f64_round_mono:
  assumes "0 \<le> x" and "x \<le> y"
  shows "f64_round x \<le> f64_round y"
proof (cases "x = 0")
  case True
  have "0 \<le> round_even (y / 2 powr of_int (f64_exponent y))" using assms True by (intro round_even_ge) simp
  then show ?thesis unfolding True f64_round_0 by (simp add: f64_round_def)
next
  case False
  then have x: "0 < x" using assms by simp
  define ex ey where "ex = f64_exponent x" and "ey = f64_exponent y"
  have le: "ex \<le> ey" using f64_exponent_mono [OF x assms(2)] by (simp add: ex_def ey_def)
  show ?thesis
  proof (cases "ex = ey")
    case True
    have "round_even (x / 2 powr of_int ex) \<le> round_even (y / 2 powr of_int ey)"
      unfolding True using assms(2) by (intro round_even_mono) (simp add: divide_right_mono)
    then show ?thesis by (simp add: f64_round_def ex_def [symmetric] ey_def [symmetric] True)
  next
    case False
    then have lt: "ex + 1 \<le> ey" using le by simp
    moreover have "- 1074 \<le> ex" by (simp add: ex_def f64_exponent_def)
    ultimately have "- 1074 < ey" by simp
    then have y: "2 powr (of_int ey + 52) \<le> y" using f64_exponent_below [of y] x assms(2) by (simp add: ey_def)
    have "x / 2 powr of_int ex \<le> of_int (2 ^ 53)"
      using f64_exponent_above [OF x] by (simp add: ex_def [symmetric] powr_add field_simps)
    from round_even_le [OF this] have "real_of_int (round_even (x / 2 powr of_int ex)) \<le> real_of_int (2 ^ 53)"
      by (simp only: of_int_le_iff)
    then have "f64_round x \<le> 2 ^ 53 * 2 powr of_int ex"
      by (simp add: f64_round_def ex_def [symmetric])
    also have "\<dots> = 2 powr (of_int (ex + 1) + 52)" by (simp add: powr_add)
    also have "\<dots> \<le> 2 powr (of_int ey + 52)" using lt by (intro powr_mono) simp_all
    also have "\<dots> = 2 ^ 52 * 2 powr of_int ey" by (simp add: powr_add)
    also have "\<dots> \<le> f64_round y"
    proof -
      have "of_int (2 ^ 52) \<le> y / 2 powr of_int ey" using y by (simp add: powr_add field_simps)
      from round_even_ge [OF this] have "real_of_int (2 ^ 52) \<le> of_int (round_even (y / 2 powr of_int ey))"
        by (simp only: of_int_le_iff)
      then show ?thesis by (simp add: f64_round_def ey_def [symmetric])
    qed
    finally show ?thesis .
  qed
qed

lemma f64_round_nonneg: "0 \<le> x \<Longrightarrow> 0 \<le> f64_round x"
  using f64_round_mono [of 0 x] by simp

text \<open>A power of two is a value, and so is every integer of up to 53 digits.\<close>

lemma f64_round_of_int:
  assumes "0 < k" and "k < 2 ^ 53"
  shows "f64_round (of_int k) = of_int k"
proof -
  define e where "e = f64_exponent (of_int k)"
  have "real_of_int k < 2 powr 53" using assms(2) of_int_less_iff [where 'a = real, of k "2 ^ 53"] by simp
  then have "log 2 (of_int k) < 53" using assms(1) by (simp add: log_less_iff)
  then have "\<lfloor>log 2 (of_int k)\<rfloor> < 53" by (simp add: floor_less_iff)
  then have e: "e \<le> 0" using assms(1) by (simp add: e_def f64_exponent_def)
  have "of_int k / 2 powr of_int e = real_of_int (k * 2 ^ nat (- e))"
  proof -
    have "(2 :: real) ^ nat (- e) = 2 powr - of_int e" using e by (simp flip: powr_realpow)
    then show ?thesis by (simp add: powr_minus_divide)
  qed
  then have "round_even (of_int k / 2 powr of_int e) = k * 2 ^ nat (- e)" by (simp only: round_even_of_int)
  moreover have "2 ^ nat (- e) * 2 powr of_int e = (1 :: real)"
  proof -
    have "(2 :: real) ^ nat (- e) = 2 powr - of_int e" using e by (simp flip: powr_realpow)
    then show ?thesis by (simp flip: powr_add)
  qed
  ultimately show ?thesis by (simp add: f64_round_def e_def [symmetric])
qed

lemma f64_round_1 [simp]: "f64_round 1 = 1"
  using f64_round_of_int [of 1] by simp

section \<open>The error\<close>

lemma f64_round_half_ulp: "\<bar>f64_round x - x\<bar> \<le> 2 powr of_int (f64_exponent x) / 2"
proof -
  define u where "u = 2 powr real_of_int (f64_exponent x)"
  have u: "0 < u" by (simp add: u_def)
  have "\<bar>f64_round x - x\<bar> = \<bar>of_int (round_even (x / u)) - x / u\<bar> * u"
    using u by (simp add: f64_round_def u_def [symmetric] abs_mult_pos left_diff_distrib)
  also have "\<dots> \<le> 1 / 2 * u" using u round_even_error by (intro mult_right_mono) simp_all
  finally show ?thesis by (simp add: u_def)
qed

lemma f64_round_relative:
  assumes "2 powr (- 1022) \<le> x"
  shows "\<bar>f64_round x - x\<bar> \<le> x / 2 ^ 53"
proof -
  have x: "0 < x" using assms powr_gt_zero [of 2 "- 1022"] by linarith
  have "- 1022 \<le> log 2 x" using assms x by (simp add: le_log_iff)
  then have "- 1022 \<le> \<lfloor>log 2 x\<rfloor>" by (simp add: le_floor_iff)
  then have "max (\<lfloor>log 2 x\<rfloor> - 52) (- 1074) = \<lfloor>log 2 x\<rfloor> - 52" by (intro max_absorb1) linarith
  then have e: "f64_exponent x = \<lfloor>log 2 x\<rfloor> - 52" using x by (simp only: f64_exponent_def abs_of_pos)
  have "2 powr of_int (f64_exponent x) / 2 = 2 powr real_of_int \<lfloor>log 2 x\<rfloor> / 2 ^ 53"
    by (simp add: e powr_diff)
  also have "\<dots> \<le> x / 2 ^ 53" using x by (intro divide_right_mono) (simp_all flip: le_log_iff)
  finally show ?thesis using f64_round_half_ulp [of x] by linarith
qed

text \<open>The error of a tiny value is below half of the least value.\<close>

definition f64_tiny :: real where
  "f64_tiny = 2 powr (- 1075)"

lemma f64_round_error:
  assumes "0 \<le> x"
  shows "\<bar>f64_round x - x\<bar> \<le> x / 2 ^ 53 + f64_tiny"
proof (cases "2 powr (- 1022) \<le> x")
  case True
  have "0 \<le> f64_tiny" by (simp add: f64_tiny_def)
  with f64_round_relative [OF True] show ?thesis by linarith
next
  case False
  show ?thesis
  proof (cases "x = 0")
    case False
    then have x: "0 < x" using assms by simp
    have "log 2 x < - 1022" using x \<open>\<not> 2 powr (- 1022) \<le> x\<close> by (simp add: log_less_iff)
    then have "f64_exponent x = - 1074" using x by (simp add: f64_exponent_def floor_less_iff max_def) linarith
    then have "2 powr of_int (f64_exponent x) / 2 = f64_tiny" by (simp add: f64_tiny_def powr_minus field_simps)
    moreover have "0 \<le> x / 2 ^ 53" using x by simp
    ultimately show ?thesis using f64_round_half_ulp [of x] by linarith
  qed (simp add: f64_tiny_def)
qed

end
