(* ===== verification/Rcp_Ratelimit.thy ===== *)
theory Rcp_Ratelimit
  imports Rcp_Decorator_Facts Rcp_Float
begin

text \<open>
  Rate limiting, \<open>src/ratelimit.rs\<close>: a token bucket in front of an endpoint. An \<open>f64\<close> is a real
  number, and \<open>rnd\<close>, a parameter of the definitions, rounds the result of each operation; what is
  proved of the rate is proved for the rounding of \<open>f64\<close> itself, \<open>f64_round\<close>. The configured values
  are finite. Instants and durations are natural numbers of nanoseconds, and the instant a call reads
  from the clock is a parameter.
\<close>

section \<open>The bucket\<close>

record ratelimit_config =
  cfg_rate :: real
  cfg_burst :: real

definition ratelimit_default_config :: ratelimit_config where
  "ratelimit_default_config = \<lparr>cfg_rate = 100, cfg_burst = 20\<rparr>"

record bucket =
  bkt_tokens :: real
  bkt_last :: nat
  bkt_rate :: real
  bkt_burst :: real

definition bucket_new :: "ratelimit_config \<Rightarrow> nat \<Rightarrow> bucket" where
  "bucket_new cfg now =
    \<lparr>bkt_tokens = cfg_burst cfg, bkt_last = now, bkt_rate = cfg_rate cfg, bkt_burst = cfg_burst cfg\<rparr>"

text \<open>\<open>as_secs_f64\<close> of the standard library.\<close>

definition as_secs_f64 :: "(real \<Rightarrow> real) \<Rightarrow> nat \<Rightarrow> real" where
  "as_secs_f64 rnd d = rnd (rnd (real (d div 1000000000)) + rnd (real (d mod 1000000000) / 1000000000))"

definition try_consume :: "(real \<Rightarrow> real) \<Rightarrow> nat \<Rightarrow> bucket \<Rightarrow> bucket \<times> bool" where
  "try_consume rnd now b =
    (let elapsed = as_secs_f64 rnd (now - bkt_last b);
         tokens = min (rnd (bkt_tokens b + rnd (elapsed * bkt_rate b))) (bkt_burst b) in
     if tokens \<ge> 1
     then (b\<lparr>bkt_tokens := rnd (tokens - 1), bkt_last := now\<rparr>, True)
     else (b\<lparr>bkt_tokens := tokens, bkt_last := now\<rparr>, False))"

section \<open>The endpoint\<close>

record 'ep ratelimit_endpoint =
  rl_inner :: 'ep
  rl_bucket :: bucket

definition ratelimit_new :: "'ep \<Rightarrow> ratelimit_config \<Rightarrow> nat \<Rightarrow> 'ep ratelimit_endpoint" where
  "ratelimit_new inner cfg now = \<lparr>rl_inner = inner, rl_bucket = bucket_new cfg now\<rparr>"

definition ratelimit_new_default :: "'ep \<Rightarrow> nat \<Rightarrow> 'ep ratelimit_endpoint" where
  "ratelimit_new_default inner now = ratelimit_new inner ratelimit_default_config now"

definition ratelimit_consume ::
  "(real \<Rightarrow> real) \<Rightarrow> nat \<Rightarrow> 'ep ratelimit_endpoint \<Rightarrow> 'ep ratelimit_endpoint \<times> unit rcp_result" where
  "ratelimit_consume rnd now e =
    (case try_consume rnd now (rl_bucket e) of
       (b, ok) \<Rightarrow> (e\<lparr>rl_bucket := b\<rparr>, if \<not> ok then Inl Busy else Inr ()))"

definition ratelimit_read ::
  "(real \<Rightarrow> real) \<Rightarrow> nat \<Rightarrow> 'ep endpoint_ops \<Rightarrow> 'ep ratelimit_endpoint \<Rightarrow> u16
    \<Rightarrow> 'ep ratelimit_endpoint \<times> bytes rcp_result" where
  "ratelimit_read rnd now ops e read_size =
    (case ratelimit_consume rnd now e of
       (e', Inl err) \<Rightarrow> (e', Inl err)
     | (e', Inr _) \<Rightarrow> through rl_inner (\<lambda>ep. e'\<lparr>rl_inner := ep\<rparr>) (\<lambda>ep. ep_read ops ep read_size) e')"

definition ratelimit_write ::
  "(real \<Rightarrow> real) \<Rightarrow> nat \<Rightarrow> 'ep endpoint_ops \<Rightarrow> 'ep ratelimit_endpoint \<Rightarrow> bytes
    \<Rightarrow> 'ep ratelimit_endpoint \<times> unit rcp_result" where
  "ratelimit_write rnd now ops e payload =
    (case ratelimit_consume rnd now e of
       (e', Inl err) \<Rightarrow> (e', Inl err)
     | (e', Inr _) \<Rightarrow> through rl_inner (\<lambda>ep. e'\<lparr>rl_inner := ep\<rparr>) (\<lambda>ep. ep_write ops ep payload) e')"

definition ratelimit_ops ::
  "(real \<Rightarrow> real) \<Rightarrow> nat \<Rightarrow> 'ep endpoint_ops \<Rightarrow> 'ep ratelimit_endpoint endpoint_ops" where
  "ratelimit_ops rnd now ops =
    \<lparr>ep_type_of = (\<lambda>e. ep_type_of ops (rl_inner e)), ep_read = ratelimit_read rnd now ops,
     ep_write = ratelimit_write rnd now ops\<rparr>"

section \<open>What the bucket guarantees\<close>

text \<open>
  A rounding is monotone on what is not negative and keeps zero; the configured burst is a value it
  keeps. This is enough for the range of the tokens.
\<close>

definition rounding :: "(real \<Rightarrow> real) \<Rightarrow> bool" where
  "rounding rnd \<longleftrightarrow> (\<forall>x y. 0 \<le> x \<longrightarrow> x \<le> y \<longrightarrow> rnd x \<le> rnd y) \<and> rnd 0 = 0"

definition bucket_ok :: "bucket \<Rightarrow> bool" where
  "bucket_ok b \<longleftrightarrow> 0 \<le> bkt_tokens b \<and> bkt_tokens b \<le> bkt_burst b \<and> 0 \<le> bkt_rate b"

lemma rounding_f64 [simp]: "rounding f64_round"
  by (simp add: rounding_def f64_round_mono)

lemma rounding_mono: "rounding rnd \<Longrightarrow> 0 \<le> x \<Longrightarrow> x \<le> y \<Longrightarrow> rnd x \<le> rnd y"
  by (simp add: rounding_def)

lemma rounding_nonneg: "rounding rnd \<Longrightarrow> 0 \<le> x \<Longrightarrow> 0 \<le> rnd x"
  by (metis rounding_def order_refl)

lemma as_secs_nonneg: "rounding rnd \<Longrightarrow> 0 \<le> as_secs_f64 rnd d"
  by (simp add: as_secs_f64_def rounding_nonneg)

lemma try_consume_fields:
  "try_consume rnd now b = (b', ok) \<Longrightarrow> bkt_last b' = now \<and> bkt_rate b' = bkt_rate b \<and> bkt_burst b' = bkt_burst b"
  by (auto simp: try_consume_def Let_def split: if_splits)

text \<open>The tokens after the refill, and what \<open>try_consume\<close> does with them.\<close>

definition refilled :: "(real \<Rightarrow> real) \<Rightarrow> nat \<Rightarrow> bucket \<Rightarrow> real" where
  "refilled rnd now b =
    min (rnd (bkt_tokens b + rnd (as_secs_f64 rnd (now - bkt_last b) * bkt_rate b))) (bkt_burst b)"

lemma try_consume_refilled:
  "try_consume rnd now b =
    (if refilled rnd now b \<ge> 1 then (b\<lparr>bkt_tokens := rnd (refilled rnd now b - 1), bkt_last := now\<rparr>, True)
     else (b\<lparr>bkt_tokens := refilled rnd now b, bkt_last := now\<rparr>, False))"
  by (simp add: try_consume_def refilled_def Let_def)

lemma refilled_range: "rounding rnd \<Longrightarrow> bucket_ok b \<Longrightarrow> 0 \<le> refilled rnd now b \<and> refilled rnd now b \<le> bkt_burst b"
  by (simp add: refilled_def bucket_ok_def rounding_nonneg as_secs_nonneg)

lemma try_consume_ok:
  assumes rnd: "rounding rnd" "rnd (bkt_burst b) = bkt_burst b" and b: "bucket_ok b"
    and t: "try_consume rnd now b = (b', ok)"
  shows "bucket_ok b'"
proof (cases "refilled rnd now b \<ge> 1")
  case True
  have "rnd (refilled rnd now b - 1) \<le> rnd (bkt_burst b)"
    using True refilled_range [OF rnd(1) b, of now] by (intro rounding_mono [OF rnd(1)]) simp_all
  with True show ?thesis
    using t b rnd(2) rounding_nonneg [OF rnd(1), of "refilled rnd now b - 1"]
    by (auto simp: try_consume_refilled bucket_ok_def)
next
  case False
  then show ?thesis using t b refilled_range [OF rnd(1) b, of now] by (auto simp: try_consume_refilled bucket_ok_def)
qed

text \<open>A run of calls at the given instants; the outcome lists the accepted ones as \<open>True\<close>.\<close>

fun consume_run :: "(real \<Rightarrow> real) \<Rightarrow> bucket \<Rightarrow> nat list \<Rightarrow> bucket \<times> bool list" where
  "consume_run rnd b [] = (b, [])"
| "consume_run rnd b (now # ts) =
    (case try_consume rnd now b of
       (b1, ok) \<Rightarrow> (case consume_run rnd b1 ts of (b2, oks) \<Rightarrow> (b2, ok # oks)))"

lemma consume_run_ok:
  assumes "rounding rnd" and "rnd (bkt_burst b) = bkt_burst b" and "bucket_ok b"
    and "consume_run rnd b ts = (b', oks)"
  shows "bucket_ok b' \<and> bkt_burst b' = bkt_burst b"
  using assms(2-)
proof (induction ts arbitrary: b oks)
  case (Cons now ts)
  then obtain b1 ok oks1 where t: "try_consume rnd now b = (b1, ok)"
    and r: "consume_run rnd b1 ts = (b', oks1)"
    by (auto split: prod.splits)
  then show ?case
    using Cons.IH [OF _ _ r] Cons.prems try_consume_ok [OF assms(1) _ _ t] try_consume_fields [OF t] by simp
qed simp

section \<open>The rate in \<open>f64\<close>\<close>

text \<open>
  Reading a duration rounds twice, the product with the rate once, and adding it to the tokens and
  taking one off once each. The last two can gain, in each call, what half a digit of the burst is
  worth; that is why the bound has a term for the number of calls.
\<close>

definition secs :: "nat \<Rightarrow> real" where
  "secs d = real d / 10 ^ 9"

definition f64_gain :: real where
  "f64_gain = 1 / 2 ^ 53"

lemma secs_split: "secs d = real (d div 1000000000) + real (d mod 1000000000) / 1000000000"
proof -
  have "real d = real (1000000000 * (d div 1000000000) + d mod 1000000000)"
    by (simp only: mult_div_mod_eq)
  also have "\<dots> = 1000000000 * real (d div 1000000000) + real (d mod 1000000000)"
    by (simp only: of_nat_add of_nat_mult of_nat_numeral)
  finally show ?thesis by (simp add: secs_def)
qed

lemma least_normal: "1 / 10 ^ 10 \<le> x \<Longrightarrow> 2 powr (- 1022) \<le> (x :: real)"
proof -
  assume "1 / 10 ^ 10 \<le> x"
  moreover have "2 powr (- 1022) \<le> (2 powr (- 34) :: real)" by simp
  moreover have "2 powr (- 34) = (1 / 2 ^ 34 :: real)" by (simp add: powr_minus_divide)
  ultimately show ?thesis by simp
qed

lemma f64_round_near:
  assumes "x = 0 \<or> 1 / 10 ^ 10 \<le> x"
  shows "(1 - f64_gain) * x \<le> f64_round x \<and> f64_round x \<le> (1 + f64_gain) * x"
proof (cases "x = 0")
  case False
  then have "\<bar>f64_round x - x\<bar> \<le> x / 2 ^ 53" using assms by (intro f64_round_relative least_normal) simp
  moreover have "f64_gain * x = x / 2 ^ 53" by (simp add: f64_gain_def)
  ultimately show ?thesis unfolding distrib_right left_diff_distrib by linarith
qed simp

lemma as_secs_near:
  "(1 - f64_gain)\<^sup>2 * secs d \<le> as_secs_f64 f64_round d \<and> as_secs_f64 f64_round d \<le> (1 + f64_gain)\<^sup>2 * secs d"
proof -
  define w f where "w = real (d div 1000000000)" and "f = real (d mod 1000000000) / 1000000000"
  have w: "w = 0 \<or> 1 \<le> w" and f: "f = 0 \<or> 1 / 1000000000 \<le> f" by (auto simp: w_def f_def)
  have nw: "(1 - f64_gain) * w \<le> f64_round w" "f64_round w \<le> (1 + f64_gain) * w"
    and nf: "(1 - f64_gain) * f \<le> f64_round f" "f64_round f \<le> (1 + f64_gain) * f"
    using f64_round_near [of w] f64_round_near [of f] w f by auto
  define s where "s = f64_round w + f64_round f"
  have sum: "(1 - f64_gain) * (w + f) \<le> s" "s \<le> (1 + f64_gain) * (w + f)"
    using nw nf by (simp_all add: s_def distrib_left)
  have "s = 0 \<or> 1 / 10 ^ 10 \<le> s"
  proof (cases "w + f = 0")
    case True
    moreover have "0 \<le> w" "0 \<le> f" by (simp_all add: w_def f_def)
    ultimately show ?thesis by (simp add: s_def add_nonneg_eq_0_iff)
  next
    case False
    then have "1 / 1000000000 \<le> w + f" using w f by auto
    moreover have "1 / 2 * (w + f) \<le> (1 - f64_gain) * (w + f)"
      using calculation by (intro mult_right_mono) (simp_all add: f64_gain_def)
    then have "1 / 2 * (w + f) \<le> s" using sum(1) by (rule order_trans)
    ultimately show ?thesis by simp
  qed
  from f64_round_near [OF this] have near: "(1 - f64_gain) * s \<le> f64_round s" "f64_round s \<le> (1 + f64_gain) * s" by simp_all
  have "(1 - f64_gain)\<^sup>2 * (w + f) \<le> (1 - f64_gain) * s" "(1 + f64_gain) * s \<le> (1 + f64_gain)\<^sup>2 * (w + f)"
    using mult_left_mono [OF sum(1), of "1 - f64_gain"] mult_left_mono [OF sum(2), of "1 + f64_gain"]
    by (simp_all add: power2_eq_square f64_gain_def mult.assoc)
  with near have "(1 - f64_gain)\<^sup>2 * (w + f) \<le> f64_round s" "f64_round s \<le> (1 + f64_gain)\<^sup>2 * (w + f)" by linarith+
  then show ?thesis by (simp add: as_secs_f64_def secs_split w_def f_def s_def)
qed

text \<open>Each accepted call is paid for: by the tokens at the start, by the time that went by, or by a gain.\<close>

lemma tiny_gain: "0 \<le> f64_tiny" "3 * f64_tiny \<le> f64_gain"
proof -
  have "f64_tiny \<le> 2 powr (- 60)" by (simp add: f64_tiny_def)
  also have "\<dots> = 1 / 2 ^ 60" by (simp add: powr_minus_divide)
  finally show "3 * f64_tiny \<le> f64_gain" by (simp add: f64_gain_def)
qed (simp add: f64_tiny_def)

lemma f64_error: "0 \<le> x \<Longrightarrow> f64_round x \<le> x + f64_gain * x + f64_tiny"
  using f64_round_error [of x] by (simp add: f64_gain_def abs_le_iff)

lemma refilled_near:
  assumes "bucket_ok b" and "f64_round (bkt_burst b) = bkt_burst b"
  shows "refilled f64_round now b
    \<le> bkt_tokens b + (1 + f64_gain) ^ 3 * (bkt_rate b * secs (now - bkt_last b)) + f64_gain * bkt_burst b + 2 * f64_tiny"
proof -
  define p where "p = as_secs_f64 f64_round (now - bkt_last b) * bkt_rate b"
  define x where "x = bkt_tokens b + f64_round p"
  have b: "0 \<le> bkt_tokens b" "0 \<le> bkt_rate b" "0 \<le> bkt_burst b" using assms(1) by (simp_all add: bucket_ok_def)
  have p0: "0 \<le> p" using b(2) by (simp add: p_def as_secs_nonneg)
  have "p \<le> (1 + f64_gain)\<^sup>2 * secs (now - bkt_last b) * bkt_rate b"
    unfolding p_def using b(2) as_secs_near by (intro mult_right_mono) simp_all
  then have "(1 + f64_gain) * p \<le> (1 + f64_gain) * ((1 + f64_gain)\<^sup>2 * secs (now - bkt_last b) * bkt_rate b)"
    by (intro mult_left_mono) (simp_all add: f64_gain_def)
  also have "\<dots> = (1 + f64_gain) ^ 3 * (bkt_rate b * secs (now - bkt_last b))"
    by (simp add: power3_eq_cube power2_eq_square)
  finally have p: "f64_round p \<le> (1 + f64_gain) ^ 3 * (bkt_rate b * secs (now - bkt_last b)) + f64_tiny"
    using f64_error [OF p0] by (simp add: distrib_right)
  have x0: "0 \<le> x" using b(1) p0 by (simp add: x_def f64_round_nonneg)
  have "refilled f64_round now b \<le> x + f64_gain * bkt_burst b + f64_tiny"
  proof (cases "x \<le> bkt_burst b")
    case True
    then have "f64_gain * x \<le> f64_gain * bkt_burst b" by (intro mult_left_mono) (simp_all add: f64_gain_def)
    with f64_error [OF x0] show ?thesis by (simp add: refilled_def x_def p_def)
  next
    case False
    moreover have "0 \<le> f64_gain * bkt_burst b" using b(3) by (simp add: f64_gain_def)
    moreover have "refilled f64_round now b \<le> bkt_burst b" by (simp add: refilled_def)
    ultimately show ?thesis using tiny_gain(1) by linarith
  qed
  with p show ?thesis by (simp add: x_def)
qed

lemma try_consume_pays:
  assumes b: "bucket_ok b" "f64_round (bkt_burst b) = bkt_burst b" and "1 \<le> bkt_burst b"
    and t: "try_consume f64_round now b = (b', ok)"
  shows "of_bool ok + bkt_tokens b'
    \<le> bkt_tokens b + (1 + f64_gain) ^ 3 * (bkt_rate b * secs (now - bkt_last b)) + 2 * f64_gain * bkt_burst b"
proof -
  define r where "r = refilled f64_round now b"
  have r: "0 \<le> r" "r \<le> bkt_burst b" using refilled_range [OF rounding_f64 b(1)] by (simp_all add: r_def)
  note near = refilled_near [OF b, of now, folded r_def]
  have big: "f64_gain \<le> f64_gain * bkt_burst b" using assms(3) by (simp add: f64_gain_def)
  show ?thesis
  proof (cases "1 \<le> r")
    case True
    have "f64_gain * (r - 1) \<le> f64_gain * (bkt_burst b - 1)"
      using r(2) by (intro mult_left_mono) (simp_all add: f64_gain_def)
    then have "f64_round (r - 1) \<le> r - 1 + f64_gain * bkt_burst b - f64_gain + f64_tiny"
      using f64_error [of "r - 1"] True by (simp add: right_diff_distrib)
    moreover have "ok" "bkt_tokens b' = f64_round (r - 1)" using t True by (auto simp: try_consume_refilled r_def)
    ultimately show ?thesis using near tiny_gain by simp
  next
    case False
    then have "\<not> ok" "bkt_tokens b' = r" using t by (auto simp: try_consume_refilled r_def)
    then show ?thesis using near tiny_gain big by simp
  qed
qed

lemma consume_run_pays:
  assumes "bucket_ok b" and "f64_round (bkt_burst b) = bkt_burst b" and "1 \<le> bkt_burst b"
    and "consume_run f64_round b ts = (b', oks)" and "sorted (bkt_last b # ts)"
  shows "real (count_list oks True) + bkt_tokens b'
    \<le> bkt_tokens b + (1 + f64_gain) ^ 3 * (bkt_rate b * secs (last (bkt_last b # ts) - bkt_last b))
      + real (length ts) * (2 * f64_gain * bkt_burst b)"
  using assms
proof (induction ts arbitrary: b oks)
  case (Cons now ts)
  then obtain b1 ok oks1 where t: "try_consume f64_round now b = (b1, ok)"
    and r: "consume_run f64_round b1 ts = (b', oks1)" and oks: "oks = ok # oks1"
    by (auto split: prod.splits)
  note f = try_consume_fields [OF t]
  have late: "bkt_last b \<le> now" "now \<le> last (now # ts)" using Cons.prems(5) by (cases ts; auto simp: sorted_wrt_append)+
  have "bucket_ok b1" using try_consume_ok [OF rounding_f64 Cons.prems(2, 1) t] .
  then have "real (count_list oks1 True) + bkt_tokens b'
      \<le> bkt_tokens b1 + (1 + f64_gain) ^ 3 * (bkt_rate b * secs (last (now # ts) - now))
        + real (length ts) * (2 * f64_gain * bkt_burst b)"
    using Cons.IH [OF _ _ _ r] Cons.prems(2, 3, 5) f by simp
  moreover note try_consume_pays [OF Cons.prems(1-3) t]
  moreover have "secs (last (now # ts) - now) + secs (now - bkt_last b) = secs (last (now # ts) - bkt_last b)"
    using late by (simp add: secs_def of_nat_diff field_simps del: last.simps)
  then have "(1 + f64_gain) ^ 3 * (bkt_rate b * secs (last (now # ts) - now))
      + (1 + f64_gain) ^ 3 * (bkt_rate b * secs (now - bkt_last b))
      = (1 + f64_gain) ^ 3 * (bkt_rate b * secs (last (bkt_last b # now # ts) - bkt_last b))"
    by (simp flip: distrib_left)
  ultimately show ?case by (cases ok) (simp_all add: oks distrib_right del: last.simps)
qed (simp add: secs_def)

text \<open>A bucket for less than one call accepts none.\<close>

lemma small_bucket:
  assumes "bkt_burst b < 1"
  shows "consume_run rnd b ts = (b', oks) \<Longrightarrow> count_list oks True = 0"
  using assms
proof (induction ts arbitrary: b oks)
  case (Cons now ts)
  then obtain b1 ok oks1 where t: "try_consume rnd now b = (b1, ok)"
    and r: "consume_run rnd b1 ts = (b', oks1)" and oks: "oks = ok # oks1"
    by (auto split: prod.splits)
  have "\<not> ok" using t Cons.prems(2) by (auto simp: try_consume_refilled refilled_def)
  then show ?case using Cons.IH [OF r] Cons.prems(2) try_consume_fields [OF t] by (simp add: oks)
qed simp

text \<open>A call after a long enough wait goes through.\<close>

lemma try_consume_accepts:
  assumes "bucket_ok b" and "1 \<le> bkt_burst b" and "1 \<le> (1 - f64_gain)\<^sup>2 * (bkt_rate b * secs (now - bkt_last b))"
  shows "snd (try_consume f64_round now b)"
proof -
  define p where "p = as_secs_f64 f64_round (now - bkt_last b) * bkt_rate b"
  have b: "0 \<le> bkt_tokens b" "0 \<le> bkt_rate b" using assms(1) by (simp_all add: bucket_ok_def)
  have "(1 - f64_gain)\<^sup>2 * secs (now - bkt_last b) * bkt_rate b \<le> p"
    unfolding p_def using b(2) as_secs_near by (intro mult_right_mono) simp_all
  then have "1 \<le> p" using assms(3) by (simp add: mult.commute mult.left_commute)
  then have "1 \<le> f64_round p" using f64_round_mono [of 1 p] by simp
  then have "1 \<le> f64_round (bkt_tokens b + f64_round p)"
    using f64_round_mono [of 1 "bkt_tokens b + f64_round p"] b(1) by simp
  then show ?thesis using assms(2) by (simp add: try_consume_refilled refilled_def p_def)
qed

section \<open>What the endpoint does with it\<close>

lemma ratelimit_calls:
  assumes "try_consume rnd now (rl_bucket e) = (b, ok)"
  shows "ep_read (ratelimit_ops rnd now ops) e n =
      (if ok then (case ep_read ops (rl_inner e) n of (ep, r) \<Rightarrow> (\<lparr>rl_inner = ep, rl_bucket = b\<rparr>, r))
       else (e\<lparr>rl_bucket := b\<rparr>, Inl Busy))"
    and "ep_write (ratelimit_ops rnd now ops) e p =
      (if ok then (case ep_write ops (rl_inner e) p of (ep, r) \<Rightarrow> (\<lparr>rl_inner = ep, rl_bucket = b\<rparr>, r))
       else (e\<lparr>rl_bucket := b\<rparr>, Inl Busy))"
  using assms
  by (auto simp: ratelimit_ops_def ratelimit_read_def ratelimit_write_def ratelimit_consume_def through_def
      split: prod.splits)

section \<open>Properties\<close>

text \<open>C35: the token bucket keeps its rate in f64 arithmetic, every operation rounded to the nearest value. However many calls come at whatever non-decreasing instants, the accepted ones number at most the tokens at hand, plus the rate times the elapsed seconds up to three relative errors of 2^-53, plus 2^-52 of the burst for each call made; the tokens always stay between zero and the burst; and a later call is accepted when the bucket holds a call at all and the rate times the time since the last call, less two relative errors, is at least one.\<close>

theorem bucket_keeps_rate:
  assumes "bucket_ok b" and "f64_round (bkt_burst b) = bkt_burst b"
    and "consume_run f64_round b ts = (b', oks)" and "sorted (bkt_last b # ts)"
  shows "real (count_list oks True)
      \<le> bkt_tokens b + (1 + 1 / 2 ^ 53) ^ 3 * (bkt_rate b * ((real (last (bkt_last b # ts)) - real (bkt_last b)) / 10 ^ 9))
        + real (length ts) * (bkt_burst b / 2 ^ 52)
    \<and> 0 \<le> bkt_tokens b' \<and> bkt_tokens b' \<le> bkt_burst b
    \<and> (1 \<le> bkt_burst b \<longrightarrow> 1 \<le> (1 - 1 / 2 ^ 53)\<^sup>2 * (bkt_rate b' * (real (now - bkt_last b') / 10 ^ 9))
        \<longrightarrow> snd (try_consume f64_round now b'))"
proof -
  note ok = consume_run_ok [OF rounding_f64 assms(2, 1, 3)]
  have "real (count_list oks True) \<le> bkt_tokens b
      + (1 + f64_gain) ^ 3 * (bkt_rate b * secs (last (bkt_last b # ts) - bkt_last b)) + real (length ts) * (2 * f64_gain * bkt_burst b)"
  proof (cases "1 \<le> bkt_burst b")
    case True
    from consume_run_pays [OF assms(1, 2) True assms(3, 4)] ok show ?thesis by (simp add: bucket_ok_def)
  next
    case False
    then have "count_list oks True = 0" using small_bucket [OF _ assms(3)] by simp
    then show ?thesis using assms(1) by (simp add: bucket_ok_def f64_gain_def secs_def)
  qed
  moreover have "bkt_last b \<le> last (bkt_last b # ts)" using assms(4) by auto
  ultimately have "real (count_list oks True) \<le> bkt_tokens b
      + (1 + 1 / 2 ^ 53) ^ 3 * (bkt_rate b * ((real (last (bkt_last b # ts)) - real (bkt_last b)) / 10 ^ 9))
      + real (length ts) * (bkt_burst b / 2 ^ 52)"
    by (simp add: f64_gain_def secs_def of_nat_diff del: last.simps)
  moreover have "snd (try_consume f64_round now b')"
    if "1 \<le> bkt_burst b" "1 \<le> (1 - 1 / 2 ^ 53)\<^sup>2 * (bkt_rate b' * (real (now - bkt_last b') / 10 ^ 9))"
    by (rule try_consume_accepts) (use that ok in \<open>simp_all only: f64_gain_def secs_def\<close>)
  moreover have "0 \<le> bkt_tokens b'" "bkt_tokens b' \<le> bkt_burst b" using ok by (simp_all add: bucket_ok_def)
  ultimately show ?thesis by blast
qed

lemma bucket_keeps_rate_witness:
  "real (count_list (snd (consume_run f64_round (bucket_new \<lparr>cfg_rate = 6004799503160661 / 2 ^ 54, cfg_burst = 1\<rparr> 0) [0, 3000000000])) True)
    \<le> 1 + (1 + 1 / 2 ^ 53) ^ 3 * (6004799503160661 / 2 ^ 54 * ((3000000000 - 0) / 10 ^ 9)) + 2 * (1 / 2 ^ 52)"
proof -
  obtain b' oks where r: "consume_run f64_round (bucket_new \<lparr>cfg_rate = 6004799503160661 / 2 ^ 54, cfg_burst = 1\<rparr> 0) [0, 3000000000] = (b', oks)"
    by fastforce
  have "bucket_ok (bucket_new \<lparr>cfg_rate = 6004799503160661 / 2 ^ 54, cfg_burst = 1\<rparr> 0)" by (simp add: bucket_ok_def bucket_new_def)
  from bucket_keeps_rate [OF this _ r] show ?thesis unfolding r snd_conv by (simp add: bucket_new_def)
qed


end
