(* ===== verification/Rcp_Udp.thy ===== *)
theory Rcp_Udp
  imports Rcp_Mock_Wire Rcp_Discovery
begin

text \<open>
  The transports: UDP with the framing of Annex J (\<open>src/udp.rs\<close>), its client \<open>UdpTransport\<close> and its
  server \<open>UdpRcServer\<close> with discovery in front of the RC Server, and raw Ethernet (\<open>src/l2.rs\<close>).
  Sockets are records of operations on a state of their own; addresses of peers are a type variable.
\<close>

section \<open>Sockets\<close>

record ('s, 'addr) udp_socket =
  sock_send_to :: "'s \<Rightarrow> bytes \<Rightarrow> 'addr \<Rightarrow> 's \<times> nat rcp_result"
  sock_recv_from :: "'s \<Rightarrow> duration option \<Rightarrow> 's \<times> (bytes \<times> 'addr) rcp_result"

definition ANNEX_J_CONTROL_PORT :: u16 where [rcp_consts]: "ANNEX_J_CONTROL_PORT = 17221"
definition ANNEX_J_CONTINUOUS_PORT :: u16 where [rcp_consts]: "ANNEX_J_CONTINUOUS_PORT = 17220"

definition encode_annex_j_udp_payload :: "u32 \<Rightarrow> bytes \<Rightarrow> bytes" where
  "encode_annex_j_udp_payload seq avtpdu = to_be_bytes seq @ avtpdu"

definition decode_annex_j_udp_payload :: "bytes \<Rightarrow> (u32 \<times> bytes) rcp_result" where
  "decode_annex_j_udp_payload buf =
    (if length buf < 4 then Inl ShortFrame else Inr (from_be_bytes (take 4 buf), drop 4 buf))"

text \<open>
  The socket of the standard library is a parameter: its three calls with the texts of their errors.
  A receive that would block or ran into its time-out is told apart from other errors.
\<close>

datatype recv_error = WouldBlockOrTimedOut | RecvError string

record ('os, 'addr) os_socket =
  os_send_to :: "'os \<Rightarrow> bytes \<Rightarrow> 'addr \<Rightarrow> 'os \<times> (string + nat)"
  os_set_read_timeout :: "'os \<Rightarrow> duration option \<Rightarrow> 'os \<times> (string + unit)"
  os_recv_from :: "'os \<Rightarrow> 'os \<times> (recv_error + bytes \<times> 'addr)"
  os_show_addr :: "'addr \<Rightarrow> string"

record 'os std_udp_socket =
  std_socket :: 'os
  std_send_seq :: u32

definition std_send_to ::
  "('os, 'addr) os_socket \<Rightarrow> 'os std_udp_socket \<Rightarrow> bytes \<Rightarrow> 'addr \<Rightarrow> 'os std_udp_socket \<times> nat rcp_result" where
  "std_send_to os s buf addr =
    (let seq = std_send_seq s;
         framed = encode_annex_j_udp_payload seq buf in
     case os_send_to os (std_socket s) framed addr of
       (o', r) \<Rightarrow>
         (s\<lparr>std_socket := o', std_send_seq := seq + 1\<rparr>,
          case r of
            Inl e \<Rightarrow> Inl (Other (''udp: send_to '' @ os_show_addr os addr @ '': '' @ e))
          | Inr sent \<Rightarrow> Inr (sent - 4)))"

definition std_recv_from ::
  "('os, 'addr) os_socket \<Rightarrow> 'os std_udp_socket \<Rightarrow> duration option
    \<Rightarrow> 'os std_udp_socket \<times> (bytes \<times> 'addr) rcp_result" where
  "std_recv_from os s timeout =
    (case os_set_read_timeout os (std_socket s) timeout of
       (o1, Inl e) \<Rightarrow> (s\<lparr>std_socket := o1\<rparr>, Inl (Other (''udp: set_read_timeout: '' @ e)))
     | (o1, Inr _) \<Rightarrow>
         (case os_recv_from os o1 of
            (o2, r) \<Rightarrow>
              (s\<lparr>std_socket := o2\<rparr>,
               case r of
                 Inl WouldBlockOrTimedOut \<Rightarrow> Inl Timeout
               | Inl (RecvError e) \<Rightarrow> Inl (Other (''udp: recv_from: '' @ e))
               | Inr (buf, addr) \<Rightarrow>
                   and_then (decode_annex_j_udp_payload buf) (\<lambda>(_, avtpdu). Inr (avtpdu, addr)))))"

definition std_udp_socket_ops :: "('os, 'addr) os_socket \<Rightarrow> ('os std_udp_socket, 'addr) udp_socket" where
  "std_udp_socket_ops os = \<lparr>sock_send_to = std_send_to os, sock_recv_from = std_recv_from os\<rparr>"

text \<open>Binding and asking for the bound address are calls of the operating system as well.\<close>

definition std_bind :: "('addr \<Rightarrow> string + 'os) \<Rightarrow> ('addr \<Rightarrow> string) \<Rightarrow> 'addr \<Rightarrow> 'os std_udp_socket rcp_result" where
  "std_bind os_bind show_addr local_addr =
    (case os_bind local_addr of
       Inl e \<Rightarrow> Inl (Other (''udp: bind '' @ show_addr local_addr @ '': '' @ e))
     | Inr socket \<Rightarrow> Inr \<lparr>std_socket = socket, std_send_seq = 0\<rparr>)"

definition std_new_default_port ::
  "('addr \<Rightarrow> string + 'os) \<Rightarrow> ('addr \<Rightarrow> string) \<Rightarrow> ('ip \<Rightarrow> u16 \<Rightarrow> 'addr) \<Rightarrow> 'ip \<Rightarrow> 'os std_udp_socket rcp_result" where
  "std_new_default_port os_bind show_addr socket_addr ip =
    std_bind os_bind show_addr (socket_addr ip ANNEX_J_CONTROL_PORT)"

definition std_local_addr :: "('os \<Rightarrow> string + 'addr) \<Rightarrow> 'os std_udp_socket \<Rightarrow> 'addr rcp_result" where
  "std_local_addr os_local_addr s =
    (case os_local_addr (std_socket s) of
       Inl e \<Rightarrow> Inl (Other (''udp: local_addr: '' @ e))
     | Inr a \<Rightarrow> Inr a)"

section \<open>The client\<close>

record ('s, 'addr) udp_transport =
  udp_local_stream :: stream_id
  udp_socket_of :: 's
  udp_remote :: 'addr

text \<open>One exchange: send a frame, wait for one, and hand its payload on.\<close>

definition udp_transport_new :: "stream_id \<Rightarrow> 's \<Rightarrow> 'addr \<Rightarrow> ('s, 'addr) udp_transport" where
  "udp_transport_new sid s remote = \<lparr>udp_local_stream = sid, udp_socket_of = s, udp_remote = remote\<rparr>"

definition udp_transport_close :: "('s, 'addr) udp_transport \<Rightarrow> unit rcp_result" where
  "udp_transport_close t = Inr ()"

definition udp_exchange ::
  "('s, 'addr) udp_socket \<Rightarrow> ('s, 'addr) udp_transport \<Rightarrow> bytes rcp_result \<Rightarrow> u8 \<Rightarrow> duration option
    \<Rightarrow> (bytes \<Rightarrow> 'm rcp_result) \<Rightarrow> ('s, 'addr) udp_transport \<times> 'm rcp_result" where
  "udp_exchange ops t encoded sequence_num timeout finish =
    (if timeout = Some 0 then (t, Inl Timeout)
     else case and_then encoded (encode_ntscf_frame (udp_local_stream t) sequence_num) of
       Inl e \<Rightarrow> (t, Inl e)
     | Inr frame \<Rightarrow>
         (case sock_send_to ops (udp_socket_of t) frame (udp_remote t) of
            (s1, Inl e) \<Rightarrow> (t\<lparr>udp_socket_of := s1\<rparr>, Inl e)
          | (s1, Inr _) \<Rightarrow>
              (case sock_recv_from ops s1 timeout of
                 (s2, Inl e) \<Rightarrow> (t\<lparr>udp_socket_of := s2\<rparr>, Inl e)
               | (s2, Inr (resp_frame, _)) \<Rightarrow>
                   (t\<lparr>udp_socket_of := s2\<rparr>,
                    and_then (decode_ntscf_frame resp_frame) (\<lambda>(_, resp_payload). finish resp_payload)))))"

definition udp_send_acf_abb ::
  "('s, 'addr) udp_socket \<Rightarrow> ('s, 'addr) udp_transport \<Rightarrow> acf_abb_message \<Rightarrow> u8 \<Rightarrow> duration option
    \<Rightarrow> ('s, 'addr) udp_transport \<times> acf_abb_message rcp_result" where
  "udp_send_acf_abb ops t msg sequence_num timeout =
    udp_exchange ops t (encode_acf_abb msg) sequence_num timeout (\<lambda>resp_payload.
      and_then (decode_acf_abb resp_payload) (\<lambda>resp.
      and_then (verify_echo_back (abb_info msg) (abb_info resp)) (\<lambda>_. Inr resp)))"

definition udp_send_acf_gbb ::
  "('s, 'addr) udp_socket \<Rightarrow> ('s, 'addr) udp_transport \<Rightarrow> acf_gbb_message \<Rightarrow> u8 \<Rightarrow> duration option
    \<Rightarrow> ('s, 'addr) udp_transport \<times> acf_gbb_message rcp_result" where
  "udp_send_acf_gbb ops t msg sequence_num timeout =
    udp_exchange ops t (encode_acf_gbb msg) sequence_num timeout (\<lambda>resp_payload.
      and_then (decode_acf_gbb resp_payload) (\<lambda>resp.
      and_then (verify_echo_back (gbb_info msg) (gbb_info resp)) (\<lambda>_. Inr resp)))"

section \<open>The server\<close>

datatype resolved_endpoint = ResolvedEp0 | ResolvedDevice endpoint_id

definition resolve_endpoint :: "endpoint_table \<Rightarrow> stream_id \<Rightarrow> u16 \<Rightarrow> resolved_endpoint rcp_result" where
  "resolve_endpoint endpoints sid bus =
    (case route_byte_bus_id bus of
       RouteEp0 \<Rightarrow> Inr ResolvedEp0
     | RouteDeviceEndpoint \<Rightarrow> ok_or (map_option ResolvedDevice (lookup_binding endpoints sid bus)) EpNotFound)"

record 'ep udp_rc_server =
  urs_local_stream :: stream_id
  urs_server :: rc_server
  urs_store :: "'ep ep_store"
  urs_claim :: "discovery_claim option"

definition udp_rc_server_new :: "stream_id \<Rightarrow> rc_server \<Rightarrow> 'ep ep_store \<Rightarrow> 'ep udp_rc_server" where
  "udp_rc_server_new sid srv store =
    \<lparr>urs_local_stream = sid, urs_server = srv, urs_store = store, urs_claim = None\<rparr>"

definition udp_dispatch_request ::
  "'ep endpoint_ops \<Rightarrow> 'ep udp_rc_server \<Rightarrow> stream_id \<Rightarrow> acf_abb_message \<Rightarrow> instant \<Rightarrow> duration
    \<Rightarrow> 'ep udp_rc_server \<times> acf_abb_message rcp_result" where
  "udp_dispatch_request ops u requester request now timeout =
    (if is_discovery_request request
     then (u, and_then (check_discovery_access (urs_claim u) requester DiscoveryRead now timeout) (\<lambda>_.
               build_discovery_response (abb_info request) (srv_state (urs_server u)) (srv_general (urs_server u))))
     else if is_discovery_configure_request request
     then (case and_then (check_discovery_access (urs_claim u) requester DiscoveryConfigure now timeout) (\<lambda>_.
                 try_claim_discovery_stream (urs_claim u) requester now timeout) of
             Inl e \<Rightarrow> (u, Inl e)
           | Inr claim \<Rightarrow>
               (u\<lparr>urs_claim := Some claim\<rparr>,
                Inr \<lparr>abb_info = build_response_info (abb_info request) byte_message_info_default, abb_payload = []\<rparr>))
     else if is_discovery_broadcast_stream_id requester then (u, Inl InvalidParameter)
     else case handle_abb ops (urs_server u, urs_store u) requester request of
            ((srv, store), r) \<Rightarrow> (u\<lparr>urs_server := srv, urs_store := store\<rparr>, r))"

fun udp_dispatch_requests ::
  "'ep endpoint_ops \<Rightarrow> 'ep udp_rc_server \<Rightarrow> stream_id \<Rightarrow> instant \<Rightarrow> duration \<Rightarrow> acf_abb_message list \<Rightarrow> bytes
    \<Rightarrow> 'ep udp_rc_server \<times> bytes rcp_result" where
  "udp_dispatch_requests ops u requester now timeout [] response_bytes = (u, Inr response_bytes)"
| "udp_dispatch_requests ops u requester now timeout (request # requests) response_bytes =
    (case udp_dispatch_request ops u requester request now timeout of
       (u', result) \<Rightarrow>
         (case (case result of
                  Inr response \<Rightarrow> Inr response
                | Inl e \<Rightarrow> (case build_error_response (abb_info request) e of
                              Some error_response \<Rightarrow> Inr error_response
                            | None \<Rightarrow> Inl e)) of
            Inl e \<Rightarrow> (u', Inl e)
          | Inr response \<Rightarrow>
              (case encode_acf_abb response of
                 Inl e \<Rightarrow> (u', Inl e)
               | Inr encoded \<Rightarrow>
                   udp_dispatch_requests ops u' requester now timeout requests (response_bytes @ encoded))))"

text \<open>One datagram: received, decoded, every request dispatched, one datagram sent back.\<close>

definition udp_answer ::
  "'ep endpoint_ops \<Rightarrow> 'ep udp_rc_server \<Rightarrow> bytes \<Rightarrow> u8 \<Rightarrow> instant \<Rightarrow> duration
    \<Rightarrow> 'ep udp_rc_server \<times> bytes rcp_result" where
  "udp_answer ops u frame sequence_num now timeout =
    (case decode_ntscf_frame frame of
       Inl e \<Rightarrow> (u, Inl e)
     | Inr (hdr, acf_bytes) \<Rightarrow>
         (case decode_acf_abb_messages acf_bytes of
            Inl e \<Rightarrow> (u, Inl e)
          | Inr requests \<Rightarrow>
              (case udp_dispatch_requests ops u (stream_id_from_u64 (ntscf_stream_id hdr)) now timeout requests [] of
                 (u', r) \<Rightarrow> (u', and_then r (encode_ntscf_frame (urs_local_stream u') sequence_num)))))"

definition serve_one ::
  "('s, 'addr) udp_socket \<Rightarrow> 'ep endpoint_ops \<Rightarrow> 's \<times> 'ep udp_rc_server \<Rightarrow> duration option \<Rightarrow> u8 \<Rightarrow> instant
    \<Rightarrow> duration \<Rightarrow> ('s \<times> 'ep udp_rc_server) \<times> unit rcp_result" where
  "serve_one sops ops st recv_timeout sequence_num now timeout =
    (case st of (s, u) \<Rightarrow>
     case sock_recv_from sops s recv_timeout of
       (s1, Inl e) \<Rightarrow> ((s1, u), Inl e)
     | (s1, Inr (frame, peer)) \<Rightarrow>
         (case udp_answer ops u frame sequence_num now timeout of
            (u', Inl e) \<Rightarrow> ((s1, u'), Inl e)
          | (u', Inr response_frame) \<Rightarrow>
              (case sock_send_to sops s1 response_frame peer of
                 (s2, r) \<Rightarrow> ((s2, u'), and_then r (\<lambda>_. Inr ())))))"

section \<open>Ethernet\<close>

definition ETHERTYPE_AVTP :: u16 where [rcp_consts]: "ETHERTYPE_AVTP = 0x22F0"
definition ETHERNET_HEADER_LEN :: nat where [rcp_consts]: "ETHERNET_HEADER_LEN = 14"

fun mac_bytes :: "mac_addr \<Rightarrow> bytes" where
  "mac_bytes (m0, m1, m2, m3, m4, m5) = [m0, m1, m2, m3, m4, m5]"

definition mac_at :: "nat \<Rightarrow> bytes \<Rightarrow> mac_addr" where
  "mac_at k b = (b ! k, b ! (k + 1), b ! (k + 2), b ! (k + 3), b ! (k + 4), b ! (k + 5))"

text \<open>The format specification \<open>{:04x}\<close> of the error message.\<close>

definition hex04_lower :: "u16 \<Rightarrow> string" where
  "hex04_lower w = map (\<lambda>k. ''0123456789abcdef'' ! (unat w div 16 ^ k mod 16)) [3, 2, 1, 0]"

definition encode_ethernet_frame :: "mac_addr \<Rightarrow> mac_addr \<Rightarrow> bytes \<Rightarrow> bytes" where
  "encode_ethernet_frame dest src avtpdu =
    mac_bytes dest @ mac_bytes src @ to_be_bytes ETHERTYPE_AVTP @ avtpdu"

definition decode_ethernet_frame :: "bytes \<Rightarrow> (mac_addr \<times> mac_addr \<times> bytes) rcp_result" where
  "decode_ethernet_frame frame =
    (if length frame < ETHERNET_HEADER_LEN then Inl ShortFrame
     else let ethertype = from_be_bytes [frame ! 12, frame ! 13] in
       if ethertype \<noteq> ETHERTYPE_AVTP
       then Inl (Other (''l2: unexpected EtherType 0x'' @ hex04_lower ethertype @ '', expected 0x''
                  @ hex04_lower ETHERTYPE_AVTP))
       else Inr (mac_at 0 frame, mac_at 6 frame, drop ETHERNET_HEADER_LEN frame))"

record 's l2_socket =
  l2_send :: "'s \<Rightarrow> bytes \<Rightarrow> 's \<times> nat rcp_result"
  l2_recv :: "'s \<Rightarrow> duration option \<Rightarrow> 's \<times> bytes rcp_result"

record 's l2_transport =
  l2_local_stream :: stream_id
  l2_socket_of :: 's
  l2_dest_mac :: mac_addr
  l2_src_mac :: mac_addr

definition l2_exchange ::
  "'s l2_socket \<Rightarrow> 's l2_transport \<Rightarrow> bytes rcp_result \<Rightarrow> u8 \<Rightarrow> duration option
    \<Rightarrow> (bytes \<Rightarrow> 'm rcp_result) \<Rightarrow> 's l2_transport \<times> 'm rcp_result" where
  "l2_exchange ops t encoded sequence_num timeout finish =
    (if timeout = Some 0 then (t, Inl Timeout)
     else case and_then encoded (encode_ntscf_frame (l2_local_stream t) sequence_num) of
       Inl e \<Rightarrow> (t, Inl e)
     | Inr ntscf \<Rightarrow>
         (case l2_send ops (l2_socket_of t) (encode_ethernet_frame (l2_dest_mac t) (l2_src_mac t) ntscf) of
            (s1, Inl e) \<Rightarrow> (t\<lparr>l2_socket_of := s1\<rparr>, Inl e)
          | (s1, Inr _) \<Rightarrow>
              (case l2_recv ops s1 timeout of
                 (s2, Inl e) \<Rightarrow> (t\<lparr>l2_socket_of := s2\<rparr>, Inl e)
               | (s2, Inr resp_frame) \<Rightarrow>
                   (t\<lparr>l2_socket_of := s2\<rparr>,
                    and_then (decode_ethernet_frame resp_frame) (\<lambda>(_, _, resp_ntscf).
                    and_then (decode_ntscf_frame resp_ntscf) (\<lambda>(_, resp_payload). finish resp_payload))))))"

definition l2_send_acf_abb ::
  "'s l2_socket \<Rightarrow> 's l2_transport \<Rightarrow> acf_abb_message \<Rightarrow> u8 \<Rightarrow> duration option
    \<Rightarrow> 's l2_transport \<times> acf_abb_message rcp_result" where
  "l2_send_acf_abb ops t msg sequence_num timeout =
    l2_exchange ops t (encode_acf_abb msg) sequence_num timeout (\<lambda>resp_payload.
      and_then (decode_acf_abb resp_payload) (\<lambda>resp.
      and_then (verify_echo_back (abb_info msg) (abb_info resp)) (\<lambda>_. Inr resp)))"

definition l2_send_acf_gbb ::
  "'s l2_socket \<Rightarrow> 's l2_transport \<Rightarrow> acf_gbb_message \<Rightarrow> u8 \<Rightarrow> duration option
    \<Rightarrow> 's l2_transport \<times> acf_gbb_message rcp_result" where
  "l2_send_acf_gbb ops t msg sequence_num timeout =
    l2_exchange ops t (encode_acf_gbb msg) sequence_num timeout (\<lambda>resp_payload.
      and_then (decode_acf_gbb resp_payload) (\<lambda>resp.
      and_then (verify_echo_back (gbb_info msg) (gbb_info resp)) (\<lambda>_. Inr resp)))"

end
