(* ===== verification/Rcp_Udp_Facts.thy ===== *)
theory Rcp_Udp_Facts
  imports Rcp_Udp
begin

text \<open>
  What the transports guarantee: their framings are exact, what one standard socket sends another
  receives, a request that a client sends to \<open>UdpRcServer\<close> over a link is answered as a local call
  of \<open>handle_abb\<close> would be, and what the discovery requests in front of it catch.
\<close>

section \<open>Framings\<close>

lemma annex_j_exact:
  "decode_annex_j_udp_payload b = Inr x \<longleftrightarrow> b = (case x of (seq, p) \<Rightarrow> encode_annex_j_udp_payload seq p) \<and> True"
proof
  assume "decode_annex_j_udp_payload b = Inr x"
  then have l: "4 \<le> length b" and x: "x = (from_be_bytes (take 4 b), drop 4 b)"
    by (auto simp: decode_annex_j_udp_payload_def split: if_splits)
  have "to_be_bytes (from_be_bytes (take 4 b) :: u32) = take 4 b"
    using l by (intro to_from_be_bytes) simp
  then show "b = (case x of (seq, p) \<Rightarrow> encode_annex_j_udp_payload seq p) \<and> True"
    by (simp add: x encode_annex_j_udp_payload_def)
qed (auto simp: decode_annex_j_udp_payload_def encode_annex_j_udp_payload_def split: prod.splits)

interpretation annex_j: frame_codec "\<lambda>(seq, p). encode_annex_j_udp_payload seq p" decode_annex_j_udp_payload "\<lambda>_. True"
  by unfold_locales (rule annex_j_exact)

lemma nth_mac_bytes:
  "mac_bytes m = [a, b, c, d, e, f] \<longleftrightarrow> m = (a, b, c, d, e, f)"
  by (cases m) auto

lemma take_6_list: "6 \<le> length b \<Longrightarrow> take 6 b = [b ! 0, b ! 1, b ! 2, b ! 3, b ! 4, b ! 5]"
  by (auto simp: list_eq_iff_nth_eq less_Suc_eq numeral_eq_Suc)

lemma ethernet_octets:
  assumes "14 \<le> length b"
  shows "b = mac_bytes (mac_at 0 b) @ mac_bytes (mac_at 6 b) @ [b ! 12, b ! 13] @ drop 14 b"
proof -
  have "b = take 6 b @ take 6 (drop 6 b) @ take 2 (drop 12 b) @ drop 14 b"
    using append_take_drop_id [of 6 b] append_take_drop_id [of 6 "drop 6 b"]
      append_take_drop_id [of 2 "drop 12 b"] by simp
  moreover have "take 2 (drop 12 b) = [b ! 12, b ! 13]"
    using assms by (auto simp: list_eq_iff_nth_eq less_Suc_eq numeral_eq_Suc)
  ultimately show ?thesis
    using assms by (simp add: mac_at_def take_6_list numeral_2_eq_2)
qed

lemma ethertype_bytes: "from_be_bytes [a, b] = (w :: u16) \<longleftrightarrow> [a, b] = to_be_bytes w"
proof -
  have "to_be_bytes (from_be_bytes [a, b] :: u16) = [a, b]" by (rule to_from_be_bytes) simp
  then show ?thesis by (metis from_to_be_bytes(2))
qed

lemma ethernet_exact:
  "decode_ethernet_frame b = Inr x \<longleftrightarrow> b = (case x of (dest, src, p) \<Rightarrow> encode_ethernet_frame dest src p) \<and> True"
proof
  assume "decode_ethernet_frame b = Inr x"
  then have l: "14 \<le> length b" and t: "[b ! 12, b ! 13] = to_be_bytes ETHERTYPE_AVTP"
    and x: "x = (mac_at 0 b, mac_at 6 b, drop 14 b)"
    by (auto simp: decode_ethernet_frame_def ETHERNET_HEADER_LEN_def Let_def ethertype_bytes split: if_splits)
  show "b = (case x of (dest, src, p) \<Rightarrow> encode_ethernet_frame dest src p) \<and> True"
    using ethernet_octets [OF l] by (simp add: x t encode_ethernet_frame_def)
next
  assume "b = (case x of (dest, src, p) \<Rightarrow> encode_ethernet_frame dest src p) \<and> True"
  moreover obtain d0 d1 d2 d3 d4 d5 s0 s1 s2 s3 s4 s5 p
    where "x = ((d0, d1, d2, d3, d4, d5), (s0, s1, s2, s3, s4, s5), p)" by (metis prod.collapse)
  moreover have "from_be_bytes (to_be_bytes ETHERTYPE_AVTP) = ETHERTYPE_AVTP" by simp
  ultimately show "decode_ethernet_frame b = Inr x"
    by (simp add: decode_ethernet_frame_def encode_ethernet_frame_def ETHERNET_HEADER_LEN_def mac_at_def
        to_be_bytes_u16)
qed

interpretation ethernet: frame_codec
  "\<lambda>(dest, src, p). encode_ethernet_frame dest src p" decode_ethernet_frame "\<lambda>_. True"
  by unfold_locales (rule ethernet_exact)

section \<open>The standard socket\<close>

text \<open>What is handed to the network by one socket is what another takes from it, with its own header off.\<close>

lemma std_send_frames:
  assumes "std_send_to os s buf addr = (s', r)"
  shows "std_send_seq s' = std_send_seq s + 1"
    and "std_socket s' = fst (os_send_to os (std_socket s) (encode_annex_j_udp_payload (std_send_seq s) buf) addr)"
  using assms by (auto simp: std_send_to_def Let_def split: prod.splits)

lemma std_recv_unframes:
  assumes "os_set_read_timeout os (std_socket s) t = (o1, Inr u)"
    and "os_recv_from os o1 = (o2, Inr (encode_annex_j_udp_payload seq buf, addr))"
  shows "std_recv_from os s t = (s\<lparr>std_socket := o2\<rparr>, Inr (buf, addr))"
  using assms annex_j.dec_enc [of "(seq, buf)"] by (simp add: std_recv_from_def)

fun std_send_all ::
  "('os, 'addr) os_socket \<Rightarrow> 'os std_udp_socket \<Rightarrow> (bytes \<times> 'addr) list \<Rightarrow> 'os std_udp_socket" where
  "std_send_all os s [] = s"
| "std_send_all os s ((buf, addr) # rest) = std_send_all os (fst (std_send_to os s buf addr)) rest"

lemma std_send_all_seq: "std_send_seq (std_send_all os s sends) = std_send_seq s + of_nat (length sends)"
proof (induction os s sends rule: std_send_all.induct)
  case (2 os s buf addr rest)
  then show ?case
    by (cases "std_send_to os s buf addr") (simp add: std_send_frames(1) algebra_simps)
qed simp

section \<open>The server is the local server\<close>

text \<open>The requests \<open>dispatch_request\<close> hands on to \<open>handle_abb\<close>.\<close>

definition ordinary :: "acf_abb_message \<Rightarrow> bool" where
  "ordinary request \<longleftrightarrow> \<not> is_discovery_request request \<and> \<not> is_discovery_configure_request request"

lemma device_requests_ordinary:
  "\<not> is_ep0_address (byte_bus_id (abb_info request)) \<Longrightarrow> ordinary request"
  by (simp add: ordinary_def is_discovery_request_def is_discovery_configure_request_def route_byte_bus_id_def)

lemma udp_dispatch_ordinary:
  assumes "ordinary request" and "\<not> is_discovery_broadcast_stream_id sid"
  shows "udp_dispatch_request ops u sid request now dt =
    (case handle_abb ops (urs_server u, urs_store u) sid request of
       ((srv, store), r) \<Rightarrow> (u\<lparr>urs_server := srv, urs_store := store\<rparr>, r))"
  using assms by (simp add: udp_dispatch_request_def ordinary_def)

lemma udp_dispatch_local:
  assumes "\<not> is_discovery_broadcast_stream_id sid"
  shows "list_all ordinary requests \<Longrightarrow>
    udp_dispatch_requests ops u sid now dt requests acc =
      (case dispatch_requests ops (urs_server u, urs_store u) sid requests acc of
         ((srv, store), r) \<Rightarrow> (u\<lparr>urs_server := srv, urs_store := store\<rparr>, r))"
proof (induction requests arbitrary: u acc)
  case (Cons request requests)
  obtain srv store r where h: "handle_abb ops (urs_server u, urs_store u) sid request = ((srv, store), r)"
    by (metis prod.collapse)
  have "udp_dispatch_request ops u sid request now dt = (u\<lparr>urs_server := srv, urs_store := store\<rparr>, r)"
    using Cons.prems assms h by (simp add: udp_dispatch_ordinary)
  with Cons h show ?case by (auto split: sum.splits option.splits prod.splits)
qed simp

lemma udp_dispatch_one:
  assumes "udp_dispatch_request ops u sid request now dt = (u', r)"
  shows "udp_dispatch_requests ops u sid now dt [request] [] = (u', and_then (answer_of request r) encode_acf_abb)"
  using assms by (auto simp: answer_of_def split: sum.splits option.splits)

lemma udp_answer_one:
  assumes "encode_acf_abb msg = Inr body" and "encode_ntscf_frame sid n body = Inr frame"
    and "udp_dispatch_request ops u sid (on_wire msg) now dt = (u', r)"
  shows "udp_answer ops u frame seq now dt =
    (u', and_then (and_then (answer_of (on_wire msg) r) encode_acf_abb) (encode_ntscf_frame (urs_local_stream u') seq))"
proof -
  have "decode_acf_abb_messages body = Inr [on_wire msg]"
    using decode_encode_abb_messages [of "[msg]" body] assms(1) by simp
  then show ?thesis
    using decode_encode_ntscf_frame [OF assms(2)] udp_dispatch_one [OF assms(3)]
    by (simp add: udp_answer_def del: udp_dispatch_requests.simps)
qed

section \<open>What every transport keeps\<close>

text \<open>
  A transport's call refuses a zero time-out and an unencodable message before it touches the
  medium, and hands on only an answer to the address it asked.
\<close>

fun transport_run ::
  "('t \<Rightarrow> acf_abb_message \<Rightarrow> u8 \<Rightarrow> duration option \<Rightarrow> 't \<times> acf_abb_message rcp_result) \<Rightarrow> 't
    \<Rightarrow> (acf_abb_message \<times> u8 \<times> duration option) list \<Rightarrow> 't \<times> acf_abb_message rcp_result list" where
  "transport_run call t [] = (t, [])"
| "transport_run call t ((msg, n, timeout) # calls) =
    (case call t msg n timeout of
       (t1, r) \<Rightarrow> (case transport_run call t1 calls of (t2, rs) \<Rightarrow> (t2, r # rs)))"

locale transport =
  fixes call :: "'t \<Rightarrow> acf_abb_message \<Rightarrow> u8 \<Rightarrow> duration option \<Rightarrow> 't \<times> acf_abb_message rcp_result"
  assumes no_time: "call t msg n (Some 0) = (t, Inl Timeout)"
    and unencodable: "encode_acf_abb msg = Inl e \<Longrightarrow> timeout \<noteq> Some 0 \<Longrightarrow> call t msg n timeout = (t, Inl e)"
    and echoed: "call t msg n timeout = (t', Inr resp) \<Longrightarrow> byte_bus_id (abb_info resp) = byte_bus_id (abb_info msg)"
begin

lemma answered_was_sendable:
  assumes "call t msg n timeout = (t', Inr resp)"
  shows "timeout \<noteq> Some 0 \<and> (\<exists>bs. encode_acf_abb msg = Inr bs)"
  using assms no_time [of t msg n] unencodable [of msg _ timeout t n]
  by (cases "encode_acf_abb msg") fastforce+

lemma run_echoes:
  "transport_run call t calls = (t', rs) \<Longrightarrow>
    list_all2 (\<lambda>(msg, n, timeout) r. \<forall>resp. r = Inr resp \<longrightarrow>
      byte_bus_id (abb_info resp) = byte_bus_id (abb_info msg) \<and> timeout \<noteq> Some 0) calls rs"
proof (induction calls arbitrary: t rs)
  case (Cons c calls)
  obtain msg n timeout where c: "c = (msg, n, timeout)" by (cases c)
  obtain t1 r where call: "call t msg n timeout = (t1, r)" by fastforce
  with Cons.prems obtain rs1 where "transport_run call t1 calls = (t', rs1)" "rs = r # rs1"
    by (auto simp: c split: prod.splits)
  with Cons.IH show ?case
    using echoed [of t msg n timeout t1] answered_was_sendable [of t msg n timeout t1] by (auto simp: c call)
qed simp

lemma run_without_time:
  assumes "\<forall>(msg, n, timeout) \<in> set calls. timeout = Some 0"
  shows "transport_run call t calls = (t, replicate (length calls) (Inl Timeout))"
  using assms by (induction calls) (auto simp: no_time)

end

lemma verify_echo_back_Inr:
  "verify_echo_back request response = Inr u \<Longrightarrow> byte_bus_id response = byte_bus_id request"
  by (simp add: verify_echo_back_def split: if_splits)

interpretation udp_abb: transport "udp_send_acf_abb ops"
proof unfold_locales
  fix t msg n timeout t' resp
  assume "udp_send_acf_abb ops t msg n timeout = (t', Inr resp)"
  then show "byte_bus_id (abb_info resp) = byte_bus_id (abb_info msg)"
    by (auto simp: udp_send_acf_abb_def udp_exchange_def and_then_eq_Inr split: if_splits sum.splits prod.splits
        dest: verify_echo_back_Inr)
qed (simp_all add: udp_send_acf_abb_def udp_exchange_def)

interpretation l2_abb: transport "l2_send_acf_abb ops"
proof unfold_locales
  fix t msg n timeout t' resp
  assume "l2_send_acf_abb ops t msg n timeout = (t', Inr resp)"
  then show "byte_bus_id (abb_info resp) = byte_bus_id (abb_info msg)"
    by (auto simp: l2_send_acf_abb_def l2_exchange_def and_then_eq_Inr split: if_splits sum.splits prod.splits
        dest: verify_echo_back_Inr)
qed (simp_all add: l2_send_acf_abb_def l2_exchange_def)

section \<open>A client and a server on a network\<close>

text \<open>
  The operating systems of the two sides: a network holds the datagrams that are on their way, with
  the address they come from and the one they go to. Each side has a standard socket, bound to its own
  address, so that what the network holds is framed as Annex J has it; the server serves one datagram
  whenever the client waits for one.
\<close>

type_synonym 'addr network = "('addr \<times> 'addr \<times> bytes) list"

fun net_take :: "'addr \<Rightarrow> 'addr network \<Rightarrow> ('addr network \<times> bytes \<times> 'addr) option" where
  "net_take me [] = None"
| "net_take me ((sender, receiver, d) # ds) =
    (if receiver = me then Some (ds, d, sender) else map_option (apfst (Cons (sender, receiver, d))) (net_take me ds))"

definition bound_os :: "('addr \<Rightarrow> string) \<Rightarrow> 'addr \<Rightarrow> ('addr network, 'addr) os_socket" where
  "bound_os show_addr me =
    \<lparr>os_send_to = (\<lambda>net d to. (net @ [(me, to, d)], Inr (length d))),
     os_set_read_timeout = (\<lambda>net timeout.
       (net, if timeout = Some 0 then Inl ''cannot set a 0 duration timeout'' else Inr ())),
     os_recv_from = (\<lambda>net. case net_take me net of
         None \<Rightarrow> (net, Inl WouldBlockOrTimedOut) | Some (net', x) \<Rightarrow> (net', Inr x)),
     os_show_addr = show_addr\<rparr>"

definition server_end :: "('addr \<Rightarrow> string) \<Rightarrow> 'addr \<Rightarrow> ('addr network std_udp_socket, 'addr) udp_socket" where
  "server_end show_addr server = std_udp_socket_ops (bound_os show_addr server)"

text \<open>The client shares the network with the server; receiving lets the server serve one datagram first.\<close>

definition on_network :: "'net std_udp_socket \<Rightarrow> 'u \<Rightarrow> 'net \<times> 'r \<Rightarrow> ('net std_udp_socket \<times> 'u) \<times> 'r" where
  "on_network s u x = (case x of (net, r) \<Rightarrow> ((s\<lparr>std_socket := net\<rparr>, u), r))"

definition client_os ::
  "('addr \<Rightarrow> string) \<Rightarrow> 'addr \<Rightarrow> 'addr \<Rightarrow> 'ep endpoint_ops \<Rightarrow> u8 \<Rightarrow> instant \<Rightarrow> duration
    \<Rightarrow> ('addr network std_udp_socket \<times> 'ep udp_rc_server, 'addr) os_socket" where
  "client_os show_addr client server ops seq now dt =
    (let os = bound_os show_addr client in
     \<lparr>os_send_to = (\<lambda>(s, u) d to. on_network s u (os_send_to os (std_socket s) d to)),
      os_set_read_timeout = (\<lambda>(s, u) timeout. on_network s u (os_set_read_timeout os (std_socket s) timeout)),
      os_recv_from = (\<lambda>st. case serve_one (server_end show_addr server) ops st None seq now dt of
        ((s, u), _) \<Rightarrow> on_network s u (os_recv_from os (std_socket s))),
      os_show_addr = show_addr\<rparr>)"

definition client_end ::
  "('addr \<Rightarrow> string) \<Rightarrow> 'addr \<Rightarrow> 'addr \<Rightarrow> 'ep endpoint_ops \<Rightarrow> u8 \<Rightarrow> instant \<Rightarrow> duration
    \<Rightarrow> (('addr network std_udp_socket \<times> 'ep udp_rc_server) std_udp_socket, 'addr) udp_socket" where
  "client_end show_addr client server ops seq now dt =
    std_udp_socket_ops (client_os show_addr client server ops seq now dt)"

text \<open>
  A client of stream \<open>sid\<close> that talks to the server's address, with nothing on the network; the
  sockets of the client and of the server have sent \<open>j\<close> and \<open>k\<close> datagrams.
\<close>

definition connected ::
  "stream_id \<Rightarrow> 'addr \<Rightarrow> u32 \<Rightarrow> u32 \<Rightarrow> 'ep udp_rc_server
    \<Rightarrow> (('addr network std_udp_socket \<times> 'ep udp_rc_server) std_udp_socket, 'addr) udp_transport" where
  "connected sid server j k u =
    \<lparr>udp_local_stream = sid,
     udp_socket_of = \<lparr>std_socket = (\<lparr>std_socket = [], std_send_seq = k\<rparr>, u), std_send_seq = j\<rparr>, udp_remote = server\<rparr>"

lemma annex_j_read [simp]: "decode_annex_j_udp_payload (encode_annex_j_udp_payload seq p) = Inr (seq, p)"
  using annex_j.dec_enc [of "(seq, p)"] by simp

lemma serve_one_quiet:
  assumes "udp_answer ops u frame seq now dt = (u', r)"
  shows "serve_one (server_end show_addr server) ops
      (\<lparr>std_socket = [(client, server, encode_annex_j_udp_payload j frame)], std_send_seq = k\<rparr>, u) None seq now dt =
    (case r of
       Inl e \<Rightarrow> ((\<lparr>std_socket = [], std_send_seq = k\<rparr>, u'), Inl e)
     | Inr reply \<Rightarrow>
         ((\<lparr>std_socket = [(server, client, encode_annex_j_udp_payload k reply)], std_send_seq = k + 1\<rparr>, u'), Inr ()))"
  using assms
  by (auto simp: serve_one_def server_end_def std_udp_socket_ops_def std_recv_from_def std_send_to_def bound_os_def Let_def
      split: sum.splits)

lemma short_body_framed: "length body \<le> 2047 \<Longrightarrow> \<exists>frame. encode_ntscf_frame sid n body = Inr frame"
  by (simp add: encode_ntscf_frame_cases)

text \<open>What a client does with the server's outcome.\<close>

lemma client_exchange:
  assumes "encode_acf_abb msg = Inr body" and "encode_ntscf_frame sid n body = Inr frame" and "timeout \<noteq> Some 0"
    and "udp_answer ops u frame seq now dt = (u', r)" and "client \<noteq> server"
  shows "udp_send_acf_abb (client_end show_addr client server ops seq now dt) (connected sid server j k u) msg n timeout =
    (case r of
       Inl e \<Rightarrow> (connected sid server (j + 1) k u', Inl Timeout)
     | Inr reply \<Rightarrow> (connected sid server (j + 1) (k + 1) u',
         and_then (decode_ntscf_frame reply) (\<lambda>(_, p). and_then (decode_acf_abb p) (\<lambda>resp.
         and_then (verify_echo_back (abb_info msg) (abb_info resp)) (\<lambda>_. Inr resp)))))"
proof -
  let ?sops = "client_end show_addr client server ops seq now dt"
  let ?s1 = "\<lparr>std_socket = (\<lparr>std_socket = [(client, server, encode_annex_j_udp_payload j frame)], std_send_seq = k\<rparr>, u),
    std_send_seq = j + 1\<rparr>"
  have sent: "sock_send_to ?sops (udp_socket_of (connected sid server j k u)) frame server = (?s1, Inr (length frame))"
    by (simp add: client_end_def client_os_def on_network_def connected_def std_udp_socket_ops_def std_send_to_def bound_os_def Let_def
        encode_annex_j_udp_payload_def)
  note served = serve_one_quiet [OF assms(4), of show_addr server client j k]
  have received: "sock_recv_from ?sops ?s1 timeout =
      (case r of
         Inl e \<Rightarrow> (udp_socket_of (connected sid server (j + 1) k u'), Inl Timeout)
       | Inr reply \<Rightarrow> (udp_socket_of (connected sid server (j + 1) (k + 1) u'), Inr (reply, server)))"
    using served assms(3, 5)
    by (auto simp: client_end_def client_os_def on_network_def connected_def std_udp_socket_ops_def std_recv_from_def bound_os_def Let_def
        split: sum.splits)
  have conn: "udp_local_stream (connected sid server j k u) = sid" "udp_remote (connected sid server j k u) = server"
    "(connected sid server j k u)\<lparr>udp_socket_of := udp_socket_of (connected sid server j' k' v)\<rparr> = connected sid server j' k' v"
    for j' k' and v :: "'a udp_rc_server"
    by (simp_all add: connected_def)
  show ?thesis
    using assms(1-3) by (cases r) (simp_all add: udp_send_acf_abb_def udp_exchange_def conn sent received)
qed

lemma remote_call:
  assumes enc: "encode_acf_abb msg = Inr body" and timeout: "timeout \<noteq> Some 0" and addr: "client \<noteq> server"
    and d: "udp_dispatch_request ops u sid (on_wire msg) now dt = (u', r)"
  shows "udp_send_acf_abb (client_end show_addr client server ops seq now dt) (connected sid server j k u) msg n timeout =
    (case and_then (answer_of (on_wire msg) r) encode_acf_abb of
       Inl e \<Rightarrow> (connected sid server (j + 1) k u', Inl Timeout)
     | Inr out \<Rightarrow> (connected sid server (j + 1) (k + 1) u', and_then (decode_acf_abb out) (\<lambda>resp.
         and_then (verify_echo_back (abb_info msg) (abb_info resp)) (\<lambda>_. Inr resp))))"
proof -
  obtain frame where f: "encode_ntscf_frame sid n body = Inr frame"
    using short_body_framed [of body] encode_acf_abb_length(3) [OF enc] by fastforce
  note a = udp_answer_one [OF enc f d, of seq]
  show ?thesis
  proof (cases "and_then (answer_of (on_wire msg) r) encode_acf_abb")
    case (Inl e)
    with a have "udp_answer ops u frame seq now dt = (u', Inl e)" by simp
    from client_exchange [OF enc f timeout this addr] show ?thesis by (simp add: Inl)
  next
    case (Inr out)
    have "length out \<le> 2047"
      using Inr encode_acf_abb_length(3) by (fastforce simp: and_then_eq_Inr)
    then obtain reply where e: "encode_ntscf_frame (urs_local_stream u') seq out = Inr reply"
      using short_body_framed by blast
    with a Inr have "udp_answer ops u frame seq now dt = (u', Inr reply)" by simp
    from client_exchange [OF enc f timeout this addr] decode_encode_ntscf_frame [OF e] show ?thesis
      by (simp add: Inr)
  qed
qed

lemma remote_call_answered:
  assumes "encode_acf_abb msg = Inr body" and "timeout \<noteq> Some 0" and "client \<noteq> server"
    and "udp_dispatch_request ops u sid (on_wire msg) now dt = (u', r)"
    and "answer_of (on_wire msg) r = Inr response" and "encode_acf_abb response = Inr out"
    and "byte_bus_id (abb_info response) = byte_bus_id (abb_info msg)"
  shows "udp_send_acf_abb (client_end show_addr client server ops seq now dt) (connected sid server j k u) msg n timeout =
    (connected sid server (j + 1) (k + 1) u', Inr (on_wire response))"
  using remote_call [OF assms(1-4), of show_addr seq j k n] decode_encode_acf_abb [OF assms(6), of "[]"] assms(5-7)
  by (simp add: verify_echo_back_def)

lemma remote_call_unanswered:
  assumes "encode_acf_abb msg = Inr body" and "timeout \<noteq> Some 0" and "client \<noteq> server"
    and "udp_dispatch_request ops u sid (on_wire msg) now dt = (u', Inl e)" and "tc18_wire_code e = None"
  shows "udp_send_acf_abb (client_end show_addr client server ops seq now dt) (connected sid server j k u) msg n timeout =
    (connected sid server (j + 1) k u', Inl Timeout)"
  using remote_call [OF assms(1-4), of show_addr seq j k n] assms(5)
  by (simp add: answer_of_def build_error_response_def)

section \<open>What the discovery requests catch\<close>

lemma register_address_of_registers:
  assumes "svr_oa_tc18_magic_nr g < 0x10000"
  shows "decode_register_address (encode_general_registers g) = Some DISCOVERY_REGISTER_ADDRESS"
proof -
  define w where "w = svr_oa_tc18_magic_nr g"
  have "unat w < 65536" using assms by (simp add: w_def word_less_nat_alt)
  then have "unat (w div 65536) = unat (0 :: u32)" by (simp add: unat_div)
  then have "w div 65536 = 0" by (rule word_unat_eq_iff [THEN iffD2])
  then have "drop_bit 16 w = 0" by (simp add: drop_bit_eq_div)
  then have "drop_bit 24 w = 0" using drop_bit_drop_bit [of 8 16 w] by simp
  have "to_be_bytes w = [ucast (drop_bit 24 w), ucast (drop_bit 16 w), ucast (drop_bit 8 w), ucast w]"
    by (simp add: to_be_bytes_def be_bytes_numeral)
  with \<open>drop_bit 16 w = 0\<close> \<open>drop_bit 24 w = 0\<close>
  have "to_be_bytes w = [0, 0, ucast (drop_bit 8 w), ucast w]" by simp
  then show ?thesis
    by (simp add: decode_register_address_def encode_general_registers_def w_def [symmetric] from_be_bytes_u16
        rcp_consts)
qed

lemma register_write_is_configure:
  assumes "svr_oa_tc18_magic_nr g < 0x10000"
  shows "is_discovery_configure_request (on_wire (ep0_write_message n g))"
    and "\<not> is_discovery_request (on_wire (ep0_write_message n g))"
  using register_address_of_registers [OF assms]
  by (simp_all add: is_discovery_configure_request_def is_discovery_request_def route_byte_bus_id_def access_kind_def
      is_ep0_address_def EP0_BYTE_BUS_ID_def del: on_wire_fields)

section \<open>Properties\<close>

text \<open>C7: a remote call is a local call. A client that sends an ordinary request over UDP, both sides with standard sockets that frame each datagram as Annex J has it, to a server which serves one datagram gets, as the decoded answer, what \<open>handle_abb\<close> answers locally to the request as it is on the wire: the response, or the error response for an error with a wire code. The server is left in the state the local call leaves, nothing stays on the network, each side has numbered one datagram, and the answer echoes the request.\<close>

theorem remote_call_is_local_call:
  assumes "encode_acf_abb msg = Inr body" and "timeout \<noteq> Some 0" and "client \<noteq> server"
    and "ordinary (on_wire msg)" and "\<not> is_discovery_broadcast_stream_id sid"
    and "handle_abb ops (urs_server u, urs_store u) sid (on_wire msg) = ((srv, store), result)"
    and "answerable result"
  shows "\<exists>response. answer_of (on_wire msg) result = Inr response \<and> answers msg response
    \<and> udp_send_acf_abb (client_end show_addr client server ops seq now dt) (connected sid server j k u) msg n timeout
      = (connected sid server (j + 1) (k + 1) (u\<lparr>urs_server := srv, urs_store := store\<rparr>), Inr (on_wire response))"
proof -
  obtain response out where a: "answer_of (on_wire msg) result = Inr response" and e: "encode_acf_abb response = Inr out"
    using answer_of_encodable [OF on_wire_ok [OF assms(1)] assms(6, 7)] by blast
  have d: "udp_dispatch_request ops u sid (on_wire msg) now dt = (u\<lparr>urs_server := srv, urs_store := store\<rparr>, result)"
    by (simp add: udp_dispatch_ordinary [OF assms(4, 5)] assms(6))
  have "answers msg response" using answer_of_answers [OF assms(6) a] by (simp add: answers_def)
  then show ?thesis
    using remote_call_answered [OF assms(1-3) d a e] a by (simp add: answers_def)
qed

lemma remote_call_is_local_call_witness:
  "\<exists>response. udp_send_acf_abb (client_end (\<lambda>_. ''peer'') (1 :: nat) 2 mock_ops 4 100 20)
        (connected (sample_stream 1) 2 0 7 (udp_rc_server_new (sample_stream 9) sample_server sample_store))
        (ep0_read_message 8) 3 None
      = (connected (sample_stream 1) 2 1 8 (udp_rc_server_new (sample_stream 9) sample_server sample_store),
         Inr (on_wire response))
    \<and> answers (ep0_read_message 8) response"
proof -
  obtain body where e: "encode_acf_abb (ep0_read_message 8) = Inr body" using ep0_messages_encodable by blast
  have o: "ordinary (on_wire (ep0_read_message 8))"
    by (simp add: ordinary_def is_discovery_request_def is_discovery_configure_request_def decode_register_address_def
        access_kind_def ep0_read_message_def byte_message_info_default_def rcp_consts)
  have b: "\<not> is_discovery_broadcast_stream_id (sample_stream 1)"
    by (simp add: is_discovery_broadcast_stream_id_def DISCOVERY_BROADCAST_STREAM_ID_def sample_stream_def)
  let ?u = "udp_rc_server_new (sample_stream 9) sample_server sample_store"
  have "handle_abb mock_ops (urs_server ?u, urs_store ?u) (sample_stream 1) (on_wire (ep0_read_message 8))
      = ((sample_server, sample_store), Inr \<lparr>abb_info = (abb_info (on_wire (ep0_read_message 8)))\<lparr>bmi_rsp := True\<rparr>,
          abb_payload = encode_general_registers (srv_general sample_server)\<rparr>)"
    by (simp add: udp_rc_server_new_def handle_ep0_read)
  from remote_call_is_local_call [OF e _ _ o b this, of None "1 :: nat" 2 "\<lambda>_. ''peer''" 4 100 20 0 7 3] show ?thesis
    by (auto simp: answerable_def general_block.length_enc udp_rc_server_new_def)
qed

text \<open>C18: over UDP a write of the general registers can be taken for a discovery claim. The discovery configuration request is told by two leading zero octets in a write to endpoint 0, and so is every write of registers whose magic number is below 65536: it is acknowledged, it claims the discovery stream for its sender, and the registers stay as they were, while the local call of the root client stores them.\<close>

theorem register_write_taken_for_claim:
  assumes "svr_oa_tc18_magic_nr g < 0x10000" and "\<not> is_discovery_broadcast_stream_id sid"
    and "claim_permits (urs_claim u) sid now dt" and "srv_root_client (urs_server u) = Some sid"
  shows "\<exists>response. udp_dispatch_request ops u sid (on_wire (ep0_write_message n g)) now dt
      = (u\<lparr>urs_claim := Some \<lparr>claimant = sid, claimed_at = now\<rparr>\<rparr>, Inr response)
    \<and> fst (handle_abb ops (urs_server u, urs_store u) sid (on_wire (ep0_write_message n g)))
      = ((urs_server u)\<lparr>srv_general := g\<rparr>, urs_store u)"
  using assms
  by (simp add: udp_dispatch_request_def register_write_is_configure is_discovery_request_def access_kind_def
      check_discovery_access_def try_claim_discovery_stream_def handle_ep0_write del: on_wire_fields)

lemma register_write_taken_for_claim_witness:
  "\<exists>response. udp_dispatch_request mock_ops (udp_rc_server_new (sample_stream 9) sample_server sample_store)
        (sample_stream 1) (on_wire (ep0_write_message 7 (zero_registers\<lparr>svr_vendor_id := 3\<rparr>))) 100 20
      = ((udp_rc_server_new (sample_stream 9) sample_server sample_store)
           \<lparr>urs_claim := Some \<lparr>claimant = sample_stream 1, claimed_at = 100\<rparr>\<rparr>, Inr response)"
  using register_write_taken_for_claim [of "zero_registers\<lparr>svr_vendor_id := 3\<rparr>" "sample_stream 1"
      "udp_rc_server_new (sample_stream 9) sample_server sample_store" 100 20 mock_ops 7]
  by (auto simp: zero_registers_def claim_permits_def udp_rc_server_new_def sample_server_def set_root_client_def
      is_discovery_broadcast_stream_id_def DISCOVERY_BROADCAST_STREAM_ID_def sample_stream_def)


end
