(* ===== verification/Rcp_Bridges.thy ===== *)
theory Rcp_Bridges
  imports Rcp_Udp_Facts
begin

text \<open>
  The other bridges of the crate: shared memory with its in-process channel (\<open>src/shmem.rs\<close>) and
  TLS (\<open>src/tlstransport.rs\<close>). Channels and streams are records of operations on a state of their
  own; what others do to a channel while a read waits is part of the read.
\<close>

section \<open>Channels\<close>

record 's shm_channel =
  shm_write :: "'s \<Rightarrow> bytes \<Rightarrow> 's \<times> unit rcp_result"
  shm_read :: "'s \<Rightarrow> duration option \<Rightarrow> 's \<times> bytes rcp_result"

definition inproc_new :: "bytes list" where
  "inproc_new = []"

definition inproc_write :: "bytes list \<Rightarrow> bytes \<Rightarrow> bytes list \<times> unit rcp_result" where
  "inproc_write buf data = (buf @ [data], Inr ())"

text \<open>
  A read waits until the buffer holds something or, with a time-out, until no time remains. Each
  entry of \<open>wakes\<close> is one turn of the loop that finds nothing: whether time has run out by then, and
  the buffer as it is after the wait that follows. A read that has not returned yet is \<open>None\<close>.
\<close>

fun inproc_read ::
  "duration option \<Rightarrow> bytes list \<Rightarrow> (bool \<times> bytes list) list \<Rightarrow> (bytes list \<times> bytes rcp_result) option" where
  "inproc_read timeout (v # buf) wakes = Some (buf, Inr v)"
| "inproc_read timeout [] [] = None"
| "inproc_read timeout [] ((expired, buf) # wakes) =
    (if timeout \<noteq> None \<and> expired then Some ([], Inl Timeout) else inproc_read timeout buf wakes)"

text \<open>The two channels of a bridge may be one, so both work on the same state.\<close>

record 's shm_bridge =
  shm_local_stream :: stream_id
  shm_medium :: 's

definition shm_bridge_new :: "stream_id \<Rightarrow> 's \<Rightarrow> 's shm_bridge" where
  "shm_bridge_new sid medium = \<lparr>shm_local_stream = sid, shm_medium = medium\<rparr>"

definition shm_exchange ::
  "'s shm_channel \<Rightarrow> 's shm_channel \<Rightarrow> 's shm_bridge \<Rightarrow> bytes rcp_result \<Rightarrow> u8 \<Rightarrow> duration option
    \<Rightarrow> (bytes \<Rightarrow> 'm rcp_result) \<Rightarrow> 's shm_bridge \<times> 'm rcp_result" where
  "shm_exchange tops rops t encoded sequence_num timeout finish =
    (if timeout = Some 0 then (t, Inl Timeout)
     else case and_then encoded (encode_ntscf_frame (shm_local_stream t) sequence_num) of
       Inl e \<Rightarrow> (t, Inl e)
     | Inr frame \<Rightarrow>
         (case shm_write tops (shm_medium t) frame of
            (s1, Inl e) \<Rightarrow> (t\<lparr>shm_medium := s1\<rparr>, Inl e)
          | (s1, Inr _) \<Rightarrow>
              (case shm_read rops s1 timeout of
                 (s2, Inl e) \<Rightarrow> (t\<lparr>shm_medium := s2\<rparr>, Inl e)
               | (s2, Inr resp_frame) \<Rightarrow>
                   (t\<lparr>shm_medium := s2\<rparr>,
                    and_then (decode_ntscf_frame resp_frame) (\<lambda>(_, resp_payload). finish resp_payload)))))"

definition shm_send_acf_abb ::
  "'s shm_channel \<Rightarrow> 's shm_channel \<Rightarrow> 's shm_bridge \<Rightarrow> acf_abb_message \<Rightarrow> u8 \<Rightarrow> duration option
    \<Rightarrow> 's shm_bridge \<times> acf_abb_message rcp_result" where
  "shm_send_acf_abb tops rops t msg sequence_num timeout =
    shm_exchange tops rops t (encode_acf_abb msg) sequence_num timeout (\<lambda>resp_payload.
      and_then (decode_acf_abb resp_payload) (\<lambda>resp.
      and_then (verify_echo_back (abb_info msg) (abb_info resp)) (\<lambda>_. Inr resp)))"

definition shm_send_acf_gbb ::
  "'s shm_channel \<Rightarrow> 's shm_channel \<Rightarrow> 's shm_bridge \<Rightarrow> acf_gbb_message \<Rightarrow> u8 \<Rightarrow> duration option
    \<Rightarrow> 's shm_bridge \<times> acf_gbb_message rcp_result" where
  "shm_send_acf_gbb tops rops t msg sequence_num timeout =
    shm_exchange tops rops t (encode_acf_gbb msg) sequence_num timeout (\<lambda>resp_payload.
      and_then (decode_acf_gbb resp_payload) (\<lambda>resp.
      and_then (verify_echo_back (gbb_info msg) (gbb_info resp)) (\<lambda>_. Inr resp)))"

definition shm_bridge_close :: "'s shm_bridge \<Rightarrow> unit rcp_result" where
  "shm_bridge_close b = Inr ()"

section \<open>TLS\<close>

definition REQUIRE_MUTUAL_AUTH :: bool where "REQUIRE_MUTUAL_AUTH = True"

record 's tls_stream =
  tls_write_all :: "'s \<Rightarrow> bytes \<Rightarrow> 's \<times> unit rcp_result"
  tls_read_to_vec :: "'s \<Rightarrow> duration option \<Rightarrow> 's \<times> bytes rcp_result"
  tls_peer_verified :: "'s \<Rightarrow> bool"

record 's tls_bridge =
  tls_local_stream :: stream_id
  tls_stream_of :: 's

definition tls_bridge_new :: "'s tls_stream \<Rightarrow> stream_id \<Rightarrow> 's \<Rightarrow> 's tls_bridge rcp_result" where
  "tls_bridge_new ops sid s =
    (if REQUIRE_MUTUAL_AUTH \<and> \<not> tls_peer_verified ops s then Inl NotConnected
     else Inr \<lparr>tls_local_stream = sid, tls_stream_of = s\<rparr>)"

definition tls_exchange ::
  "'s tls_stream \<Rightarrow> 's tls_bridge \<Rightarrow> bytes rcp_result \<Rightarrow> u8 \<Rightarrow> duration option
    \<Rightarrow> (bytes \<Rightarrow> 'm rcp_result) \<Rightarrow> 's tls_bridge \<times> 'm rcp_result" where
  "tls_exchange ops t encoded sequence_num timeout finish =
    (if timeout = Some 0 then (t, Inl Timeout)
     else case and_then encoded (encode_ntscf_frame (tls_local_stream t) sequence_num) of
       Inl e \<Rightarrow> (t, Inl e)
     | Inr frame \<Rightarrow>
         (case tls_write_all ops (tls_stream_of t) frame of
            (s1, Inl e) \<Rightarrow> (t\<lparr>tls_stream_of := s1\<rparr>, Inl e)
          | (s1, Inr _) \<Rightarrow>
              (case tls_read_to_vec ops s1 timeout of
                 (s2, Inl e) \<Rightarrow> (t\<lparr>tls_stream_of := s2\<rparr>, Inl e)
               | (s2, Inr resp_frame) \<Rightarrow>
                   (t\<lparr>tls_stream_of := s2\<rparr>,
                    and_then (decode_ntscf_frame resp_frame) (\<lambda>(_, resp_payload). finish resp_payload)))))"

definition tls_send_acf_abb ::
  "'s tls_stream \<Rightarrow> 's tls_bridge \<Rightarrow> acf_abb_message \<Rightarrow> u8 \<Rightarrow> duration option
    \<Rightarrow> 's tls_bridge \<times> acf_abb_message rcp_result" where
  "tls_send_acf_abb ops t msg sequence_num timeout =
    tls_exchange ops t (encode_acf_abb msg) sequence_num timeout (\<lambda>resp_payload.
      and_then (decode_acf_abb resp_payload) (\<lambda>resp.
      and_then (verify_echo_back (abb_info msg) (abb_info resp)) (\<lambda>_. Inr resp)))"

definition tls_send_acf_gbb ::
  "'s tls_stream \<Rightarrow> 's tls_bridge \<Rightarrow> acf_gbb_message \<Rightarrow> u8 \<Rightarrow> duration option
    \<Rightarrow> 's tls_bridge \<times> acf_gbb_message rcp_result" where
  "tls_send_acf_gbb ops t msg sequence_num timeout =
    tls_exchange ops t (encode_acf_gbb msg) sequence_num timeout (\<lambda>resp_payload.
      and_then (decode_acf_gbb resp_payload) (\<lambda>resp.
      and_then (verify_echo_back (gbb_info msg) (gbb_info resp)) (\<lambda>_. Inr resp)))"

definition tls_bridge_close :: "'s tls_bridge \<Rightarrow> unit rcp_result" where
  "tls_bridge_close b = Inr ()"

section \<open>What they keep\<close>

interpretation shm_abb: transport "shm_send_acf_abb tops rops"
proof unfold_locales
  fix t msg n timeout t' resp
  assume "shm_send_acf_abb tops rops t msg n timeout = (t', Inr resp)"
  then show "byte_bus_id (abb_info resp) = byte_bus_id (abb_info msg)"
    by (auto simp: shm_send_acf_abb_def shm_exchange_def and_then_eq_Inr split: if_splits sum.splits prod.splits
        dest: verify_echo_back_Inr)
qed (simp_all add: shm_send_acf_abb_def shm_exchange_def)

interpretation tls_abb: transport "tls_send_acf_abb ops"
proof unfold_locales
  fix t msg n timeout t' resp
  assume "tls_send_acf_abb ops t msg n timeout = (t', Inr resp)"
  then show "byte_bus_id (abb_info resp) = byte_bus_id (abb_info msg)"
    by (auto simp: tls_send_acf_abb_def tls_exchange_def and_then_eq_Inr split: if_splits sum.splits prod.splits
        dest: verify_echo_back_Inr)
qed (simp_all add: tls_send_acf_abb_def tls_exchange_def)

lemma tls_needs_verified_peer: "tls_bridge_new ops sid s = Inr t \<Longrightarrow> tls_peer_verified ops (tls_stream_of t)"
  by (auto simp: tls_bridge_new_def REQUIRE_MUTUAL_AUTH_def split: if_splits)

text \<open>Everything written comes out in the order it went in, and a waiting read takes what arrives.\<close>

fun inproc_drain :: "nat \<Rightarrow> bytes list \<Rightarrow> bytes list" where
  "inproc_drain 0 buf = []"
| "inproc_drain (Suc k) buf =
    (case inproc_read None buf [] of Some (buf', Inr v) \<Rightarrow> v # inproc_drain k buf' | _ \<Rightarrow> [])"

lemma inproc_fifo: "inproc_drain (length buf) buf = buf"
  by (induction buf) simp_all

lemma inproc_writes: "foldl (\<lambda>buf d. fst (inproc_write buf d)) buf ds = buf @ ds"
  by (induction ds arbitrary: buf) (simp_all add: inproc_write_def)

lemma inproc_read_timeout:
  "inproc_read timeout buf wakes = Some (buf', Inl e) \<Longrightarrow> e = Timeout \<and> timeout \<noteq> None \<and> buf' = []"
  by (induction timeout buf wakes rule: inproc_read.induct) (auto split: if_splits)

lemma inproc_read_waits: "inproc_read None buf wakes = None \<longleftrightarrow> buf = [] \<and> (\<forall>(x, b) \<in> set wakes. b = [])"
proof (induction wakes arbitrary: buf)
  case (Cons w wakes)
  then show ?case by (cases w; cases buf) auto
next
  case Nil
  then show ?case by (cases buf) auto
qed

end
