(* ===== verification/Rcp_Relay.thy ===== *)
theory Rcp_Relay
  imports Rcp_Mock_Wire
begin

text \<open>
  The relay interface, \<open>src/relay.rs\<close>, and the adapter that puts an RC Server behind it,
  \<open>src/adapt.rs\<close>. Strings are their UTF-8 octets. The time stamp of a message is a type variable;
  what the clock returns is a parameter. A call that a worker thread makes is the call.
\<close>

section \<open>Protocols and versions\<close>

datatype relay_protocol = ProtoCan | ProtoDds | ProtoLin | ProtoMqtt | ProtoRcp | ProtoSomeip

fun protocol_to_i32 :: "relay_protocol \<Rightarrow> int" where
  "protocol_to_i32 ProtoCan = 1"
| "protocol_to_i32 ProtoDds = 2"
| "protocol_to_i32 ProtoLin = 3"
| "protocol_to_i32 ProtoMqtt = 4"
| "protocol_to_i32 ProtoRcp = 5"
| "protocol_to_i32 ProtoSomeip = 6"

text \<open>Decimal texts of integers, as \<open>Display\<close> writes them.\<close>

definition digit_char :: "nat \<Rightarrow> char" where
  "digit_char d = ''0123456789abcdef'' ! d"

fun show_nat :: "nat \<Rightarrow> string" where
  "show_nat n = (if n < 10 then [digit_char n] else show_nat (n div 10) @ [digit_char (n mod 10)])"

declare show_nat.simps [simp del]

definition show_int :: "int \<Rightarrow> string" where
  "show_int i = (if i < 0 then ''-'' @ show_nat (nat (- i)) else show_nat (nat i))"

definition protocol_try_from :: "int \<Rightarrow> string + relay_protocol" where
  "protocol_try_from v =
    (if v = 1 then Inr ProtoCan else if v = 2 then Inr ProtoDds else if v = 3 then Inr ProtoLin
     else if v = 4 then Inr ProtoMqtt else if v = 5 then Inr ProtoRcp else if v = 6 then Inr ProtoSomeip
     else Inl (''unknown protocol: '' @ show_int v))"

fun protocol_display :: "relay_protocol \<Rightarrow> string" where
  "protocol_display ProtoCan = ''CAN''"
| "protocol_display ProtoDds = ''DDS''"
| "protocol_display ProtoLin = ''LIN''"
| "protocol_display ProtoMqtt = ''MQTT''"
| "protocol_display ProtoRcp = ''RCP''"
| "protocol_display ProtoSomeip = ''SOMEIP''"

record relay_version =
  ver_major :: int
  ver_minor :: int
  ver_patch :: int

definition version_default :: relay_version where
  "version_default = \<lparr>ver_major = 0, ver_minor = 0, ver_patch = 0\<rparr>"

definition version_display :: "relay_version \<Rightarrow> string" where
  "version_display v = show_int (ver_major v) @ ''.'' @ show_int (ver_minor v) @ ''.'' @ show_int (ver_patch v)"

section \<open>Messages, options, errors and contexts\<close>

record 'time relay_message =
  msg_protocol :: relay_protocol
  msg_version :: relay_version
  msg_id :: string
  msg_payload :: bytes
  msg_timestamp :: 'time
  msg_seq :: u64
  msg_meta :: "string \<rightharpoonup> string"

definition relay_message_new :: "relay_protocol \<Rightarrow> string \<Rightarrow> bytes \<Rightarrow> 'time \<Rightarrow> 'time relay_message" where
  "relay_message_new protocol ident payload now =
    \<lparr>msg_protocol = protocol, msg_version = version_default, msg_id = ident, msg_payload = payload,
     msg_timestamp = now, msg_seq = 0, msg_meta = Map.empty\<rparr>"

datatype back_pressure_policy = DropNewest | DropOldest | BlockSender

record subscriber_options =
  channel_depth :: nat
  back_pressure :: back_pressure_policy

definition chan_depth :: "subscriber_options \<Rightarrow> nat \<Rightarrow> nat" where
  "chan_depth opts default_depth = (if channel_depth opts > 0 then channel_depth opts else default_depth)"

datatype relay_error = RelayClosed | RelayNotConnected | RelayTimeout | RelayPayloadTooLarge

record relay_context =
  ctx_deadline :: "nat option"

definition context_background :: relay_context where
  "context_background = \<lparr>ctx_deadline = None\<rparr>"

definition context_with_timeout :: "nat \<Rightarrow> nat \<Rightarrow> relay_context" where
  "context_with_timeout now d = \<lparr>ctx_deadline = Some (now + d)\<rparr>"

definition context_done :: "nat \<Rightarrow> relay_context \<Rightarrow> bool" where
  "context_done now ctx = (case ctx_deadline ctx of None \<Rightarrow> False | Some d \<Rightarrow> now \<ge> d)"

section \<open>Parsing integers\<close>

text \<open>
  \<open>from_str_radix\<close> of the standard library for an unsigned type of \<open>bound\<close> values: an optional
  plus sign and at least one digit of the radix, in either case, without overflow.
\<close>

definition to_digit :: "nat \<Rightarrow> char \<Rightarrow> nat option" where
  "to_digit radix c =
    (let k = of_char c :: nat;
         d = (if 48 \<le> k \<and> k \<le> 57 then Some (k - 48)
              else if 97 \<le> k \<and> k \<le> 122 then Some (k - 97 + 10)
              else if 65 \<le> k \<and> k \<le> 90 then Some (k - 65 + 10) else None)
     in case d of None \<Rightarrow> None | Some v \<Rightarrow> if v < radix then Some v else None)"

fun read_digits :: "nat \<Rightarrow> nat \<Rightarrow> nat \<Rightarrow> string \<Rightarrow> nat option" where
  "read_digits radix bound acc [] = Some acc"
| "read_digits radix bound acc (c # cs) =
    (case to_digit radix c of
       None \<Rightarrow> None
     | Some d \<Rightarrow> if acc * radix + d < bound then read_digits radix bound (acc * radix + d) cs else None)"

definition from_str_radix :: "nat \<Rightarrow> nat \<Rightarrow> string \<Rightarrow> nat option" where
  "from_str_radix radix bound s =
    (if s = [] \<or> s = ''+'' \<or> s = ''-'' then None
     else if hd s = CHR ''+'' then read_digits radix bound 0 (tl s)
     else read_digits radix bound 0 s)"

fun split_once :: "char \<Rightarrow> string \<Rightarrow> (string \<times> string) option" where
  "split_once c [] = None"
| "split_once c (x # xs) =
    (if x = c then Some ([], xs) else map_option (\<lambda>(a, b). (x # a, b)) (split_once c xs))"

section \<open>Endpoint identifiers\<close>

definition ENDPOINT_ID_SEP :: char where "ENDPOINT_ID_SEP = CHR ''.''"

text \<open>The format specification \<open>{:016x}\<close>.\<close>

fun hex_lower :: "nat \<Rightarrow> nat \<Rightarrow> string" where
  "hex_lower 0 n = []"
| "hex_lower (Suc k) n = digit_char (n div 16 ^ k mod 16) # hex_lower k n"

definition format_endpoint_id :: "stream_id \<Rightarrow> u16 \<Rightarrow> string" where
  "format_endpoint_id sid bus = hex_lower 16 (unat (stream_id_to_u64 sid)) @ [ENDPOINT_ID_SEP] @ show_nat (unat bus)"

definition parse_endpoint_id :: "string \<Rightarrow> (stream_id \<times> u16) rcp_result" where
  "parse_endpoint_id ident =
    and_then (ok_or (split_once ENDPOINT_ID_SEP ident) InvalidParameter) (\<lambda>(sid_hex, bus_dec).
    and_then (ok_or (from_str_radix 16 (2 ^ 64) sid_hex) InvalidParameter) (\<lambda>raw.
    and_then (ok_or (from_str_radix 10 (2 ^ 16) bus_dec) InvalidParameter) (\<lambda>bus.
      Inr (stream_id_from_u64 (of_nat raw), of_nat bus))))"

section \<open>Requests and responses as messages\<close>

definition from_message :: "'time relay_message \<Rightarrow> (stream_id \<times> acf_abb_message) rcp_result" where
  "from_message msg =
    and_then (parse_endpoint_id (msg_id msg)) (\<lambda>(sid, bus).
    and_then (case msg_meta msg ''rcp.op'' of
        Some s \<Rightarrow> if s = ''write'' then Inr True else if s = ''read'' then Inr False else Inl InvalidParameter
      | None \<Rightarrow> Inr (msg_payload msg \<noteq> [])) (\<lambda>op.
    and_then (case msg_meta msg ''rcp.read_size'' of
        None \<Rightarrow> Inr 0xFFFF
      | Some v \<Rightarrow> ok_or (map_option of_nat (from_str_radix 10 (2 ^ 16) v)) InvalidParameter) (\<lambda>read_size.
      Inr (sid, \<lparr>abb_info = byte_message_info_default\<lparr>byte_bus_id := bus, bmi_op := op,
                   read_size_segment := ReadSizeOrSegment read_size\<rparr>,
                 abb_payload = msg_payload msg\<rparr>))))"

definition to_message :: "'time \<Rightarrow> stream_id \<Rightarrow> acf_abb_message \<Rightarrow> 'time relay_message" where
  "to_message now sid resp =
    \<lparr>msg_protocol = ProtoRcp, msg_version = version_default,
     msg_id = format_endpoint_id sid (byte_bus_id (abb_info resp)), msg_payload = abb_payload resp,
     msg_timestamp = now, msg_seq = 0,
     msg_meta = Map.empty(''rcp.op'' \<mapsto> (if bmi_op (abb_info resp) then ''write'' else ''read''),
       ''rcp.response_kind'' \<mapsto> response_kind_as_str (response_kind_of (abb_info resp)))\<rparr>"

definition response_to_message :: "'time \<Rightarrow> stream_id \<Rightarrow> acf_abb_message \<Rightarrow> 'time relay_message" where
  "response_to_message now sid resp = to_message now sid resp"

definition map_err :: "rcp_error \<Rightarrow> relay_error" where
  "map_err e =
    (if is_relay_closed e then RelayClosed else if is_relay_timeout e then RelayTimeout
     else if is_relay_payload_too_large e then RelayPayloadTooLarge else RelayNotConnected)"

section \<open>The adapter\<close>

record 'ep rcp_adapter =
  ad_server :: "rc_server \<times> 'ep ep_store"
  ad_closed :: bool

definition adapt :: "rc_server \<times> 'ep ep_store \<Rightarrow> 'ep rcp_adapter" where
  "adapt server = \<lparr>ad_server = server, ad_closed = False\<rparr>"

definition adapter_send ::
  "'ep endpoint_ops \<Rightarrow> nat \<Rightarrow> 'ep rcp_adapter \<Rightarrow> relay_context \<Rightarrow> 'time relay_message
    \<Rightarrow> 'ep rcp_adapter \<times> (relay_error + unit)" where
  "adapter_send ops now a ctx msg =
    (if ad_closed a then (a, Inl RelayClosed)
     else if context_done now ctx then (a, Inl RelayTimeout)
     else case from_message msg of
       Inl e \<Rightarrow> (a, Inl (map_err e))
     | Inr (sid, request) \<Rightarrow>
         (case handle_abb ops (ad_server a) sid request of
            (server, Inl e) \<Rightarrow> (a\<lparr>ad_server := server\<rparr>, Inl (map_err e))
          | (server, Inr _) \<Rightarrow> (a\<lparr>ad_server := server\<rparr>, Inr ())))"

text \<open>A subscription yields a receiver whose sender is gone already: a channel with nothing to come.\<close>

definition adapter_subscribe ::
  "'ep rcp_adapter \<Rightarrow> subscriber_options \<Rightarrow> relay_error + 'time relay_message list" where
  "adapter_subscribe a opts = (if ad_closed a then Inl RelayClosed else Inr [])"

definition adapter_close :: "'ep rcp_adapter \<Rightarrow> 'ep rcp_adapter \<times> (relay_error + unit)" where
  "adapter_close a = (a\<lparr>ad_closed := True\<rparr>, Inr ())"

definition adapter_call ::
  "'ep endpoint_ops \<Rightarrow> nat \<Rightarrow> 'time \<Rightarrow> 'ep rcp_adapter \<Rightarrow> relay_context \<Rightarrow> 'time relay_message
    \<Rightarrow> 'ep rcp_adapter \<times> (relay_error + 'time relay_message)" where
  "adapter_call ops now utc a ctx req =
    (if ad_closed a then (a, Inl RelayClosed)
     else if context_done now ctx then (a, Inl RelayTimeout)
     else case from_message req of
       Inl e \<Rightarrow> (a, Inl (map_err e))
     | Inr (sid, request) \<Rightarrow>
         (case handle_abb ops (ad_server a) sid request of
            (server, Inl e) \<Rightarrow> (a\<lparr>ad_server := server\<rparr>, Inl (map_err e))
          | (server, Inr response) \<Rightarrow>
              (a\<lparr>ad_server := server\<rparr>, Inr (response_to_message utc sid response))))"

section \<open>Typed messages for an endpoint\<close>

record 'm msg_adapter =
  to_write_payload :: "'m \<Rightarrow> bytes rcp_result"
  adapt_read_bytes :: "bytes \<Rightarrow> 'm rcp_result"

definition passthrough_adapter :: "bytes msg_adapter" where
  "passthrough_adapter = \<lparr>to_write_payload = Inr, adapt_read_bytes = Inr\<rparr>"

definition send_msg ::
  "'ep endpoint_ops \<Rightarrow> 'm msg_adapter \<Rightarrow> 'ep \<Rightarrow> 'm \<Rightarrow> u16 \<Rightarrow> 'ep \<times> 'm rcp_result" where
  "send_msg ops ad ep msg read_size =
    (case to_write_payload ad msg of
       Inl e \<Rightarrow> (ep, Inl e)
     | Inr payload \<Rightarrow>
         (case ep_write ops ep payload of
            (ep1, Inl e) \<Rightarrow> (ep1, Inl e)
          | (ep1, Inr _) \<Rightarrow>
              (case ep_read ops ep1 read_size of
                 (ep2, Inl e) \<Rightarrow> (ep2, Inl e)
               | (ep2, Inr bytes) \<Rightarrow> (ep2, adapt_read_bytes ad bytes))))"

section \<open>Digits read back\<close>

lemma digit_chars_checked:
  "list_all (\<lambda>d. to_digit 16 (digit_char d) = Some d \<and> (d < 10 \<longrightarrow> to_digit 10 (digit_char d) = Some d)
     \<and> digit_char d \<noteq> CHR ''.'' \<and> digit_char d \<noteq> CHR ''+'' \<and> digit_char d \<noteq> CHR ''-'') [0..<16]"
  by code_simp

lemma digit_char_cases:
  assumes "d < 16"
  shows "to_digit 16 (digit_char d) = Some d" and "d < 10 \<Longrightarrow> to_digit 10 (digit_char d) = Some d"
    and "digit_char d \<noteq> CHR ''.''" and "digit_char d \<noteq> CHR ''+''" and "digit_char d \<noteq> CHR ''-''"
  using digit_chars_checked assms unfolding list_all_iff by (auto simp del: upt_rec_numeral)

lemma read_digits_append:
  "read_digits r b acc (xs @ ys) =
    (case read_digits r b acc xs of None \<Rightarrow> None | Some v \<Rightarrow> read_digits r b v ys)"
  by (induction xs arbitrary: acc) (auto split: option.splits)

lemma read_hex_lower:
  "acc * 16 ^ k + n mod 16 ^ k < b \<Longrightarrow> read_digits 16 b acc (hex_lower k n) = Some (acc * 16 ^ k + n mod 16 ^ k)"
proof (induction k arbitrary: acc)
  case (Suc k)
  define d where "d = n div 16 ^ k mod 16"
  have n: "n mod 16 ^ Suc k = d * 16 ^ k + n mod 16 ^ k"
    using mod_mult2_eq [of n "16 ^ k" 16] by (simp add: d_def mult.commute)
  then have eq: "acc * 16 ^ Suc k + n mod 16 ^ Suc k = (acc * 16 + d) * 16 ^ k + n mod 16 ^ k"
    by (simp add: algebra_simps)
  have "acc * 16 + d \<le> (acc * 16 + d) * 16 ^ k" by simp
  then have "acc * 16 + d < b" using Suc.prems eq by linarith
  moreover have "to_digit 16 (digit_char d) = Some d"
    by (rule digit_char_cases(1)) (simp add: d_def)
  ultimately show ?case
    using Suc.IH [of "acc * 16 + d"] Suc.prems eq by (simp add: d_def [symmetric] del: power_Suc)
qed simp

lemma read_show_nat: "n < b \<Longrightarrow> read_digits 10 b 0 (show_nat n) = Some n"
proof (induction n rule: show_nat.induct)
  case (1 n)
  show ?case
  proof (cases "n < 10")
    case True
    with 1 show ?thesis by (subst show_nat.simps) (simp add: digit_char_cases)
  next
    case False
    then have "read_digits 10 b 0 (show_nat (n div 10)) = Some (n div 10)" using 1 by simp
    moreover have "to_digit 10 (digit_char (n mod 10)) = Some (n mod 10)" by (rule digit_char_cases(2)) simp_all
    ultimately show ?thesis
      using False 1(2) by (subst show_nat.simps) (simp add: read_digits_append)
  qed
qed

lemma show_nat_start:
  "\<exists>d cs. show_nat n = digit_char d # cs \<and> d < 10"
proof (induction n rule: show_nat.induct)
  case (1 n)
  show ?case
  proof (cases "n < 10")
    case True
    then show ?thesis by (subst show_nat.simps) auto
  next
    case False
    with 1 show ?thesis by (subst show_nat.simps) auto
  qed
qed

lemma from_str_digits:
  assumes "s = digit_char d # cs" and "d < 16"
  shows "from_str_radix r b s = read_digits r b 0 s"
  using assms digit_char_cases(4,5) [of d] by (simp add: from_str_radix_def)

lemma split_once_append: "c \<notin> set xs \<Longrightarrow> split_once c (xs @ c # ys) = Some (xs, ys)"
  by (induction xs) auto

lemma hex_lower_no_dot: "CHR ''.'' \<notin> set (hex_lower k n)"
  by (induction k) (simp_all add: digit_char_cases(3) [symmetric])

lemma parse_format_endpoint_id: "parse_endpoint_id (format_endpoint_id sid bus) = Inr (sid, bus)"
proof -
  have h: "hex_lower 16 n = digit_char (n div 16 ^ 15 mod 16) # hex_lower 15 n" for n
    using hex_lower.simps(2) [of 15 n] by simp
  have "unat (stream_id_to_u64 sid) < 2 ^ 64" using unsigned_less [of "stream_id_to_u64 sid"] by simp
  then have "from_str_radix 16 (2 ^ 64) (hex_lower 16 (unat (stream_id_to_u64 sid))) = Some (unat (stream_id_to_u64 sid))"
    using from_str_digits [OF h] read_hex_lower [of 0 16] by simp
  moreover have "unat bus < 2 ^ 16" using unsigned_less [of bus] by simp
  then have "from_str_radix 10 (2 ^ 16) (show_nat (unat bus)) = Some (unat bus)"
    using show_nat_start [of "unat bus"] from_str_digits read_show_nat by fastforce
  ultimately show ?thesis
    using split_once_append [OF hex_lower_no_dot]
    by (simp add: parse_endpoint_id_def format_endpoint_id_def ENDPOINT_ID_SEP_def)
qed

section \<open>A call through the relay\<close>

lemma from_message_address:
  "from_message msg = Inr (sid, request) \<Longrightarrow>
    parse_endpoint_id (msg_id msg) = Inr (sid, byte_bus_id (abb_info request)) \<and> abb_payload request = msg_payload msg"
  by (auto simp: from_message_def and_then_eq_Inr)

text \<open>The reply carries the address and the operation of the request.\<close>

lemma adapter_call_reply:
  assumes "adapter_call ops now utc a ctx req = (a', Inr reply)"
  shows "parse_endpoint_id (msg_id reply) = parse_endpoint_id (msg_id req)"
    and "\<exists>sid request. from_message req = Inr (sid, request)
      \<and> msg_meta reply ''rcp.op'' = Some (if bmi_op (abb_info request) then ''write'' else ''read'')"
proof -
  from assms obtain sid request server response
    where f: "from_message req = Inr (sid, request)"
      and h: "handle_abb ops (ad_server a) sid request = (server, Inr response)"
      and reply: "reply = response_to_message utc sid response"
    by (auto simp: adapter_call_def split: if_splits sum.splits prod.splits)
  note i = handle_abb_Inr(1) [OF h]
  show "parse_endpoint_id (msg_id reply) = parse_endpoint_id (msg_id req)"
    using from_message_address [OF f] i
    by (simp add: reply response_to_message_def to_message_def parse_format_endpoint_id)
  show "\<exists>sid request. from_message req = Inr (sid, request)
      \<and> msg_meta reply ''rcp.op'' = Some (if bmi_op (abb_info request) then ''write'' else ''read'')"
    using f i by (auto simp: reply response_to_message_def to_message_def)
qed

lemma closed_adapter:
  assumes "ad_closed a"
  shows "adapter_send ops now a ctx msg = (a, Inl RelayClosed)"
    and "adapter_call ops now utc a ctx req = (a, Inl RelayClosed)"
    and "adapter_subscribe a opts = Inl RelayClosed"
  using assms by (simp_all add: adapter_send_def adapter_call_def adapter_subscribe_def)

lemma protocol_round_trip: "protocol_try_from v = Inr p \<longleftrightarrow> v = protocol_to_i32 p"
  by (cases p) (auto simp: protocol_try_from_def)

section \<open>Further facts\<close>

text \<open>The relay keeps the address. Formatting an endpoint id and parsing it gives back the stream and the bus id, and the reply to a call through the adapter parses to the address of the request and names its operation.\<close>

theorem relay_keeps_address:
  assumes "adapter_call ops now utc a ctx req = (a', Inr reply)"
  shows "parse_endpoint_id (format_endpoint_id sid bus) = Inr (sid, bus)
    \<and> parse_endpoint_id (msg_id reply) = parse_endpoint_id (msg_id req)
    \<and> (\<exists>s request. from_message req = Inr (s, request)
        \<and> msg_meta reply ''rcp.op'' = Some (if bmi_op (abb_info request) then ''write'' else ''read''))"
  using parse_format_endpoint_id adapter_call_reply [OF assms] by blast


end
