(* ===== verification/Rcp_Admin.thy ===== *)
theory Rcp_Admin
  imports Rcp_Discovery
begin

text \<open>
  Administration and configuration: the federation router (\<open>src/federation.rs\<close>) and the admin
  server (\<open>src/admin.rs\<close>), which share discovery caches, the service registry (\<open>src/mdns.rs\<close>), the
  dynamic store (\<open>src/dyndata.rs\<close>), and the checks on a server's configuration (\<open>src/config.rs\<close>).
  An \<open>Arc<Mutex<DiscoveryCache>>\<close> is a reference into a heap of caches; maps iterate in an order
  that the code does not fix, so a list of keys is known as a set only.
\<close>

section \<open>Shared caches\<close>

type_synonym cache_ref = nat
type_synonym cache_heap = "cache_ref \<Rightarrow> discovery_cache"

record federation_router =
  fed_peers :: "string \<rightharpoonup> cache_ref"

definition federation_new :: federation_router where
  "federation_new = \<lparr>fed_peers = Map.empty\<rparr>"

definition add_peer :: "federation_router \<Rightarrow> string \<Rightarrow> cache_ref \<Rightarrow> federation_router" where
  "add_peer f vehicle cache = f\<lparr>fed_peers := (fed_peers f)(vehicle \<mapsto> cache)\<rparr>"

definition remove_peer :: "federation_router \<Rightarrow> string \<Rightarrow> federation_router \<times> cache_ref option" where
  "remove_peer f vehicle = (f\<lparr>fed_peers := (fed_peers f)(vehicle := None)\<rparr>, fed_peers f vehicle)"

definition peer_ids :: "federation_router \<Rightarrow> string set" where
  "peer_ids f = dom (fed_peers f)"

definition lookup_peer ::
  "federation_router \<Rightarrow> cache_heap \<Rightarrow> string \<Rightarrow> stream_id \<Rightarrow> discovery_cache_entry rcp_result" where
  "lookup_peer f heap vehicle sid =
    and_then (ok_or (fed_peers f vehicle) NotFound) (\<lambda>cache. ok_or (cache_lookup (heap cache) sid) NotFound)"

record admin_server =
  adm_cache :: cache_ref
  adm_req_count :: u64
  adm_shutdown :: bool

definition admin_new :: "cache_ref \<Rightarrow> admin_server" where
  "admin_new cache = \<lparr>adm_cache = cache, adm_req_count = 0, adm_shutdown = False\<rparr>"

definition record_request :: "admin_server \<Rightarrow> admin_server" where
  "record_request a = a\<lparr>adm_req_count := adm_req_count a + 1\<rparr>"

definition request_count :: "admin_server \<Rightarrow> u64" where
  "request_count a = adm_req_count a"

definition cache_is_empty :: "discovery_cache \<Rightarrow> bool" where
  "cache_is_empty c \<longleftrightarrow> dom (dc_entries c) = {}"

definition cache_len :: "discovery_cache \<Rightarrow> nat" where
  "cache_len c = card (dom (dc_entries c))"

definition is_healthy :: "admin_server \<Rightarrow> cache_heap \<Rightarrow> bool" where
  "is_healthy a heap \<longleftrightarrow> \<not> cache_is_empty (heap (adm_cache a))"

definition is_peer_healthy :: "admin_server \<Rightarrow> cache_heap \<Rightarrow> stream_id \<Rightarrow> instant \<Rightarrow> duration \<Rightarrow> bool" where
  "is_peer_healthy a heap sid now max_age = cache_is_known (heap (adm_cache a)) sid now max_age"

definition peer_count :: "admin_server \<Rightarrow> cache_heap \<Rightarrow> nat" where
  "peer_count a heap = cache_len (heap (adm_cache a))"

definition shutdown_peer ::
  "admin_server \<Rightarrow> cache_heap \<Rightarrow> stream_id \<Rightarrow> (admin_server \<times> cache_heap) \<times> unit rcp_result" where
  "shutdown_peer a heap sid =
    ((a\<lparr>adm_shutdown := True\<rparr>, heap(adm_cache a := fst (cache_invalidate (heap (adm_cache a)) sid))), Inr ())"

definition is_shutting_down :: "admin_server \<Rightarrow> bool" where
  "is_shutting_down a = adm_shutdown a"

section \<open>Registries\<close>

record service_record =
  sr_host :: string
  sr_port :: u16
  sr_stream_id :: stream_id
  sr_txt :: "string \<rightharpoonup> string"

type_synonym mdns_registry = "string \<rightharpoonup> service_record"

definition mdns_announce :: "mdns_registry \<Rightarrow> string \<Rightarrow> service_record \<Rightarrow> mdns_registry" where
  "mdns_announce m name rec = m(name \<mapsto> rec)"

definition mdns_withdraw :: "mdns_registry \<Rightarrow> string \<Rightarrow> mdns_registry" where
  "mdns_withdraw m name = m(name := None)"

definition mdns_resolve :: "mdns_registry \<Rightarrow> string \<Rightarrow> service_record option" where
  "mdns_resolve m name = m name"

definition mdns_names :: "mdns_registry \<Rightarrow> string set" where
  "mdns_names m = dom m"

type_synonym dyn_store = "string \<rightharpoonup> bytes"

definition dyn_set :: "dyn_store \<Rightarrow> string \<Rightarrow> bytes \<Rightarrow> dyn_store" where
  "dyn_set d key v = d(key \<mapsto> v)"

definition dyn_get :: "dyn_store \<Rightarrow> string \<Rightarrow> bytes option" where
  "dyn_get d key = d key"

definition dyn_delete :: "dyn_store \<Rightarrow> string \<Rightarrow> dyn_store \<times> bool" where
  "dyn_delete d key = (d(key := None), d key \<noteq> None)"

definition dyn_keys :: "dyn_store \<Rightarrow> string set" where
  "dyn_keys d = dom d"

definition dyn_is_empty :: "dyn_store \<Rightarrow> bool" where
  "dyn_is_empty d \<longleftrightarrow> dom d = {}"

definition dyn_len :: "dyn_store \<Rightarrow> nat" where
  "dyn_len d = card (dom d)"

section \<open>Configuration\<close>

record rc_server_config =
  cfg_initial_state :: rc_server_state
  cfg_general :: general_registers
  cfg_hw_pin_mapping :: "hw_pin_mapping_entry list"
  cfg_request_streams :: "request_stream_config_entry list"
  cfg_ep_bytebus_id_map :: "ep_byte_bus_id_map_entry list"
  cfg_response_streams :: "response_stream_config_entry list"
  cfg_sequencer_state :: "sequencer_state_entry list"

text \<open>The parsers of other crates are parameters, with the texts of their errors.\<close>

definition config_from_json :: "(string \<Rightarrow> string + rc_server_config) \<Rightarrow> string \<Rightarrow> rc_server_config rcp_result" where
  "config_from_json from_str s =
    (case from_str s of Inl e \<Rightarrow> Inl (Other (''config: invalid JSON: '' @ e)) | Inr cfg \<Rightarrow> Inr cfg)"

definition config_from_yaml :: "(string \<Rightarrow> string + rc_server_config) \<Rightarrow> string \<Rightarrow> rc_server_config rcp_result" where
  "config_from_yaml from_str s =
    (case from_str s of Inl e \<Rightarrow> Inl (Other (''config: invalid YAML: '' @ e)) | Inr cfg \<Rightarrow> Inr cfg)"

definition check_capacity :: "nat \<Rightarrow> u16 \<Rightarrow> unit rcp_result" where
  "check_capacity row_count capacity = (if row_count > unat capacity then Inl InvalidParameter else Inr ())"

definition config_validate :: "rc_server_config \<Rightarrow> unit rcp_result" where
  "config_validate cfg =
    and_then (check_capacity (length (cfg_hw_pin_mapping cfg)) (td_capacity (svr_hw_cfg (cfg_general cfg)))) (\<lambda>_.
    and_then (check_capacity (length (cfg_request_streams cfg)) (td_capacity (svr_request_stream_cfg (cfg_general cfg)))) (\<lambda>_.
    and_then (check_capacity (length (cfg_ep_bytebus_id_map cfg)) (td_capacity (svr_ep_bytebus_id_map (cfg_general cfg)))) (\<lambda>_.
    and_then (check_capacity (length (cfg_response_streams cfg)) (td_capacity (svr_response_stream_cfg (cfg_general cfg)))) (\<lambda>_.
      if length (cfg_sequencer_state cfg) > unat (svr_sequencers_max (cfg_general cfg)) then Inl InvalidParameter
      else
        let rcp_config_populated =
          cfg_request_streams cfg \<noteq> [] \<or> cfg_ep_bytebus_id_map cfg \<noteq> [] \<or> cfg_response_streams cfg \<noteq> []
          \<or> cfg_sequencer_state cfg \<noteq> []
        in if rcp_config_populated \<and> \<not> is_register_reachable (cfg_initial_state cfg) RcpConfig
           then Inl UnauthorizedAccess else Inr ()))))"

section \<open>What they guarantee\<close>

lemma lookup_added:
  "lookup_peer (add_peer f v c) heap v' sid =
    (if v' = v then ok_or (cache_lookup (heap c) sid) NotFound else lookup_peer f heap v' sid)"
  by (simp add: lookup_peer_def add_peer_def)

lemma lookup_removed:
  "lookup_peer (fst (remove_peer f v)) heap v' sid = (if v' = v then Inl NotFound else lookup_peer f heap v' sid)"
  by (simp add: lookup_peer_def remove_peer_def)

text \<open>A peer that one server shuts down is gone for every router that shares the cache, and for no other.\<close>

lemma shutdown_seen_by_router:
  assumes "shutdown_peer a heap sid = ((a', heap'), r)"
  shows "lookup_peer f heap' v x =
    (if fed_peers f v = Some (adm_cache a) \<and> x = sid then Inl NotFound else lookup_peer f heap v x)"
  using assms
  by (cases "fed_peers f v") (auto simp: shutdown_peer_def lookup_peer_def cache_invalidate_def cache_lookup_def)

lemma shutdown_not_healthy:
  "shutdown_peer a heap sid = ((a', heap'), r) \<Longrightarrow> \<not> is_peer_healthy a' heap' sid now max_age \<and> is_shutting_down a'"
  by (auto simp: shutdown_peer_def is_peer_healthy_def cache_invalidate_def cache_is_known_def is_shutting_down_def)

lemma check_capacity_Inr [simp]: "check_capacity n c = Inr u \<longleftrightarrow> n \<le> unat c"
  by (cases u) (auto simp: check_capacity_def)

lemma check_capacity_Inl [simp]: "check_capacity n c = Inl e \<longleftrightarrow> unat c < n \<and> e = InvalidParameter"
  by (auto simp: check_capacity_def)

definition rows_fit :: "rc_server_config \<Rightarrow> bool" where
  "rows_fit cfg \<longleftrightarrow>
     length (cfg_hw_pin_mapping cfg) \<le> unat (td_capacity (svr_hw_cfg (cfg_general cfg)))
     \<and> length (cfg_request_streams cfg) \<le> unat (td_capacity (svr_request_stream_cfg (cfg_general cfg)))
     \<and> length (cfg_ep_bytebus_id_map cfg) \<le> unat (td_capacity (svr_ep_bytebus_id_map (cfg_general cfg)))
     \<and> length (cfg_response_streams cfg) \<le> unat (td_capacity (svr_response_stream_cfg (cfg_general cfg)))
     \<and> length (cfg_sequencer_state cfg) \<le> unat (svr_sequencers_max (cfg_general cfg))"

definition rcp_rows :: "rc_server_config \<Rightarrow> nat" where
  "rcp_rows cfg = length (cfg_request_streams cfg) + length (cfg_ep_bytebus_id_map cfg)
     + length (cfg_response_streams cfg) + length (cfg_sequencer_state cfg)"

lemma check_capacity_cases:
  "and_then (check_capacity n c) f = (if n \<le> unat c then f () else Inl InvalidParameter)"
  by (simp add: check_capacity_def)

lemma config_validate_eq:
  "config_validate cfg =
    (if \<not> rows_fit cfg then Inl InvalidParameter
     else if cfg_initial_state cfg = HwUnconfigured \<and> rcp_rows cfg \<noteq> 0 then Inl UnauthorizedAccess else Inr ())"
proof -
  have "\<not> is_register_reachable s RcpConfig \<longleftrightarrow> s = HwUnconfigured" for s by (cases s) simp_all
  then show ?thesis
    by (auto simp: config_validate_def check_capacity_cases rows_fit_def rcp_rows_def Let_def)
qed

section \<open>Further facts\<close>

text \<open>A peer that is shut down is gone for everyone who shares the cache. After the admin server has shut down a stream, no router that shares its discovery cache finds it and its health check fails, whatever the time, while every other stream and every router over another cache sees what it saw before.\<close>

theorem shutdown_reaches_routers:
  assumes "shutdown_peer a heap sid = ((a', heap'), r)"
  shows "lookup_peer f heap' v x =
      (if fed_peers f v = Some (adm_cache a) \<and> x = sid then Inl NotFound else lookup_peer f heap v x)
    \<and> \<not> is_peer_healthy a' heap' sid now max_age \<and> is_shutting_down a'"
  using shutdown_seen_by_router [OF assms] shutdown_not_healthy [OF assms] by blast


end
