(* ===== verification/Rcp_Evidence.thy ===== *)
theory Rcp_Evidence
  imports Complex_Main Rcp_Avtp Rcp_Acf_Messages "HOL-Library.List_Lexorder" "HOL-Library.Char_ord" "HOL-Library.Multiset"
begin

text \<open>
  The crate's own evidence: the golden wire vectors of \<open>src/conformance.rs\<close>, the risk matrix of
  \<open>src/iso21434.rs\<close>, gap analysis and coverage of \<open>src/certgap.rs\<close>, the invariant checker of
  \<open>src/formal.rs\<close> and the structure generator of \<open>src/codegen.rs\<close>. Hash sets and maps are the
  distinct lists of their elements in the order they happen to iterate; strings are UTF-8 octets,
  ordered as lists. Ratios are real numbers, rounded by a parameter.
\<close>

section \<open>Golden wire vectors\<close>

definition golden_sender_mac_1 :: mac_addr where
  "golden_sender_mac_1 = (0x02, 0x42, 0xAC, 0x11, 0x00, 0x02)"

definition golden_sender_mac_2 :: mac_addr where
  "golden_sender_mac_2 = (0x02, 0x42, 0xAC, 0x11, 0x00, 0x03)"

definition golden_stream_1 :: stream_id where
  "golden_stream_1 = \<lparr>sender_mac = golden_sender_mac_1, unique_id = 0x0007\<rparr>"

definition golden_stream_2 :: stream_id where
  "golden_stream_2 = \<lparr>sender_mac = golden_sender_mac_2, unique_id = 0x0008\<rparr>"

definition ntscf_header_fields :: ntscf_header where
  "ntscf_header_fields =
    \<lparr>ntscf_sequence_num = 0x07, ntscf_data_length = 12, ntscf_stream_id = stream_id_to_u64 golden_stream_1\<rparr>"

definition NTSCF_GOLDEN_BYTES :: bytes where
  "NTSCF_GOLDEN_BYTES = [0x82, 0x80, 0x0C, 0x07, 0x02, 0x42, 0xAC, 0x11, 0x00, 0x02, 0x00, 0x07]"

definition tscf_header_fields :: tscf_header where
  "tscf_header_fields =
    \<lparr>tscf_sequence_num = 0x2A, tscf_avtp_timestamp = 0x1A2B3C4D, tscf_stream_data_length = 19,
     tscf_stream_id = stream_id_to_u64 golden_stream_2\<rparr>"

definition TSCF_GOLDEN_BYTES :: bytes where
  "TSCF_GOLDEN_BYTES =
    [0x05, 0x81, 0x2A, 0x00, 0x02, 0x42, 0xAC, 0x11, 0x00, 0x03, 0x00, 0x08, 0x1A, 0x2B, 0x3C,
     0x4D, 0x00, 0x00, 0x00, 0x00, 0x00, 0x13, 0x00, 0x00]"

definition acf_abb_fields :: acf_abb_message where
  "acf_abb_fields =
    \<lparr>abb_info =
       \<lparr>acf_msg_type = ACF_ABB_MSG_TYPE, acf_msg_length = 3, bmi_pad = 0, bmi_mtv = False, byte_bus_id = 0x005,
        bmi_evt = \<lparr>evt_ack = True, evt_sub_opcode = 0\<rparr>, bmi_hs = False, bmi_cs = False, transaction_num = 0x11,
        bmi_op = False, bmi_rsp = True, bmi_err = False, bmi_ms = False,
        read_size_segment = ReadSizeOrSegment 0x04\<rparr>,
     abb_payload = [0xDE, 0xAD, 0xBE, 0xEF]\<rparr>"

definition ACF_ABB_GOLDEN_BYTES :: bytes where
  "ACF_ABB_GOLDEN_BYTES = [0x1C, 0x03, 0x00, 0x05, 0x80, 0x11, 0x40, 0x04, 0xDE, 0xAD, 0xBE, 0xEF]"

definition acf_gbb_fields :: acf_gbb_message where
  "acf_gbb_fields =
    \<lparr>gbb_info =
       \<lparr>acf_msg_type = ACF_GBB_MSG_TYPE, acf_msg_length = 5, bmi_pad = 2, bmi_mtv = True, byte_bus_id = 0x005,
        bmi_evt = \<lparr>evt_ack = False, evt_sub_opcode = 0\<rparr>, bmi_hs = False, bmi_cs = False, transaction_num = 0x12,
        bmi_op = True, bmi_rsp = True, bmi_err = False, bmi_ms = False,
        read_size_segment = ReadSizeOrSegment 0x00\<rparr>,
     message_timestamp = 0x0102030405060708, gbb_payload = [0xCA, 0xFE]\<rparr>"

definition ACF_GBB_GOLDEN_BYTES :: bytes where
  "ACF_GBB_GOLDEN_BYTES =
    [0x1A, 0x05, 0xA0, 0x05, 0x00, 0x12, 0xC0, 0x00, 0x01, 0x02, 0x03, 0x04, 0x05, 0x06, 0x07,
     0x08, 0xCA, 0xFE, 0x00, 0x00]"

definition NTSCF_ACF_ABB_FRAME_GOLDEN_BYTES :: bytes where
  "NTSCF_ACF_ABB_FRAME_GOLDEN_BYTES =
    [0x82, 0x80, 0x0C, 0x07, 0x02, 0x42, 0xAC, 0x11, 0x00, 0x02, 0x00, 0x07,
     0x1C, 0x03, 0x00, 0x05, 0x80, 0x11, 0x40, 0x04, 0xDE, 0xAD, 0xBE, 0xEF]"

text \<open>What another implementation of the protocol produces for the same fields.\<close>

definition GO_RCP_UNTIMED_HEADER_BYTES :: bytes where
  "GO_RCP_UNTIMED_HEADER_BYTES = [0x82, 0x80, 0x07, 0x00, 0x0D, 0x02, 0x42, 0xAC, 0x11, 0x00, 0x02, 0x00, 0x07]"

definition GO_RCP_TIMED_HEADER_BYTES :: bytes where
  "GO_RCP_TIMED_HEADER_BYTES = [0x83, 0x84, 0x2A, 0x00, 0x12, 0x02, 0x42, 0xAC, 0x11, 0x00, 0x03, 0x00, 0x08, 0x1A, 0x2B, 0x3C, 0x4D]"

definition GO_RCP_KIND_SHORT_MESSAGE_BYTES :: bytes where
  "GO_RCP_KIND_SHORT_MESSAGE_BYTES = [0x01, 0x00, 0x00, 0x0E, 0x05, 0x00, 0x11, 0x90, 0x00, 0x04, 0xDE, 0xAD, 0xBE, 0xEF]"

definition GO_RCP_KIND_LONG_MESSAGE_BYTES :: bytes where
  "GO_RCP_KIND_LONG_MESSAGE_BYTES = [0x02, 0x00, 0x00, 0x14, 0x05, 0x00, 0x12, 0x30, 0x00, 0x00, 0x01, 0x02, 0x03, 0x04, 0x05, 0x06, 0x07, 0x08, 0xCA, 0xFE]"

section \<open>Risk\<close>

datatype feasibility = FeasLow | FeasMedium | FeasHigh | FeasCritical

datatype impact = Negligible | Moderate | Major | Severe

fun feasibility_display :: "feasibility \<Rightarrow> string" where
  "feasibility_display FeasLow = ''low''"
| "feasibility_display FeasMedium = ''medium''"
| "feasibility_display FeasHigh = ''high''"
| "feasibility_display FeasCritical = ''critical''"

fun impact_display :: "impact \<Rightarrow> string" where
  "impact_display Negligible = ''negligible''"
| "impact_display Moderate = ''moderate''"
| "impact_display Major = ''major''"
| "impact_display Severe = ''severe''"

datatype risk_level = RiskLow | RiskMedium | RiskHigh | RiskCritical

text \<open>The derived orders compare the variants by their place.\<close>

fun feasibility_rank :: "feasibility \<Rightarrow> nat" where
  "feasibility_rank FeasLow = 0"
| "feasibility_rank FeasMedium = 1"
| "feasibility_rank FeasHigh = 2"
| "feasibility_rank FeasCritical = 3"

fun impact_rank :: "impact \<Rightarrow> nat" where
  "impact_rank Negligible = 0"
| "impact_rank Moderate = 1"
| "impact_rank Major = 2"
| "impact_rank Severe = 3"

fun risk_rank :: "risk_level \<Rightarrow> nat" where
  "risk_rank RiskLow = 0"
| "risk_rank RiskMedium = 1"
| "risk_rank RiskHigh = 2"
| "risk_rank RiskCritical = 3"

lemma feasibility_rank_inj: "feasibility_rank a = feasibility_rank b \<longleftrightarrow> a = b"
  by (cases a; cases b) simp_all

lemma impact_rank_inj: "impact_rank a = impact_rank b \<longleftrightarrow> a = b"
  by (cases a; cases b) simp_all

instantiation feasibility :: linorder
begin

definition less_eq_feasibility :: "feasibility \<Rightarrow> feasibility \<Rightarrow> bool" where
  "less_eq_feasibility a b \<longleftrightarrow> feasibility_rank a \<le> feasibility_rank b"

definition less_feasibility :: "feasibility \<Rightarrow> feasibility \<Rightarrow> bool" where
  "less_feasibility a b \<longleftrightarrow> feasibility_rank a < feasibility_rank b"

instance
  by standard (auto simp: less_eq_feasibility_def less_feasibility_def feasibility_rank_inj [symmetric])

end

instantiation impact :: linorder
begin

definition less_eq_impact :: "impact \<Rightarrow> impact \<Rightarrow> bool" where
  "less_eq_impact a b \<longleftrightarrow> impact_rank a \<le> impact_rank b"

definition less_impact :: "impact \<Rightarrow> impact \<Rightarrow> bool" where
  "less_impact a b \<longleftrightarrow> impact_rank a < impact_rank b"

instance
  by standard (auto simp: less_eq_impact_def less_impact_def impact_rank_inj [symmetric])

end

fun risk_level_of :: "feasibility \<Rightarrow> impact \<Rightarrow> risk_level" where
  "risk_level_of _ Negligible = RiskLow"
| "risk_level_of FeasLow _ = RiskLow"
| "risk_level_of FeasMedium Moderate = RiskMedium"
| "risk_level_of FeasMedium _ = RiskHigh"
| "risk_level_of FeasHigh Moderate = RiskHigh"
| "risk_level_of FeasHigh _ = RiskCritical"
| "risk_level_of FeasCritical _ = RiskCritical"

record threat =
  threat_id :: string
  threat_description :: string
  threat_feasibility :: feasibility
  threat_impact :: impact

definition threat_risk_level :: "threat \<Rightarrow> risk_level" where
  "threat_risk_level t = risk_level_of (threat_feasibility t) (threat_impact t)"

definition filter_by_risk :: "threat list \<Rightarrow> risk_level \<Rightarrow> threat list" where
  "filter_by_risk threats least = filter (\<lambda>t. risk_rank (threat_risk_level t) \<ge> risk_rank least) threats"

section \<open>Gap analysis\<close>

record gap_report =
  gap_unimplemented :: "string list"
  gap_untested :: "string list"
  gap_undeclared :: "string list"

definition has_gaps :: "gap_report \<Rightarrow> bool" where
  "has_gaps r \<longleftrightarrow> gap_unimplemented r \<noteq> [] \<or> gap_untested r \<noteq> [] \<or> gap_undeclared r \<noteq> []"

definition analyse :: "string list \<Rightarrow> string list \<Rightarrow> string list \<Rightarrow> gap_report" where
  "analyse declared implemented tested =
    \<lparr>gap_unimplemented = sort (filter (\<lambda>r. r \<notin> set implemented) declared),
     gap_untested = sort (filter (\<lambda>r. r \<notin> set tested) declared),
     gap_undeclared = sort (filter (\<lambda>r. r \<notin> set declared) tested)\<rparr>"

definition gap_coverage :: "(real \<Rightarrow> real) \<Rightarrow> string list \<Rightarrow> string list \<Rightarrow> real" where
  "gap_coverage rnd declared covered =
    (if declared = [] then 1
     else let matched = length (filter (\<lambda>r. r \<in> set covered) declared)
          in rnd (rnd (real matched) / rnd (real (length declared))))"

text \<open>The prefix of a requirement ends before its last hyphen; without one it is the whole name.\<close>

definition req_prefix :: "string \<Rightarrow> string" where
  "req_prefix req = (let r = dropWhile (\<lambda>c. c \<noteq> CHR ''-'') (rev req) in if r = [] then req else rev (tl r))"

fun prefix_groups :: "string list \<Rightarrow> string list \<Rightarrow> (string \<rightharpoonup> nat \<times> nat) \<Rightarrow> (string \<rightharpoonup> nat \<times> nat)" where
  "prefix_groups [] covered groups = groups"
| "prefix_groups (req # declared) covered groups =
    (let prefix = req_prefix req;
         (total, covered_so_far) = (case groups prefix of Some e \<Rightarrow> e | None \<Rightarrow> (0, 0))
     in prefix_groups declared covered
          (groups(prefix \<mapsto> (total + 1, if req \<in> set covered then covered_so_far + 1 else covered_so_far))))"

definition coverage_by_prefix :: "(real \<Rightarrow> real) \<Rightarrow> string list \<Rightarrow> string list \<Rightarrow> (string \<rightharpoonup> real)" where
  "coverage_by_prefix rnd declared covered =
    map_option (\<lambda>(total, done_count). rnd (rnd (real done_count) / rnd (real total))) \<circ> prefix_groups declared covered Map.empty"

section \<open>Invariant checks\<close>

record 's named_invariant =
  inv_name :: string
  inv_predicate :: "'s \<Rightarrow> bool"

record check_result =
  passed :: "string list"
  failed :: "string list"

definition all_passed :: "check_result \<Rightarrow> bool" where
  "all_passed r \<longleftrightarrow> failed r = []"

definition check_all :: "'s \<Rightarrow> 's named_invariant list \<Rightarrow> check_result" where
  "check_all state ivs =
    foldl (\<lambda>r iv. if inv_predicate iv state then r\<lparr>passed := passed r @ [inv_name iv]\<rparr>
                   else r\<lparr>failed := failed r @ [inv_name iv]\<rparr>) \<lparr>passed = [], failed = []\<rparr> ivs"

definition violation :: "'s list \<Rightarrow> 's named_invariant \<Rightarrow> 's option" where
  "violation states iv = List.find (\<lambda>s. \<not> inv_predicate iv s) states"

section \<open>Generated structures\<close>

datatype field_type = FtU8 | FtU16 | FtU32 | FtU64 | FtBool | FtString | FtBytes

fun rust_type :: "field_type \<Rightarrow> string" where
  "rust_type FtU8 = ''u8''"
| "rust_type FtU16 = ''u16''"
| "rust_type FtU32 = ''u32''"
| "rust_type FtU64 = ''u64''"
| "rust_type FtBool = ''bool''"
| "rust_type FtString = ''String''"
| "rust_type FtBytes = ''Vec<u8>''"

record schema_field =
  field_name :: string
  field_ftype :: field_type
  field_optional :: bool

record struct_schema =
  schema_name :: string
  schema_fields :: "schema_field list"

definition newline :: string where
  "newline = [char_of (10 :: nat)]"

definition field_line :: "schema_field \<Rightarrow> string" where
  "field_line f =
    (let ty = rust_type (field_ftype f) in
     if field_optional f then ''    pub '' @ field_name f @ '': Option<'' @ ty @ ''>,'' @ newline
     else ''    pub '' @ field_name f @ '': '' @ ty @ '','' @ newline)"

definition generate_structs :: "struct_schema list \<Rightarrow> string" where
  "generate_structs schemas =
    concat (map (\<lambda>schema.
      ''#[derive(Debug, Clone, Default)]'' @ newline @ ''pub struct '' @ schema_name schema @ '' {'' @ newline
      @ concat (map field_line (schema_fields schema)) @ ''}'' @ newline @ newline) schemas)"

definition field_type_of :: "string \<Rightarrow> field_type" where
  "field_type_of s =
    (if s = ''u8'' then FtU8 else if s = ''u16'' then FtU16 else if s = ''u32'' then FtU32
     else if s = ''u64'' then FtU64 else if s = ''bool'' then FtBool else if s = ''bytes'' then FtBytes
     else FtString)"

definition parse_field :: "string \<times> string \<Rightarrow> schema_field" where
  "parse_field = (\<lambda>(fname, ty).
    let optional = (fname \<noteq> [] \<and> last fname = CHR ''?'') in
    \<lparr>field_name = (if optional then butlast fname else fname), field_ftype = field_type_of ty,
     field_optional = optional\<rparr>)"

definition parse_schema :: "(string \<times> (string \<times> string) list) list \<Rightarrow> struct_schema list" where
  "parse_schema m =
    map (\<lambda>(name, fields). \<lparr>schema_name = name, schema_fields = map parse_field (sort_key fst fields)\<rparr>)
      (sort_key fst m)"

section \<open>What they guarantee\<close>

lemma risk_level_monotone:
  "f \<le> f' \<Longrightarrow> i \<le> i' \<Longrightarrow> risk_rank (risk_level_of f i) \<le> risk_rank (risk_level_of f' i')"
  by (cases f; cases f'; cases i; cases i') (simp_all add: less_eq_feasibility_def less_eq_impact_def)

lemma sort_distinct_set:
  fixes xs ys :: "string list"
  shows "distinct xs \<Longrightarrow> distinct ys \<Longrightarrow> set xs = set ys \<Longrightarrow> sort xs = sort ys"
  by (simp add: sorted_distinct_set_unique)

text \<open>A report depends on the sets alone, not on the order they iterate in.\<close>

lemma analyse_order:
  assumes "distinct d" "distinct d'" "distinct t" "distinct t'"
    and "set d = set d'" "set i = set i'" "set t = set t'"
  shows "analyse d i t = analyse d' i' t'"
  using assms by (auto simp: analyse_def intro!: sort_distinct_set)

lemma has_gaps_iff:
  "has_gaps (analyse d i t) \<longleftrightarrow> \<not> (set d \<subseteq> set i \<and> set d = set t)"
proof -
  have "sort xs = [] \<longleftrightarrow> xs = []" for xs :: "string list" by (metis length_0_conv length_sort)
  then show ?thesis by (auto simp: has_gaps_def analyse_def filter_empty_conv)
qed

text \<open>A group counts the requirements of its prefix, and those of them that are covered.\<close>

lemma prefix_groups_counts:
  "prefix_groups declared covered groups k =
    (let mine = filter (\<lambda>r. req_prefix r = k) declared; (t, d) = (case groups k of Some e \<Rightarrow> e | None \<Rightarrow> (0, 0)) in
     if mine = [] then groups k
     else Some (t + length mine, d + length (filter (\<lambda>r. r \<in> set covered) mine)))"
  by (induction declared arbitrary: groups) (auto simp: Let_def filter_empty_conv split: option.splits prod.splits)

text \<open>The ratio of a prefix is the coverage of its own requirements.\<close>

lemma coverage_by_prefix_is_coverage:
  "coverage_by_prefix rnd declared covered k =
    (let mine = filter (\<lambda>r. req_prefix r = k) declared in if mine = [] then None else Some (gap_coverage rnd mine covered))"
  by (simp add: coverage_by_prefix_def prefix_groups_counts gap_coverage_def Let_def)

lemma check_all_loop:
  "foldl (\<lambda>r iv. if inv_predicate iv state then r\<lparr>passed := passed r @ [inv_name iv]\<rparr>
      else r\<lparr>failed := failed r @ [inv_name iv]\<rparr>) r ivs =
    \<lparr>passed = passed r @ map inv_name (filter (\<lambda>iv. inv_predicate iv state) ivs),
     failed = failed r @ map inv_name (filter (\<lambda>iv. \<not> inv_predicate iv state) ivs)\<rparr>"
  by (induction ivs arbitrary: r) simp_all

lemma all_passed_iff: "all_passed (check_all state ivs) \<longleftrightarrow> (\<forall>iv\<in>set ivs. inv_predicate iv state)"
  by (simp add: all_passed_def check_all_def check_all_loop filter_empty_conv)

lemma violation_None: "violation states iv = None \<longleftrightarrow> (\<forall>s\<in>set states. inv_predicate iv s)"
  by (auto simp: violation_def find_None_iff)

lemma sort_key_order:
  fixes xs ys :: "(string \<times> 'b) list"
  assumes "distinct (map fst xs)" and "mset xs = mset ys"
  shows "sort_key fst xs = sort_key fst ys"
proof (rule sort_key_inj_key_eq)
  show "mset xs = mset (sort_key fst ys)" using assms(2) by simp
  show "inj_on fst (set xs)" using assms(1) by (simp add: distinct_map)
qed simp

lemma parse_schema_order:
  assumes "distinct (map fst m)" and "mset m = mset m'"
  shows "parse_schema m = parse_schema m'"
  using sort_key_order [OF assms] by (simp add: parse_schema_def)

text \<open>The golden vectors are what the encoders produce and the decoders read.\<close>

lemma golden_ntscf: "encode_ntscf_header ntscf_header_fields = Inr NTSCF_GOLDEN_BYTES"
  by code_simp

lemma golden_tscf: "encode_tscf_header tscf_header_fields = Inr TSCF_GOLDEN_BYTES"
  by code_simp

lemma golden_abb: "encode_acf_abb acf_abb_fields = Inr ACF_ABB_GOLDEN_BYTES"
  by (simp add: acf_abb_fields_def ACF_ABB_GOLDEN_BYTES_def acf_eval)

lemma golden_gbb: "encode_acf_gbb acf_gbb_fields = Inr ACF_GBB_GOLDEN_BYTES"
  by (simp add: acf_gbb_fields_def ACF_GBB_GOLDEN_BYTES_def acf_eval)

lemma golden_frame:
  "encode_ntscf_frame golden_stream_1 0x07 ACF_ABB_GOLDEN_BYTES = Inr NTSCF_ACF_ABB_FRAME_GOLDEN_BYTES"
  using golden_ntscf
  by (simp add: encode_ntscf_frame_def u16_try_from_def ntscf_header_fields_def ACF_ABB_GOLDEN_BYTES_def
      NTSCF_GOLDEN_BYTES_def NTSCF_ACF_ABB_FRAME_GOLDEN_BYTES_def)

text \<open>The other implementation writes the same stream ids; headers and messages as a whole differ.\<close>

lemma other_implementation_compared:
  "subslice 5 8 GO_RCP_UNTIMED_HEADER_BYTES = subslice 4 8 NTSCF_GOLDEN_BYTES"
  "subslice 5 8 GO_RCP_TIMED_HEADER_BYTES = subslice 4 8 TSCF_GOLDEN_BYTES"
  "GO_RCP_UNTIMED_HEADER_BYTES \<noteq> NTSCF_GOLDEN_BYTES" "GO_RCP_TIMED_HEADER_BYTES \<noteq> TSCF_GOLDEN_BYTES"
  "GO_RCP_KIND_SHORT_MESSAGE_BYTES \<noteq> ACF_ABB_GOLDEN_BYTES" "GO_RCP_KIND_LONG_MESSAGE_BYTES \<noteq> ACF_GBB_GOLDEN_BYTES"
  by code_simp+

end
