(* ===== verification/Rcp_Rawsocket.thy ===== *)
theory Rcp_Rawsocket
  imports Rcp_Udp
begin

text \<open>
  The raw Ethernet socket of \<open>src/l2.rs\<close> on Linux, over the calls of the \<open>nix\<close> crate, which are
  parameters, and the transport over it. Durations are whole nanoseconds.
\<close>

section \<open>The socket\<close>

text \<open>
  A \<open>TimeVal\<close> is seconds and microseconds. For \<open>SO_RCVTIMEO\<close> the zero value means to wait without
  a limit. A receive gets the size of the buffer; \<open>EAGAIN\<close> is told apart from other errors.
\<close>

type_synonym timeval = "int \<times> int"

record ('os, 'link) raw_os =
  ro_getifaddrs :: "string + (string \<times> 'link option) list"
  ro_link_mac :: "'link \<Rightarrow> mac_addr option"
  ro_socket :: "string + 'os"
  ro_bind :: "'os \<Rightarrow> 'link \<Rightarrow> 'os \<times> (string + unit)"
  ro_set_receive_timeout :: "'os \<Rightarrow> timeval \<Rightarrow> 'os \<times> (string + unit)"
  ro_sendto :: "'os \<Rightarrow> bytes \<Rightarrow> 'link \<Rightarrow> 'os \<times> (string + nat)"
  ro_recvfrom :: "'os \<Rightarrow> nat \<Rightarrow> 'os \<times> (recv_error + bytes)"
  ro_debug_str :: "string \<Rightarrow> string"

record ('os, 'link) raw_ethernet_socket =
  raw_fd :: 'os
  raw_bind_addr :: 'link
  raw_mac :: mac_addr

fun find_link :: "(string \<times> 'link option) list \<Rightarrow> string \<Rightarrow> 'link option" where
  "find_link [] name = None"
| "find_link ((n, a) # rest) name = (if n = name \<and> a \<noteq> None then a else find_link rest name)"

fun l2_error :: "string + 'a \<Rightarrow> string \<Rightarrow> 'a rcp_result" where
  "l2_error (Inl e) what = Inl (Other (what @ e))"
| "l2_error (Inr x) what = Inr x"

definition raw_bind :: "('os, 'link) raw_os \<Rightarrow> string \<Rightarrow> ('os, 'link) raw_ethernet_socket rcp_result" where
  "raw_bind os name =
    and_then (l2_error (ro_getifaddrs os) ''l2: getifaddrs: '') (\<lambda>addrs.
    and_then (ok_or (find_link addrs name)
        (Other (''l2: interface '' @ ro_debug_str os name @ '' not found, or has no AF_PACKET link-layer address''))) (\<lambda>link.
    and_then (ok_or (ro_link_mac os link)
        (Other (''l2: interface '' @ ro_debug_str os name @ '' has no MAC address (halen != 6)''))) (\<lambda>mac.
    and_then (case ro_socket os of
        Inl e \<Rightarrow> Inl (Other (''l2: socket(AF_PACKET, SOCK_RAW): '' @ e @ '' (needs CAP_NET_RAW or root)''))
      | Inr fd \<Rightarrow> Inr fd) (\<lambda>fd.
    case ro_bind os fd link of
      (fd', Inl e) \<Rightarrow> Inl (Other (''l2: bind '' @ ro_debug_str os name @ '': '' @ e))
    | (fd', Inr _) \<Rightarrow> Inr \<lparr>raw_fd = fd', raw_bind_addr = link, raw_mac = mac\<rparr>))))"

text \<open>On other systems there is no socket to use: \<open>bind\<close> fails, and the other methods cannot be reached.\<close>

definition raw_bind_elsewhere :: "string \<Rightarrow> ('os, 'link) raw_ethernet_socket rcp_result" where
  "raw_bind_elsewhere interface_name =
    Inl (Other (''l2::RawEthernetSocket is only implemented on target_os = '' @ [CHR 0x22] @ ''linux'' @ [CHR 0x22]
      @ '' (AF_PACKET/SOCK_RAW raw sockets are a Linux-specific facility); this platform has no real L2Socket implementation''))"

text \<open>\<open>as_secs() as i64\<close> and \<open>subsec_micros() as i64\<close>.\<close>

definition timeval_of :: "duration option \<Rightarrow> timeval" where
  "timeval_of timeout =
    (case timeout of
       Some d \<Rightarrow> (sint (of_nat (d div 10 ^ 9) :: u64), sint (of_nat (d mod 10 ^ 9 div 1000) :: u64))
     | None \<Rightarrow> (0, 0))"

definition raw_set_recv_timeout ::
  "('os, 'link) raw_os \<Rightarrow> ('os, 'link) raw_ethernet_socket \<Rightarrow> duration option
    \<Rightarrow> ('os, 'link) raw_ethernet_socket \<times> unit rcp_result" where
  "raw_set_recv_timeout os s timeout =
    (case ro_set_receive_timeout os (raw_fd s) (timeval_of timeout) of
       (fd, r) \<Rightarrow> (s\<lparr>raw_fd := fd\<rparr>, l2_error r ''l2: setsockopt(SO_RCVTIMEO): ''))"

definition raw_send ::
  "('os, 'link) raw_os \<Rightarrow> ('os, 'link) raw_ethernet_socket \<Rightarrow> bytes
    \<Rightarrow> ('os, 'link) raw_ethernet_socket \<times> nat rcp_result" where
  "raw_send os s frame =
    (case ro_sendto os (raw_fd s) frame (raw_bind_addr s) of
       (fd, r) \<Rightarrow> (s\<lparr>raw_fd := fd\<rparr>, l2_error r ''l2: sendto: ''))"

definition raw_recv ::
  "('os, 'link) raw_os \<Rightarrow> ('os, 'link) raw_ethernet_socket \<Rightarrow> duration option
    \<Rightarrow> ('os, 'link) raw_ethernet_socket \<times> bytes rcp_result" where
  "raw_recv os s timeout =
    (case raw_set_recv_timeout os s timeout of
       (s1, Inl e) \<Rightarrow> (s1, Inl e)
     | (s1, Inr _) \<Rightarrow>
         (case ro_recvfrom os (raw_fd s1) 65535 of
            (fd, r) \<Rightarrow>
              (s1\<lparr>raw_fd := fd\<rparr>,
               case r of
                 Inl WouldBlockOrTimedOut \<Rightarrow> Inl Timeout
               | Inl (RecvError e) \<Rightarrow> Inl (Other (''l2: recvfrom: '' @ e))
               | Inr frame \<Rightarrow> Inr frame)))"

definition raw_socket_ops :: "('os, 'link) raw_os \<Rightarrow> ('os, 'link) raw_ethernet_socket l2_socket" where
  "raw_socket_ops os = \<lparr>l2_send = raw_send os, l2_recv = raw_recv os\<rparr>"

definition l2_transport_new :: "stream_id \<Rightarrow> 's \<Rightarrow> mac_addr \<Rightarrow> mac_addr \<Rightarrow> 's l2_transport" where
  "l2_transport_new sid s dest src =
    \<lparr>l2_local_stream = sid, l2_socket_of = s, l2_dest_mac = dest, l2_src_mac = src\<rparr>"

definition l2_transport_close :: "'s l2_transport \<Rightarrow> unit rcp_result" where
  "l2_transport_close t = Inr ()"

section \<open>Binding\<close>

lemma find_link_Some: "find_link addrs name = Some l \<Longrightarrow> (name, Some l) \<in> set addrs"
  by (induction addrs name rule: find_link.induct) (auto split: if_splits)

lemma find_link_None: "find_link addrs name = None \<longleftrightarrow> (\<forall>l. (name, Some l) \<notin> set addrs)"
  by (induction addrs name rule: find_link.induct) auto

text \<open>A bound socket has the address and the hardware address of the named interface.\<close>

lemma raw_bind_Inr:
  assumes "raw_bind os name = Inr s"
  shows "\<exists>addrs. ro_getifaddrs os = Inr addrs \<and> (name, Some (raw_bind_addr s)) \<in> set addrs
    \<and> ro_link_mac os (raw_bind_addr s) = Some (raw_mac s)"
proof -
  have e: "l2_error r w = Inr x \<longleftrightarrow> r = Inr x" for r :: "string + (string \<times> 'b option) list" and w x
    by (cases r) auto
  from assms obtain addrs link mac fd where "ro_getifaddrs os = Inr addrs" "find_link addrs name = Some link"
    "ro_link_mac os link = Some mac"
    and b: "(case ro_bind os fd link of
        (fd', Inl e) \<Rightarrow> Inl (Other (''l2: bind '' @ ro_debug_str os name @ '': '' @ e))
      | (fd', Inr _) \<Rightarrow> Inr \<lparr>raw_fd = fd', raw_bind_addr = link, raw_mac = mac\<rparr>) = Inr s"
    unfolding raw_bind_def and_then_eq_Inr ok_or_eq_Inr e by blast
  moreover have "raw_bind_addr s = link \<and> raw_mac s = mac"
    using b by (auto split: prod.splits sum.splits)
  ultimately show ?thesis by (auto dest: find_link_Some)
qed

section \<open>Time-outs below a microsecond\<close>

text \<open>A time-out that is no whole microsecond is cut off, and one below a microsecond becomes none.\<close>

lemma timeval_small: "d < 1000 \<Longrightarrow> timeval_of (Some d) = timeval_of None"
  by (simp add: timeval_of_def)

lemma timeval_zero_iff:
  assumes "d div 10 ^ 9 < 2 ^ 64"
  shows "timeval_of (Some d) = (0, 0) \<longleftrightarrow> d < 1000"
proof
  assume z: "timeval_of (Some d) = (0, 0)"
  have eq: "sint (of_nat n :: u64) = 0 \<longleftrightarrow> n = 0" if "n < 2 ^ 64" for n
  proof -
    have "sint (of_nat n :: u64) = 0 \<longleftrightarrow> (of_nat n :: u64) = 0"
      using word_eq_iff_signed [of "of_nat n :: u64" 0, where ?'a = int] by simp
    then show ?thesis using that by (auto simp: word_of_nat_eq_0_iff dest: dvd_imp_le)
  qed
  have "d mod 10 ^ 9 div 1000 < 2 ^ 64"
    by (rule le_less_trans [of _ "10 ^ 9"]) (auto intro: div_le_dividend order.trans less_imp_le)
  with z eq [OF assms] eq have "d div 10 ^ 9 = 0 \<and> d mod 10 ^ 9 div 1000 = 0"
    by (simp add: timeval_of_def)
  then show "d < 1000" by (auto simp: div_eq_0_iff)
qed (simp add: timeval_of_def)

lemma raw_recv_small: "d < 1000 \<Longrightarrow> raw_recv os s (Some d) = raw_recv os s None"
  by (simp add: raw_recv_def raw_set_recv_timeout_def timeval_small)

lemma l2_exchange_small:
  assumes "0 < d" and "d < 1000"
  shows "l2_exchange (raw_socket_ops os) t encoded n (Some d) finish
    = l2_exchange (raw_socket_ops os) t encoded n None finish"
proof -
  have r: "l2_recv (raw_socket_ops os) s (Some d) = l2_recv (raw_socket_ops os) s None" for s
    by (simp add: raw_socket_ops_def raw_recv_small [OF assms(2)])
  show ?thesis using assms(1) unfolding l2_exchange_def r by simp
qed

section \<open>Frames of others\<close>

text \<open>The socket delivers every frame of the interface; the first one after the request is the reply.\<close>

lemma l2_exchange_foreign:
  assumes "timeout \<noteq> Some 0" and "and_then encoded (encode_ntscf_frame (l2_local_stream t) n) = Inr ntscf"
    and "l2_send ops (l2_socket_of t) (encode_ethernet_frame (l2_dest_mac t) (l2_src_mac t) ntscf) = (s1, Inr sent)"
    and "l2_recv ops s1 timeout = (s2, Inr frame)" and "decode_ethernet_frame frame = Inl e"
  shows "l2_exchange ops t encoded n timeout finish = (t\<lparr>l2_socket_of := s2\<rparr>, Inl e)"
  using assms by (simp add: l2_exchange_def)

lemma foreign_ethertype:
  "14 \<le> length frame \<Longrightarrow> from_be_bytes [frame ! 12, frame ! 13] \<noteq> ETHERTYPE_AVTP \<Longrightarrow>
    \<exists>m. decode_ethernet_frame frame = Inl (Other m)"
  by (simp add: decode_ethernet_frame_def ETHERNET_HEADER_LEN_def Let_def)

section \<open>Properties\<close>

text \<open>C40: a call over a raw socket with a time-out below a microsecond has none. The time-out is cut to whole microseconds, and zero means to wait without a limit, so the call does what the call without a time-out does; the cut value is zero for no other time-out.\<close>

theorem small_timeout_is_none:
  assumes "0 < d" and "d < 1000"
  shows "l2_send_acf_abb (raw_socket_ops os) t msg n (Some d) = l2_send_acf_abb (raw_socket_ops os) t msg n None
    \<and> l2_send_acf_gbb (raw_socket_ops os) t gmsg n (Some d) = l2_send_acf_gbb (raw_socket_ops os) t gmsg n None
    \<and> (\<forall>d'. d' div 10 ^ 9 < 2 ^ 64 \<longrightarrow> (timeval_of (Some d') = timeval_of None \<longleftrightarrow> d' < 1000))"
  unfolding l2_send_acf_abb_def l2_send_acf_gbb_def l2_exchange_small [OF assms]
  using timeval_zero_iff by (simp add: timeval_of_def [of None])

lemma small_timeout_is_none_witness:
  "timeval_of (Some 999) = timeval_of None \<and> timeval_of (Some 1000) \<noteq> timeval_of None
    \<and> (\<forall>(os :: (unit, unit) raw_os) t m. l2_send_acf_abb (raw_socket_ops os) t m 0 (Some 500)
      = l2_send_acf_abb (raw_socket_ops os) t m 0 None)"
proof -
  have c: "l2_send_acf_abb (raw_socket_ops os) t m 0 (Some 500) = l2_send_acf_abb (raw_socket_ops os) t m 0 None
      \<and> (d div 10 ^ 9 < 2 ^ 64 \<longrightarrow> (timeval_of (Some d) = timeval_of None \<longleftrightarrow> d < 1000))"
    for os :: "(unit, unit) raw_os" and t m d
    using small_timeout_is_none [of 500 os t m 0] by simp
  from c [of _ _ _ 999] c [of _ _ _ 1000] c show ?thesis by simp
qed


end
