(* ===== verification/Rcp_Capi.thy ===== *)
theory Rcp_Capi
  imports Rcp_Acf Rcp_Avtp
begin

text \<open>
  The C view of the crate's types, \<open>src/capi.rs\<close>: structures with only C-compatible fields for a
  stream id, the header of a message and the address of a request, and the error codes, each with
  its conversions.
\<close>

section \<open>Structures\<close>

record c_stream_id =
  c_sender_mac :: mac_addr
  c_unique_id :: u16

definition c_of_stream_id :: "stream_id \<Rightarrow> c_stream_id" where
  "c_of_stream_id sid = \<lparr>c_sender_mac = sender_mac sid, c_unique_id = unique_id sid\<rparr>"

definition stream_id_of_c :: "c_stream_id \<Rightarrow> stream_id" where
  "stream_id_of_c c = \<lparr>sender_mac = c_sender_mac c, unique_id = c_unique_id c\<rparr>"

record c_byte_message_info =
  c_acf_msg_type :: u8
  c_acf_msg_length :: u16
  c_pad :: u8
  c_mtv :: bool
  c_byte_bus_id :: u16
  c_evt_ack :: bool
  c_evt_sub_opcode :: u8
  c_hs :: bool
  c_cs :: bool
  c_transaction_num :: u8
  c_op :: bool
  c_rsp :: bool
  c_err :: bool
  c_ms :: bool
  c_read_size_segment :: u16

definition c_of_info :: "byte_message_info \<Rightarrow> c_byte_message_info" where
  "c_of_info info =
    \<lparr>c_acf_msg_type = acf_msg_type info, c_acf_msg_length = acf_msg_length info, c_pad = bmi_pad info,
     c_mtv = bmi_mtv info, c_byte_bus_id = byte_bus_id info, c_evt_ack = evt_ack (bmi_evt info),
     c_evt_sub_opcode = evt_sub_opcode (bmi_evt info), c_hs = bmi_hs info, c_cs = bmi_cs info,
     c_transaction_num = transaction_num info, c_op = bmi_op info, c_rsp = bmi_rsp info, c_err = bmi_err info,
     c_ms = bmi_ms info, c_read_size_segment = as_read_size (read_size_segment info)\<rparr>"

definition info_of_c :: "c_byte_message_info \<Rightarrow> byte_message_info" where
  "info_of_c c =
    \<lparr>acf_msg_type = c_acf_msg_type c, acf_msg_length = c_acf_msg_length c, bmi_pad = c_pad c,
     bmi_mtv = c_mtv c, byte_bus_id = c_byte_bus_id c,
     bmi_evt = \<lparr>evt_ack = c_evt_ack c, evt_sub_opcode = c_evt_sub_opcode c\<rparr>, bmi_hs = c_hs c, bmi_cs = c_cs c,
     transaction_num = c_transaction_num c, bmi_op = c_op c, bmi_rsp = c_rsp c, bmi_err = c_err c,
     bmi_ms = c_ms c, read_size_segment = ReadSizeOrSegment (c_read_size_segment c)\<rparr>"

record c_abb_request =
  creq_stream :: c_stream_id
  creq_info :: c_byte_message_info

definition c_abb_request_new :: "stream_id \<Rightarrow> byte_message_info \<Rightarrow> c_abb_request" where
  "c_abb_request_new sid info = \<lparr>creq_stream = c_of_stream_id sid, creq_info = c_of_info info\<rparr>"

definition c_request_stream_id :: "c_abb_request \<Rightarrow> stream_id" where
  "c_request_stream_id r = stream_id_of_c (creq_stream r)"

definition c_request_info :: "c_abb_request \<Rightarrow> byte_message_info" where
  "c_request_info r = info_of_c (creq_info r)"

record c_abb_response =
  cresp_stream :: c_stream_id
  cresp_info :: c_byte_message_info

definition c_abb_response_new :: "stream_id \<Rightarrow> byte_message_info \<Rightarrow> c_abb_response" where
  "c_abb_response_new sid info = \<lparr>cresp_stream = c_of_stream_id sid, cresp_info = c_of_info info\<rparr>"

definition c_response_stream_id :: "c_abb_response \<Rightarrow> stream_id" where
  "c_response_stream_id r = stream_id_of_c (cresp_stream r)"

definition c_response_info :: "c_abb_response \<Rightarrow> byte_message_info" where
  "c_response_info r = info_of_c (cresp_info r)"

section \<open>Error codes\<close>

datatype c_error =
    COk | CClosed | CNotConnected | CTimeout | CPayloadTooLarge | CShortFrame
  | CUnsupportedCmd | CSequencerNotKnown | CUnauthorizedAccess | CLockedMemAccess | CRequestCanceled | CRequestNotFound | CEpError | CEpNotFound
  | CReqStorageOvfl | CRequestRejected | CInvalidParameter | CChainAborted | CChainError
  | CCrcError | CInvalidSize | CPwmInNoSignal | CPociFailure | CPresentationTimeTooFar | CGptpFail | CConfigWriteNotImplemented | COther

text \<open>The discriminants, as C sees them.\<close>

fun c_error_code :: "c_error \<Rightarrow> int" where
  "c_error_code COk = 0"
| "c_error_code CClosed = 1"
| "c_error_code CNotConnected = 2"
| "c_error_code CTimeout = 3"
| "c_error_code CPayloadTooLarge = 4"
| "c_error_code CShortFrame = 5"
| "c_error_code CUnsupportedCmd = 10"
| "c_error_code CSequencerNotKnown = 11"
| "c_error_code CUnauthorizedAccess = 12"
| "c_error_code CLockedMemAccess = 13"
| "c_error_code CRequestCanceled = 14"
| "c_error_code CRequestNotFound = 15"
| "c_error_code CEpError = 16"
| "c_error_code CEpNotFound = 17"
| "c_error_code CReqStorageOvfl = 18"
| "c_error_code CRequestRejected = 19"
| "c_error_code CInvalidParameter = 20"
| "c_error_code CChainAborted = 21"
| "c_error_code CChainError = 22"
| "c_error_code CCrcError = 23"
| "c_error_code CInvalidSize = 24"
| "c_error_code CPwmInNoSignal = 25"
| "c_error_code CPociFailure = 26"
| "c_error_code CPresentationTimeTooFar = 27"
| "c_error_code CGptpFail = 28"
| "c_error_code CConfigWriteNotImplemented = 29"
| "c_error_code COther = 99"

fun c_error_of :: "rcp_error \<Rightarrow> c_error" where
  "c_error_of Closed = CClosed"
| "c_error_of NotConnected = CNotConnected"
| "c_error_of Timeout = CTimeout"
| "c_error_of PayloadTooLarge = CPayloadTooLarge"
| "c_error_of ShortFrame = CShortFrame"
| "c_error_of UnsupportedCmd = CUnsupportedCmd"
| "c_error_of SequencerNotKnown = CSequencerNotKnown"
| "c_error_of UnauthorizedAccess = CUnauthorizedAccess"
| "c_error_of LockedMemAccess = CLockedMemAccess"
| "c_error_of RequestCanceled = CRequestCanceled"
| "c_error_of RequestNotFound = CRequestNotFound"
| "c_error_of EpError = CEpError"
| "c_error_of EpNotFound = CEpNotFound"
| "c_error_of ReqStorageOvfl = CReqStorageOvfl"
| "c_error_of RequestRejected = CRequestRejected"
| "c_error_of InvalidParameter = CInvalidParameter"
| "c_error_of ChainAborted = CChainAborted"
| "c_error_of ChainError = CChainError"
| "c_error_of CrcError = CCrcError"
| "c_error_of InvalidSize = CInvalidSize"
| "c_error_of PwmInNoSignal = CPwmInNoSignal"
| "c_error_of PociFailure = CPociFailure"
| "c_error_of PresentationTimeTooFar = CPresentationTimeTooFar"
| "c_error_of GptpFail = CGptpFail"
| "c_error_of ConfigWriteNotImplemented = CConfigWriteNotImplemented"
| "c_error_of NotFound = COther"
| "c_error_of AlreadyExists = COther"
| "c_error_of Busy = COther"
| "c_error_of (Other s) = COther"

section \<open>Nothing is lost\<close>

lemma stream_id_through_c: "stream_id_of_c (c_of_stream_id sid) = sid" "c_of_stream_id (stream_id_of_c c) = c"
  by (simp_all add: stream_id_of_c_def c_of_stream_id_def)

lemma info_through_c: "info_of_c (c_of_info info) = info" "c_of_info (info_of_c c) = c"
  by (simp_all add: info_of_c_def c_of_info_def)

lemma c_error_code_inj: "c_error_code a = c_error_code b \<longleftrightarrow> a = b"
  by (cases a; cases b; simp)

lemma c_error_code_sign: "c_error_code a \<ge> 0" "c_error_code a = 0 \<longleftrightarrow> a = COk"
  by (cases a; simp)+

text \<open>The errors without a code of their own share one.\<close>

definition unnamed_in_c :: "rcp_error \<Rightarrow> bool" where
  "unnamed_in_c e \<longleftrightarrow> c_error_of e = COther"

lemma unnamed_in_c_iff: "unnamed_in_c e \<longleftrightarrow> e = NotFound \<or> e = AlreadyExists \<or> e = Busy \<or> (\<exists>s. e = Other s)"
  by (cases e) (simp_all add: unnamed_in_c_def)

lemma c_error_of_names: "\<not> unnamed_in_c e \<Longrightarrow> c_error_of e' = c_error_of e \<longleftrightarrow> e' = e"
  by (cases e; simp add: unnamed_in_c_def; cases e'; simp)

text \<open>No error looks like success, and an error with a wire code keeps its name.\<close>

lemma c_error_not_ok: "c_error_code (c_error_of e) \<noteq> 0"
  by (cases e) simp_all

lemma wire_code_named_in_c: "tc18_wire_code e = Some c \<Longrightarrow> \<not> unnamed_in_c e"
  by (cases e) (simp_all add: unnamed_in_c_def)

end
