(* ===== verification/Rcp_Cli.thy ===== *)
theory Rcp_Cli
  imports Rcp_Relay Rcp_Udp
begin

text \<open>
  The command-line tool, \<open>src/bin/rcp.rs\<close>: its arguments, the commands that run an RC Server in the
  process, the conversion of a message and the server loop over a UDP socket. A command is a
  function from its arguments to a run: the lines it prints, the lines of its errors and how it ends.
  Strings are their UTF-8 octets. The parser and printer of JSON, base64 and the calls of the
  operating system belong to other crates and are parameters.
\<close>

section \<open>Runs\<close>

datatype cli_end = ExitCode nat | Panicked

record cli_run =
  run_out :: "string list"
  run_err :: "string list"
  run_end :: cli_end

definition finish :: "string list \<Rightarrow> cli_run" where
  "finish out = \<lparr>run_out = out, run_err = [], run_end = ExitCode 0\<rparr>"

definition fail_with :: "nat \<Rightarrow> string \<Rightarrow> cli_run" where
  "fail_with code message = \<lparr>run_out = [], run_err = [message], run_end = ExitCode code\<rparr>"

definition panic :: cli_run where
  "panic = \<lparr>run_out = [], run_err = [], run_end = Panicked\<rparr>"

definition error_line :: "rcp_error \<Rightarrow> string" where
  "error_line e = ''error: '' @ rcp_error_display e"

lemma run_end_simps [simp]:
  "run_end (finish out) = ExitCode 0" "run_end (fail_with code m) = ExitCode code" "run_end panic = Panicked"
  "run_out (finish out) = out" "run_err (fail_with code m) = [m]"
  by (simp_all add: finish_def fail_with_def panic_def)

text \<open>A call that may panic.\<close>

datatype 'a or_panic = Panics | Returns 'a

fun run_or_panic :: "'a or_panic \<Rightarrow> ('a \<Rightarrow> cli_run) \<Rightarrow> cli_run" where
  "run_or_panic Panics k = panic"
| "run_or_panic (Returns x) k = k x"

definition unwrap_or :: "'a option \<Rightarrow> 'a \<Rightarrow> 'a" where
  "unwrap_or v d = (case v of Some x \<Rightarrow> x | None \<Rightarrow> d)"

lemma unwrap_or_simps [simp]: "unwrap_or None d = d" "unwrap_or (Some x) d = x"
  by (simp_all add: unwrap_or_def)

section \<open>Arguments\<close>

fun flag_value :: "string list \<Rightarrow> string \<Rightarrow> string option" where
  "flag_value (a # b # rest) flag = (if a = flag then Some b else flag_value (b # rest) flag)"
| "flag_value _ flag = None"

definition has_flag :: "string list \<Rightarrow> string \<Rightarrow> bool" where
  "has_flag args flag = list_ex (\<lambda>a. a = flag) args"

definition parse_u8_arg :: "string list \<Rightarrow> string \<Rightarrow> u8 option" where
  "parse_u8_arg args flag = map_option of_nat (Option.bind (flag_value args flag) (from_str_radix 10 (2 ^ 8)))"

definition parse_u16_arg :: "string list \<Rightarrow> string \<Rightarrow> u16 option" where
  "parse_u16_arg args flag = map_option of_nat (Option.bind (flag_value args flag) (from_str_radix 10 (2 ^ 16)))"

definition parse_u32_arg :: "string list \<Rightarrow> string \<Rightarrow> u32 option" where
  "parse_u32_arg args flag = map_option of_nat (Option.bind (flag_value args flag) (from_str_radix 10 (2 ^ 32)))"

definition parse_stream_arg :: "string list \<Rightarrow> string \<Rightarrow> stream_id option" where
  "parse_stream_arg args flag =
    map_option (\<lambda>raw. stream_id_from_u64 (of_nat raw)) (Option.bind (flag_value args flag) (from_str_radix 16 (2 ^ 64)))"

definition format_stream_hex :: "stream_id \<Rightarrow> string" where
  "format_stream_hex sid = hex_lower 16 (unat (stream_id_to_u64 sid))"

definition parse_ep_type_arg :: "string list \<Rightarrow> endpoint_type option" where
  "parse_ep_type_arg args =
    (case parse_u8_arg args ''--ep-type'' of
       None \<Rightarrow> Some Gpio
     | Some raw \<Rightarrow> (case endpoint_type_from_u8 raw of Inr t \<Rightarrow> Some t | Inl _ \<Rightarrow> None))"

text \<open>
  Indexing a string by a range of octets panics when the range is not inside the string or does
  not start and end between two characters.
\<close>

definition is_char_boundary :: "string \<Rightarrow> nat \<Rightarrow> bool" where
  "is_char_boundary s i \<longleftrightarrow>
     i = length s \<or> i < length s \<and> \<not> (128 \<le> (of_char (s ! i) :: nat) \<and> (of_char (s ! i) :: nat) < 192)"

definition str_range :: "string \<Rightarrow> nat \<Rightarrow> nat \<Rightarrow> string or_panic" where
  "str_range s i j =
    (if i \<le> j \<and> j \<le> length s \<and> is_char_boundary s i \<and> is_char_boundary s j
     then Returns (subslice i (j - i) s) else Panics)"

fun hex_pairs :: "string \<Rightarrow> nat list \<Rightarrow> bytes or_panic" where
  "hex_pairs v [] = Returns []"
| "hex_pairs v (i # is) =
    (case str_range v i (i + 2) of
       Panics \<Rightarrow> Panics
     | Returns d \<Rightarrow>
         (case hex_pairs v is of
            Panics \<Rightarrow> Panics
          | Returns bs \<Rightarrow> Returns (of_nat (unwrap_or (from_str_radix 16 256 d) 0) # bs)))"

definition even_positions :: "nat \<Rightarrow> nat list" where
  "even_positions n = map (\<lambda>k. 2 * k) [0..<(n + 1) div 2]"

definition parse_hex_arg :: "string list \<Rightarrow> string \<Rightarrow> bytes option or_panic" where
  "parse_hex_arg args flag =
    (case flag_value args flag of
       None \<Rightarrow> Returns None
     | Some v \<Rightarrow>
         (case hex_pairs v (even_positions (length v)) of
            Panics \<Rightarrow> Panics
          | Returns bs \<Rightarrow> Returns (Some bs)))"

definition hex_encode :: "bytes \<Rightarrow> string" where
  "hex_encode bs = concat (map (\<lambda>b. hex_lower 2 (unat b)) bs)"

section \<open>Texts\<close>

definition TOOL :: string where "TOOL = ''rust-rcp''"
definition PROTOCOL :: string where "PROTOCOL = ''RCP''"
definition PROTOCOL_INT :: u8 where "PROTOCOL_INT = 5"
definition SPEC_VERSION :: string where "SPEC_VERSION = ''2.0''"

definition quoted :: "string \<Rightarrow> string" where
  "quoted s = [CHR 0x22] @ s @ [CHR 0x22]"

definition newline :: string where "newline = [CHR 0x0A]"

fun json_fields :: "(string \<times> string) list \<Rightarrow> string" where
  "json_fields [] = []"
| "json_fields [(k, v)] = ''    '' @ quoted k @ '': '' @ v @ newline"
| "json_fields ((k, v) # rest) = ''    '' @ quoted k @ '': '' @ v @ '','' @ newline @ json_fields rest"

definition json_block :: "(string \<times> string) list \<Rightarrow> string" where
  "json_block fs = ''{'' @ newline @ json_fields fs @ ''}''"

fun rc_server_state_debug :: "rc_server_state \<Rightarrow> string" where
  "rc_server_state_debug HwUnconfigured = ''HwUnconfigured''"
| "rc_server_state_debug HwConfigured = ''HwConfigured''"
| "rc_server_state_debug RcpConfigured = ''RcpConfigured''"

definition registers_line :: "general_registers \<Rightarrow> string" where
  "registers_line regs =
    ''  svr_oa_tc18_magic_nr=0x'' @ hex_lower 8 (unat (svr_oa_tc18_magic_nr regs))
    @ '' svr_version='' @ show_nat (unat (svr_version regs))
    @ '' svr_vendor_id=0x'' @ hex_lower 4 (unat (svr_vendor_id regs))
    @ '' svr_device_id=0x'' @ hex_lower 4 (unat (svr_device_id regs))
    @ '' svr_ep_count='' @ show_nat (unat (svr_ep_count regs))"

section \<open>Version, capabilities and status\<close>

text \<open>
  The version of the package and the version text of the compiler are put in when the tool is built.
\<close>

definition cmd_version :: "string \<Rightarrow> string \<Rightarrow> string list \<Rightarrow> cli_run" where
  "cmd_version pkg_version rustc args =
    (if unwrap_or (flag_value args ''--format'') ''text'' = ''json''
     then finish [json_block
       [(''tool'', quoted TOOL), (''protocol'', quoted PROTOCOL), (''protocol_int'', show_nat (unat PROTOCOL_INT)),
        (''version'', quoted pkg_version), (''spec_version'', quoted SPEC_VERSION),
        (''language'', quoted ''rust''), (''runtime'', quoted rustc)]]
     else finish [TOOL @ '' '' @ pkg_version @ '' (protocol '' @ PROTOCOL @ '', RELAY spec '' @ SPEC_VERSION
       @ '', '' @ rustc @ '')''])"

definition quoted_list :: "string list \<Rightarrow> string" where
  "quoted_list xs = ''['' @ (case xs of [] \<Rightarrow> [] | x # rest \<Rightarrow> quoted x @ concat (map (\<lambda>y. '','' @ quoted y) rest)) @ '']''"

definition listed_commands :: "string list" where
  "listed_commands = [''version'', ''capabilities'', ''status'', ''convert'', ''discover'', ''register'', ''endpoint'']"

definition cmd_capabilities :: "string \<Rightarrow> cli_run" where
  "cmd_capabilities pkg_version =
    finish [json_block
      [(''kind'', quoted ''capabilities''), (''tool'', quoted TOOL), (''protocol'', quoted PROTOCOL),
       (''protocol_int'', show_nat (unat PROTOCOL_INT)), (''version'', quoted pkg_version),
       (''spec_version'', quoted SPEC_VERSION), (''commands'', quoted_list listed_commands),
       (''transports'', ''[]''), (''features'', quoted_list [''loaning'', ''fragmentation'', ''no-live-subscribe'']),
       (''interfaces'', quoted_list [''RcServer'', ''Endpoint'']), (''optional_interfaces'', ''[]''), (''adapt'', ''true'')]]"

definition cmd_status :: "string \<Rightarrow> string list \<Rightarrow> cli_run" where
  "cmd_status pkg_version args =
    (if unwrap_or (flag_value args ''--format'') ''text'' = ''json''
     then finish [json_block
       [(''protocol'', quoted PROTOCOL), (''tool'', quoted TOOL), (''version'', quoted pkg_version),
        (''healthy'', ''true''), (''connected'', ''false''), (''endpoint'', quoted []), (''details'', ''{}'')]]
     else finish [TOOL @ '' '' @ pkg_version @ '' protocol='' @ PROTOCOL @ '' healthy=true connected=false''])"

section \<open>Discovery and registers\<close>

text \<open>The server of a command: default registers, no endpoint.\<close>

definition cli_server :: rc_server where
  "cli_server = rc_server_new zero_registers"

definition no_endpoints :: "mock_endpoint ep_store" where
  "no_endpoints = (\<lambda>_. mock_endpoint_new Gpio [])"

definition cmd_discover :: "(general_registers \<Rightarrow> string) \<Rightarrow> string list \<Rightarrow> cli_run" where
  "cmd_discover regs_json args =
    (let num = unwrap_or (parse_u8_arg args ''--transaction'') 0;
         format = unwrap_or (flag_value args ''--format'') ''text'';
         request = build_discovery_request num
     in case build_discovery_response (abb_info request) (srv_state cli_server) (srv_general cli_server) of
          Inl e \<Rightarrow> fail_with 3 (error_line e)
        | Inr response \<Rightarrow>
            (case decode_general_registers (abb_payload response) of
               Inl e \<Rightarrow> fail_with 3 (error_line e)
             | Inr regs \<Rightarrow>
                 if format = ''json''
                 then finish [json_block
                   [(''transaction_num'', show_nat (unat num)),
                    (''state'', quoted (rc_server_state_debug (srv_state cli_server))), (''registers'', regs_json regs)]]
                 else finish
                   [''discover: transaction='' @ show_nat (unat num) @ '' state='' @ rc_server_state_debug (srv_state cli_server),
                    registers_line regs]))"

definition cmd_register_read :: "(general_registers \<Rightarrow> string) \<Rightarrow> string list \<Rightarrow> cli_run" where
  "cmd_register_read regs_json args =
    (let stream = unwrap_or (parse_stream_arg args ''--stream'') (stream_id_from_u64 0);
         format = unwrap_or (flag_value args ''--format'') ''text'';
         request = \<lparr>abb_info = byte_message_info_default\<lparr>byte_bus_id := EP0_BYTE_BUS_ID, bmi_op := False,
                                read_size_segment := ReadSizeOrSegment 0xFFFF\<rparr>, abb_payload = []\<rparr>
     in case snd (handle_abb mock_ops (cli_server, no_endpoints) stream request) of
          Inl e \<Rightarrow> fail_with 3 (error_line e)
        | Inr response \<Rightarrow>
            (case decode_general_registers (abb_payload response) of
               Inl e \<Rightarrow> fail_with 3 (error_line e)
             | Inr regs \<Rightarrow>
                 if format = ''json''
                 then finish [json_block [(''stream'', quoted (format_stream_hex stream)), (''registers'', regs_json regs)]]
                 else finish [''register read: stream='' @ format_stream_hex stream, registers_line regs]))"

definition cmd_register_write :: "string list \<Rightarrow> cli_run" where
  "cmd_register_write args =
    (let stream = unwrap_or (parse_stream_arg args ''--stream'') (stream_id_from_u64 0)
     in run_or_panic (parse_hex_arg args ''--payload'') (\<lambda>p. case p of
          None \<Rightarrow> fail_with 1 ''error: --payload required''
        | Some payload \<Rightarrow>
            (let server = (if has_flag args ''--root'' then set_root_client cli_server (Some stream) else cli_server);
                 request = \<lparr>abb_info = byte_message_info_default\<lparr>byte_bus_id := EP0_BYTE_BUS_ID, bmi_op := True,
                                        read_size_segment := ReadSizeOrSegment (of_nat (length payload))\<rparr>,
                            abb_payload = payload\<rparr>
             in case snd (handle_abb mock_ops (server, no_endpoints) stream request) of
                  Inr _ \<Rightarrow> finish [''register write: ok stream='' @ format_stream_hex stream]
                | Inl e \<Rightarrow> fail_with 3 (error_line e))))"

definition cmd_register :: "(general_registers \<Rightarrow> string) \<Rightarrow> string list \<Rightarrow> cli_run" where
  "cmd_register regs_json args =
    (if 2 < length args \<and> args ! 2 = ''read'' then cmd_register_read regs_json args
     else if 2 < length args \<and> args ! 2 = ''write'' then cmd_register_write args
     else fail_with 1 ''usage: rust-rcp register <read|write> [options]'')"

section \<open>Endpoints\<close>

text \<open>What the two commands share: the address, the endpoint and its registration.\<close>

definition with_endpoint ::
  "string list \<Rightarrow> (stream_id \<Rightarrow> u16 \<Rightarrow> endpoint_type \<Rightarrow> bytes \<Rightarrow> cli_run) \<Rightarrow> cli_run" where
  "with_endpoint args k =
    (let stream = unwrap_or (parse_stream_arg args ''--stream'') (stream_id_from_u64 0) in
     case parse_u16_arg args ''--bus-id'' of
       None \<Rightarrow> fail_with 1 ''error: --bus-id required''
     | Some bus \<Rightarrow>
         (case parse_ep_type_arg args of
            None \<Rightarrow> fail_with 1 ''error: bad --ep-type''
          | Some t \<Rightarrow> run_or_panic (parse_hex_arg args ''--initial'') (\<lambda>initial. k stream bus t (unwrap_or initial []))))"

definition with_registered ::
  "stream_id \<Rightarrow> u16 \<Rightarrow> mock_endpoint \<Rightarrow> (rc_server \<times> mock_endpoint ep_store \<Rightarrow> cli_run) \<Rightarrow> cli_run" where
  "with_registered stream bus endpoint k =
    (case register_endpoint cli_server stream bus 0 of
       (_, Inl e) \<Rightarrow> fail_with 2 (error_line e)
     | (server, Inr _) \<Rightarrow> k (server, \<lambda>_. endpoint))"

definition cmd_endpoint_read :: "string list \<Rightarrow> cli_run" where
  "cmd_endpoint_read args = with_endpoint args (\<lambda>stream bus t initial.
    let read_size = unwrap_or (parse_u16_arg args ''--read-size'') 0xFFFF;
        format = unwrap_or (flag_value args ''--format'') ''text''
    in with_registered stream bus (mock_endpoint_new t initial) (\<lambda>st.
      let request = \<lparr>abb_info = byte_message_info_default\<lparr>byte_bus_id := bus, bmi_op := False,
                                 read_size_segment := ReadSizeOrSegment read_size\<rparr>, abb_payload = []\<rparr>
      in case snd (handle_abb mock_ops st stream request) of
           Inr response \<Rightarrow>
             if format = ''json''
             then finish [json_block [(''stream'', quoted (format_stream_hex stream)), (''bus_id'', show_nat (unat bus)),
                                      (''payload'', quoted (hex_encode (abb_payload response)))]]
             else finish [''endpoint read: stream='' @ format_stream_hex stream @ '' bus_id='' @ show_nat (unat bus)
                          @ '' payload='' @ hex_encode (abb_payload response)]
         | Inl e \<Rightarrow> fail_with 3 (error_line e)))"

definition cmd_endpoint_write :: "string list \<Rightarrow> cli_run" where
  "cmd_endpoint_write args = with_endpoint args (\<lambda>stream bus t initial.
    run_or_panic (parse_hex_arg args ''--payload'') (\<lambda>p. case p of
      None \<Rightarrow> fail_with 1 ''error: --payload required''
    | Some payload \<Rightarrow>
        with_registered stream bus (mock_endpoint_new t initial) (\<lambda>st.
          let request = \<lparr>abb_info = byte_message_info_default\<lparr>byte_bus_id := bus, bmi_op := True,
                                     read_size_segment := ReadSizeOrSegment (of_nat (length payload))\<rparr>,
                         abb_payload = payload\<rparr>
          in case snd (handle_abb mock_ops st stream request) of
               Inr _ \<Rightarrow> finish [''endpoint write: ok stream='' @ format_stream_hex stream @ '' bus_id='' @ show_nat (unat bus)]
             | Inl e \<Rightarrow> fail_with 3 (error_line e))))"

definition cmd_endpoint :: "string list \<Rightarrow> cli_run" where
  "cmd_endpoint args =
    (if 2 < length args \<and> args ! 2 = ''read'' then cmd_endpoint_read args
     else if 2 < length args \<and> args ! 2 = ''write'' then cmd_endpoint_write args
     else fail_with 1 ''usage: rust-rcp endpoint <read|write> [options]'')"

section \<open>Converting a message\<close>

text \<open>
  A JSON value as the parser of \<open>serde_json\<close> returns it; of a number the code asks only whether it is
  an unsigned integer of 64 bits, and which.
\<close>

datatype json_value =
    JsonNull | JsonBool bool | JsonNumber "u64 option" | JsonString string
  | JsonArray "json_value list" | JsonObject "(string \<times> json_value) list"

definition CONTROL_WRITE :: u64 where [rcp_consts]: "CONTROL_WRITE = 0x20"
definition CONTROL_ERROR :: u64 where [rcp_consts]: "CONTROL_ERROR = 0x08"

definition message_keys :: "string list" where
  "message_keys = [''byte_bus_id'', ''transaction_num'', ''control'', ''read_size_or_segment'', ''timestamp'', ''body'']"

definition u_field :: "(string \<times> json_value) list \<Rightarrow> string \<Rightarrow> u64 \<Rightarrow> unit + u64" where
  "u_field obj name bound =
    (case map_of obj name of
       None \<Rightarrow> Inr 0
     | Some JsonNull \<Rightarrow> Inr 0
     | Some (JsonNumber (Some n)) \<Rightarrow> if n \<le> bound then Inr n else Inl ()
     | Some _ \<Rightarrow> Inl ())"

definition message_body :: "(string \<Rightarrow> bytes option) \<Rightarrow> (string \<times> json_value) list \<Rightarrow> unit + bytes option" where
  "message_body b64_decode obj =
    (case map_of obj ''body'' of
       None \<Rightarrow> Inr None
     | Some JsonNull \<Rightarrow> Inr None
     | Some (JsonString s) \<Rightarrow> (case b64_decode s of None \<Rightarrow> Inl () | Some b \<Rightarrow> Inr (Some b))
     | Some _ \<Rightarrow> Inl ())"

definition show_bool :: "bool \<Rightarrow> string" where
  "show_bool b = (if b then ''true'' else ''false'')"

definition converted_text :: "(bytes \<Rightarrow> string) \<Rightarrow> u64 \<Rightarrow> bytes option \<Rightarrow> bool \<Rightarrow> string \<Rightarrow> u64 \<Rightarrow> u64 \<Rightarrow> string" where
  "converted_text b64_encode bus body error op read_size num =
    ''{'' @ quoted ''protocol'' @ '':'' @ show_nat (unat PROTOCOL_INT) @ '',''
    @ quoted ''version'' @ '':{'' @ quoted ''major'' @ '':0,'' @ quoted ''minor'' @ '':0,'' @ quoted ''patch'' @ '':0},''
    @ quoted ''id'' @ '':'' @ quoted (show_nat (unat bus)) @ '',''
    @ quoted ''payload'' @ '':'' @ (case body of None \<Rightarrow> ''null'' | Some b \<Rightarrow> quoted (b64_encode b)) @ '',''
    @ quoted ''timestamp'' @ '':'' @ quoted ''0001-01-01T00:00:00Z'' @ '',''
    @ quoted ''meta'' @ '':{''
    @ quoted ''rcp.error'' @ '':'' @ quoted (show_bool error) @ '',''
    @ quoted ''rcp.op'' @ '':'' @ quoted op @ '',''
    @ quoted ''rcp.read_size_or_segment'' @ '':'' @ quoted (show_nat (unat read_size)) @ '',''
    @ quoted ''rcp.transaction_num'' @ '':'' @ quoted (show_nat (unat num)) @ ''}}''"

definition convert_rcp_message ::
  "(string \<Rightarrow> json_value option) \<Rightarrow> (string \<Rightarrow> bytes option) \<Rightarrow> (bytes \<Rightarrow> string) \<Rightarrow> string \<Rightarrow> unit + string" where
  "convert_rcp_message from_str b64_decode b64_encode raw =
    and_then (ok_or (from_str raw) ()) (\<lambda>v.
    and_then (case v of JsonObject obj \<Rightarrow> Inr obj | _ \<Rightarrow> Inl ()) (\<lambda>obj.
      if list_ex (\<lambda>(k, _). \<not> list_ex (\<lambda>key. key = k) message_keys) obj then Inl ()
      else
        and_then (u_field obj ''byte_bus_id'' 255) (\<lambda>bus.
        and_then (u_field obj ''transaction_num'' 0xFFFF) (\<lambda>num.
        and_then (u_field obj ''control'' 255) (\<lambda>control.
        and_then (u_field obj ''read_size_or_segment'' 0xFFFF) (\<lambda>size.
        and_then (u_field obj ''timestamp'' (- 1)) (\<lambda>_.
        and_then (message_body b64_decode obj) (\<lambda>body.
          let op = (if control AND CONTROL_WRITE \<noteq> 0 then ''write'' else ''read'');
              error = control AND CONTROL_ERROR \<noteq> 0
          in Inr (converted_text b64_encode bus body error op size num)))))))))"

text \<open>\<open>str::trim\<close> removes white space, given here by the octets of its characters.\<close>

definition white_space :: "string list" where
  "white_space =
    [[CHR 0x09], [CHR 0x0A], [CHR 0x0B], [CHR 0x0C], [CHR 0x0D], [CHR 0x20], [CHR 0xC2, CHR 0x85], [CHR 0xC2, CHR 0xA0],
     [CHR 0xE1, CHR 0x9A, CHR 0x80], [CHR 0xE2, CHR 0x80, CHR 0x80], [CHR 0xE2, CHR 0x80, CHR 0x81],
     [CHR 0xE2, CHR 0x80, CHR 0x82], [CHR 0xE2, CHR 0x80, CHR 0x83], [CHR 0xE2, CHR 0x80, CHR 0x84],
     [CHR 0xE2, CHR 0x80, CHR 0x85], [CHR 0xE2, CHR 0x80, CHR 0x86], [CHR 0xE2, CHR 0x80, CHR 0x87],
     [CHR 0xE2, CHR 0x80, CHR 0x88], [CHR 0xE2, CHR 0x80, CHR 0x89], [CHR 0xE2, CHR 0x80, CHR 0x8A],
     [CHR 0xE2, CHR 0x80, CHR 0xA8], [CHR 0xE2, CHR 0x80, CHR 0xA9], [CHR 0xE2, CHR 0x80, CHR 0xAF],
     [CHR 0xE2, CHR 0x81, CHR 0x9F], [CHR 0xE3, CHR 0x80, CHR 0x80]]"

definition strip_start :: "string \<Rightarrow> string" where
  "strip_start s = (case find (\<lambda>w. take (length w) s = w) white_space of
     None \<Rightarrow> s | Some w \<Rightarrow> drop (length w) s)"

definition strip_end :: "string \<Rightarrow> string" where
  "strip_end s = (case find (\<lambda>w. length w \<le> length s \<and> drop (length s - length w) s = w) white_space of
     None \<Rightarrow> s | Some w \<Rightarrow> take (length s - length w) s)"

definition trim :: "string \<Rightarrow> string" where
  "trim s = (let t = (strip_start ^^ length s) s in (strip_end ^^ length t) t)"

text \<open>The standard input is the result of reading it to its end as UTF-8.\<close>

definition cmd_convert ::
  "(string \<Rightarrow> json_value option) \<Rightarrow> (string \<Rightarrow> bytes option) \<Rightarrow> (bytes \<Rightarrow> string) \<Rightarrow> string option
    \<Rightarrow> string list \<Rightarrow> cli_run" where
  "cmd_convert from_str b64_decode b64_encode stdin args =
    (if unwrap_or (flag_value args ''--protocol'') [] \<noteq> PROTOCOL
     then fail_with 2 (''convert: --protocol '' @ PROTOCOL @ '' is required'')
     else case stdin of
       None \<Rightarrow> fail_with 1 ''ErrInvalidInput''
     | Some input \<Rightarrow>
         (case convert_rcp_message from_str b64_decode b64_encode (trim input) of
            Inr json \<Rightarrow> finish [json]
          | Inl _ \<Rightarrow> fail_with 1 ''ErrInvalidInput''))"

section \<open>Serving\<close>

definition DISCOVERY_TIME_OUT :: duration where "DISCOVERY_TIME_OUT = 20000000"

text \<open>
  The loop of \<open>serve\<close>. It may go on for ever, so its result is an option. \<open>n\<close> counts the requests
  served; the code keeps the count in 32 bits and passes its low octet as the sequence number. The
  \<open>n\<close>-th reading of the clock is \<open>clock n\<close>.
\<close>

definition serve_count :: "nat \<Rightarrow> u32" where
  "serve_count n = of_nat n"

definition serve_step ::
  "('s, 'addr) udp_socket \<Rightarrow> (nat \<Rightarrow> instant) \<Rightarrow> nat \<Rightarrow> 's \<times> mock_endpoint udp_rc_server
    \<Rightarrow> ('s \<times> mock_endpoint udp_rc_server) \<times> unit rcp_result" where
  "serve_step sops clock n st =
    serve_one sops mock_ops st None (ucast (serve_count n)) (clock n) DISCOVERY_TIME_OUT"

definition served_line :: "nat \<Rightarrow> string" where
  "served_line n = ''serve: dispatched request #'' @ show_nat (unat (serve_count n))"

definition reached_line :: "u32 option \<Rightarrow> string" where
  "reached_line max_requests =
    (case max_requests of
       Some m \<Rightarrow> ''serve: reached --max-requests='' @ show_nat (unat m) @ '', stopping''
     | None \<Rightarrow> [])"

definition fatal_line :: "nat \<Rightarrow> rcp_error \<Rightarrow> string" where
  "fatal_line n e =
    ''serve: fatal error after '' @ show_nat (unat (serve_count n)) @ '' request(s): '' @ rcp_error_display e"

partial_function (option) serve_loop ::
  "('s, 'addr) udp_socket \<Rightarrow> (nat \<Rightarrow> instant) \<Rightarrow> u32 option \<Rightarrow> nat \<Rightarrow> 's \<times> mock_endpoint udp_rc_server
    \<Rightarrow> string list \<Rightarrow> (('s \<times> mock_endpoint udp_rc_server) \<times> cli_run) option" where
  "serve_loop sops clock max_requests n st out =
    (if (case max_requests of Some m \<Rightarrow> m \<le> serve_count n | None \<Rightarrow> False)
     then Some (st, finish (out @ [reached_line max_requests]))
     else case serve_step sops clock n st of
       (st', Inr _) \<Rightarrow>
         serve_loop sops clock max_requests (n + 1) st' (out @ [served_line (n + 1)])
     | (st', Inl e) \<Rightarrow>
         Some (st', \<lparr>run_out = out, run_err = [fatal_line n e], run_end = ExitCode 3\<rparr>))"

text \<open>What the command uses of the operating system and of the standard library's addresses.\<close>

record ('os, 'ip, 'addr) serve_env =
  env_parse_ip :: "string \<Rightarrow> string + 'ip"
  env_show_ip :: "'ip \<Rightarrow> string"
  env_debug_str :: "string \<Rightarrow> string"
  env_socket_addr :: "'ip \<Rightarrow> u16 \<Rightarrow> 'addr"
  env_bind :: "'addr \<Rightarrow> string + 'os"
  env_local_addr :: "'os \<Rightarrow> string + 'addr"
  env_os :: "('os, 'addr) os_socket"
  env_clock :: "nat \<Rightarrow> instant"

definition cmd_serve :: "('os, 'ip, 'addr) serve_env \<Rightarrow> string list \<Rightarrow> cli_run option" where
  "cmd_serve env args =
    (case flag_value args ''--udp'' of
       None \<Rightarrow> Some (fail_with 1 ''error: --udp <bind-ip> required (e.g. --udp 0.0.0.0)'')
     | Some ip_text \<Rightarrow>
         (case env_parse_ip env ip_text of
            Inl e \<Rightarrow> Some (fail_with 1 (''error: invalid --udp address '' @ env_debug_str env ip_text @ '': '' @ e))
          | Inr ip \<Rightarrow>
              let port = unwrap_or (parse_u16_arg args ''--port'') ANNEX_J_CONTROL_PORT;
                  local_stream = unwrap_or (parse_stream_arg args ''--stream'') (stream_id_from_u64 0);
                  max_requests = parse_u32_arg args ''--max-requests''
              in (case std_bind (env_bind env) (os_show_addr (env_os env)) (env_socket_addr env ip port) of
                    Inl e \<Rightarrow> Some (fail_with 3 (error_line e))
                  | Inr socket \<Rightarrow>
                      let bound = (case std_local_addr (env_local_addr env) socket of
                                     Inr a \<Rightarrow> os_show_addr (env_os env) a
                                   | Inl _ \<Rightarrow> env_show_ip env ip @ '':'' @ show_nat (unat port));
                          server = udp_rc_server_new local_stream cli_server no_endpoints
                      in map_option snd (serve_loop (std_udp_socket_ops (env_os env)) (env_clock env) max_requests 0 (socket, server)
                           [''serve: listening on udp '' @ bound @ '' (stream='' @ format_stream_hex local_stream @ '')'']))))"

section \<open>The tool\<close>

record cli_env =
  env_pkg_version :: string
  env_rustc :: string
  env_regs_json :: "general_registers \<Rightarrow> string"
  env_from_str :: "string \<Rightarrow> json_value option"
  env_b64_decode :: "string \<Rightarrow> bytes option"
  env_b64_encode :: "bytes \<Rightarrow> string"
  env_stdin :: "string option"

definition cli_main :: "cli_env \<Rightarrow> ('os, 'ip, 'addr) serve_env \<Rightarrow> string list \<Rightarrow> cli_run option" where
  "cli_main env senv args =
    (if length args < 2
     then Some \<lparr>run_out = [],
       run_err = [''Usage: rust-rcp <command> [options]'',
                  ''Commands: version, capabilities, status, convert, discover, register, endpoint, serve''],
       run_end = ExitCode 1\<rparr>
     else if args ! 1 = ''version'' then Some (cmd_version (env_pkg_version env) (env_rustc env) args)
     else if args ! 1 = ''capabilities'' then Some (cmd_capabilities (env_pkg_version env))
     else if args ! 1 = ''status'' then Some (cmd_status (env_pkg_version env) args)
     else if args ! 1 = ''convert''
       then Some (cmd_convert (env_from_str env) (env_b64_decode env) (env_b64_encode env) (env_stdin env) args)
     else if args ! 1 = ''discover'' then Some (cmd_discover (env_regs_json env) args)
     else if args ! 1 = ''register'' then Some (cmd_register (env_regs_json env) args)
     else if args ! 1 = ''endpoint'' then Some (cmd_endpoint args)
     else if args ! 1 = ''serve'' then cmd_serve senv args
     else Some (fail_with 1 (''unknown command: '' @ args ! 1)))"

end
