(* ===== verification/Rcp_Cli_Facts.thy ===== *)
theory Rcp_Cli_Facts
  imports Rcp_Cli Rcp_Udp_Facts
begin

text \<open>
  What the command-line tool guarantees: flags read back what the tool prints, how each command
  ends, which messages are converted, and when the server loop stops.
\<close>

section \<open>Hexadecimal arguments\<close>

lemma even_positions_simps [simp]:
  "even_positions 0 = []" "even_positions (Suc 0) = [0]"
  "even_positions (Suc (Suc n)) = 0 # map (\<lambda>i. i + 2) (even_positions n)"
proof -
  have "[0..<(Suc (Suc n) + 1) div 2] = 0 # map Suc [0..<(n + 1) div 2]"
    by (simp add: upt_conv_Cons map_Suc_upt del: upt_Suc)
  then show "even_positions (Suc (Suc n)) = 0 # map (\<lambda>i. i + 2) (even_positions n)"
    by (simp add: even_positions_def comp_def del: upt_Suc)
qed (simp_all add: even_positions_def)

lemma str_range_shift: "str_range (a # b # s) (i + 2) (j + 2) = str_range s i j"
  by (simp add: str_range_def is_char_boundary_def subslice_def)

lemma hex_pairs_shift: "hex_pairs (a # b # s) (map (\<lambda>i. i + 2) is) = hex_pairs s is"
  using str_range_shift [of a b s]
  by (induction "is") (simp_all split: or_panic.split)

text \<open>The octets of a string, pair by pair.\<close>

fun hex_octets :: "string \<Rightarrow> bytes or_panic" where
  "hex_octets [] = Returns []"
| "hex_octets [a] = Panics"
| "hex_octets (a # b # s) =
    (case str_range (a # b # s) 0 2 of
       Panics \<Rightarrow> Panics
     | Returns d \<Rightarrow> (case hex_octets s of Panics \<Rightarrow> Panics
         | Returns bs \<Rightarrow> Returns (of_nat (unwrap_or (from_str_radix 16 256 d) 0) # bs)))"

lemma hex_pairs_octets: "hex_pairs v (even_positions (length v)) = hex_octets v"
proof (induction v rule: hex_octets.induct)
  case (3 a b s)
  then show ?case
    using hex_pairs_shift [of a b s] by (cases "str_range (a # b # s) 0 2") (simp_all add: numeral_2_eq_2)
qed (simp_all add: str_range_def)

lemma parse_hex_arg_octets:
  "flag_value args flag = Some v \<Longrightarrow>
    parse_hex_arg args flag = (case hex_octets v of Panics \<Rightarrow> Panics | Returns bs \<Rightarrow> Returns (Some bs))"
  by (simp add: parse_hex_arg_def hex_pairs_octets)

text \<open>On a text of ASCII characters only the length matters.\<close>

definition ascii :: "string \<Rightarrow> bool" where
  "ascii s \<longleftrightarrow> list_all (\<lambda>c. (of_char c :: nat) < 128) s"

lemma ascii_boundary: "ascii s \<Longrightarrow> i \<le> length s \<Longrightarrow> is_char_boundary s i"
  unfolding ascii_def is_char_boundary_def list_all_length
  by (metis le_neq_implies_less not_less)

lemma hex_octets_panics: "ascii v \<Longrightarrow> hex_octets v = Panics \<longleftrightarrow> odd (length v)"
proof (induction v rule: hex_octets.induct)
  case (3 a b s)
  have "str_range (a # b # s) 0 2 = Returns [a, b]"
    using ascii_boundary [OF 3(2), of 0] ascii_boundary [OF 3(2), of 2] by (simp add: str_range_def subslice_def)
  moreover have "ascii s" using 3(2) by (simp add: ascii_def)
  ultimately show ?case using 3(1) by (cases "hex_octets s") simp_all
qed simp_all

lemma digit_char_ascii:
  assumes "d < 16"
  shows "(of_char (digit_char d) :: nat) < 128"
proof -
  have "list_all (\<lambda>d. (of_char (digit_char d) :: nat) < 128) [0..<16]" by code_simp
  with assms show ?thesis unfolding list_all_iff by (auto simp del: upt_rec_numeral)
qed

lemma hex_lower_2: "hex_lower 2 n = [digit_char (n div 16 mod 16), digit_char (n mod 16)]"
  by (simp add: numeral_2_eq_2)

lemma ascii_hex_encode: "ascii (hex_encode bs)"
  by (induction bs) (simp_all add: ascii_def hex_encode_def hex_lower_2 digit_char_ascii)

lemma from_str_hex_octet: "from_str_radix 16 256 (hex_lower 2 (unat (b :: u8))) = Some (unat b)"
proof -
  have "unat b < 256" using unsigned_less [of b] by simp
  then have "read_digits 16 256 0 (hex_lower 2 (unat b)) = Some (unat b)"
    using read_hex_lower [of 0 2 "unat b" 256] by simp
  then show ?thesis
    using from_str_digits [of "hex_lower 2 (unat b)" "unat b div 16 mod 16" "[digit_char (unat b mod 16)]" 16 256]
    by (simp add: hex_lower_2)
qed

lemma hex_octets_encode: "hex_octets (hex_encode bs) = Returns bs"
proof (induction bs)
  case Nil
  then show ?case by (simp add: hex_encode_def)
next
  case (Cons b bs)
  obtain p q where hex: "hex_lower 2 (unat b) = [p, q]" by (simp add: hex_lower_2)
  then have enc: "hex_encode (b # bs) = p # q # hex_encode bs" by (simp add: hex_encode_def)
  then have "ascii (p # q # hex_encode bs)" using ascii_hex_encode [of "b # bs"] by simp
  from ascii_boundary [OF this, of 0] ascii_boundary [OF this, of 2]
  have "str_range (p # q # hex_encode bs) 0 2 = Returns [p, q]"
    by (simp add: str_range_def subslice_def)
  then show ?case
    using from_str_hex_octet [of b] Cons.IH by (simp add: enc hex del: hex_lower.simps)
qed

section \<open>Streams as arguments\<close>

lemma parse_format_stream:
  "flag_value args flag = Some (format_stream_hex sid) \<Longrightarrow> parse_stream_arg args flag = Some sid"
proof -
  have h: "hex_lower 16 n = digit_char (n div 16 ^ 15 mod 16) # hex_lower 15 n" for n
    using hex_lower.simps(2) [of 15 n] by simp
  have "unat (stream_id_to_u64 sid) < 2 ^ 64" using unsigned_less [of "stream_id_to_u64 sid"] by simp
  then have "from_str_radix 16 (2 ^ 64) (hex_lower 16 (unat (stream_id_to_u64 sid))) = Some (unat (stream_id_to_u64 sid))"
    using from_str_digits [OF h] read_hex_lower [of 0 16] by simp
  then show "flag_value args flag = Some (format_stream_hex sid) \<Longrightarrow> parse_stream_arg args flag = Some sid"
    by (simp add: parse_stream_arg_def format_stream_hex_def)
qed

section \<open>How the commands end\<close>

lemma registers_decode_iff: "(\<exists>g. decode_general_registers b = Inr g) \<longleftrightarrow> 65 \<le> length b"
proof
  assume "65 \<le> length b"
  then have "length (take 65 b) = 65" by simp
  from general_block.dec_exact [OF this] obtain g where "encode_general_registers g = take 65 b" by blast
  with general_block.dec_enc_append [of g "drop 65 b"] show "\<exists>g. decode_general_registers b = Inr g"
    by auto
qed (use general_block.dec_Inr_length in blast)

text \<open>Without a root client no write is let in; with it, the payload decides.\<close>

lemma register_write_ends:
  assumes "parse_hex_arg args ''--payload'' = Returns (Some payload)"
  shows "cmd_register_write args =
    (if \<not> has_flag args ''--root'' then fail_with 3 (error_line UnauthorizedAccess)
     else if length payload < 65 then fail_with 3 (error_line ShortFrame)
     else finish [''register write: ok stream=''
       @ format_stream_hex (unwrap_or (parse_stream_arg args ''--stream'') (stream_id_from_u64 0))])"
proof -
  have "decode_general_registers payload = Inl ShortFrame" if "length payload < 65"
    using that by (rule general_block.dec_short)
  moreover obtain g where "decode_general_registers payload = Inr g" if "\<not> length payload < 65"
    using registers_decode_iff [of payload] by (metis not_less)
  moreover have "is_ep0_address EP0_BYTE_BUS_ID" by (simp add: is_ep0_address_def)
  moreover have "srv_root_client (set_root_client cli_server (Some s)) = Some s" "srv_root_client cli_server = None" for s
    by (simp_all add: set_root_client_def cli_server_def rc_server_new_def)
  ultimately show ?thesis
    by (simp add: cmd_register_write_def assms handle_abb_eq handle_ep0_eq Let_def split: if_splits)
qed

text \<open>Reading the registers and discovery show the default registers, whatever the arguments.\<close>

lemma json_format: "unwrap_or v ''text'' = ''json'' \<longleftrightarrow> v = Some ''json''"
  by (cases v) simp_all

lemma register_read_ends:
  "cmd_register_read regs_json args =
    (let stream = unwrap_or (parse_stream_arg args ''--stream'') (stream_id_from_u64 0) in
     if flag_value args ''--format'' = Some ''json''
     then finish [json_block [(''stream'', quoted (format_stream_hex stream)), (''registers'', regs_json zero_registers)]]
     else finish [''register read: stream='' @ format_stream_hex stream, registers_line zero_registers])"
  by (simp add: cmd_register_read_def handle_abb_eq handle_ep0_eq is_ep0_address_def Let_def cli_server_def
      rc_server_new_def general_block.dec_enc json_format)

lemma discover_ends: "run_end (cmd_discover regs_json args) = ExitCode 0"
  by (simp add: cmd_discover_def build_discovery_response_def check_register_reachable_def Let_def cli_server_def
      rc_server_new_def general_block.dec_enc)

lemma with_endpoint_Some:
  assumes "parse_u16_arg args ''--bus-id'' = Some bus" and "parse_ep_type_arg args = Some t"
    and "parse_hex_arg args ''--initial'' = Returns initial"
  shows "with_endpoint args k
    = k (unwrap_or (parse_stream_arg args ''--stream'') (stream_id_from_u64 0)) bus t (unwrap_or initial [])"
  by (simp add: with_endpoint_def assms)

text \<open>The single registered endpoint of a command.\<close>

lemma with_registered_cases:
  "with_registered stream bus endpoint k =
    (if bus > BYTE_MESSAGE_INFO_11BIT_MAX then fail_with 2 (error_line InvalidSize)
     else k (fst (register_endpoint cli_server stream bus 0), \<lambda>_. endpoint))"
  by (auto simp: with_registered_def register_endpoint_cases Let_def cli_server_def rc_server_new_def not_less)

lemma registered_lookup:
  assumes "bus \<le> BYTE_MESSAGE_INFO_11BIT_MAX"
  shows "\<exists>eid. lookup_binding (srv_endpoints (fst (register_endpoint cli_server stream bus r))) stream bus = Some eid
    \<and> srv_endpoint_impls (fst (register_endpoint cli_server stream bus r)) eid = Some r"
  using resolve_register_endpoint [OF registry_ok_new, of zero_registers stream bus r stream bus] assms
  by (auto simp: cli_server_def [symmetric] resolve_def cli_server_def rc_server_new_def split: option.splits bind_splits)

lemma take_min_length: "take (min n (length xs)) xs = take n xs"
  by (simp add: min_def)

text \<open>Bus 0 is not the registered endpoint but endpoint 0.\<close>

lemma endpoint_read_ends:
  assumes "parse_u16_arg args ''--bus-id'' = Some bus" and "parse_ep_type_arg args = Some t"
    and "parse_hex_arg args ''--initial'' = Returns initial" and "flag_value args ''--format'' \<noteq> Some ''json''"
  shows "cmd_endpoint_read args =
    (if bus > BYTE_MESSAGE_INFO_11BIT_MAX then fail_with 2 (error_line InvalidSize)
     else finish [''endpoint read: stream=''
       @ format_stream_hex (unwrap_or (parse_stream_arg args ''--stream'') (stream_id_from_u64 0))
       @ '' bus_id='' @ show_nat (unat bus) @ '' payload=''
       @ hex_encode (if bus = 0 then encode_general_registers zero_registers
                     else take (unat (unwrap_or (parse_u16_arg args ''--read-size'') 0xFFFF)) (unwrap_or initial []))])"
proof (cases "bus > BYTE_MESSAGE_INFO_11BIT_MAX")
  case True
  then show ?thesis by (simp add: cmd_endpoint_read_def with_endpoint_Some [OF assms(1-3)] with_registered_cases Let_def)
next
  case False
  define stream where "stream = unwrap_or (parse_stream_arg args ''--stream'') (stream_id_from_u64 0)"
  define srv where "srv = fst (register_endpoint cli_server stream bus 0)"
  have "srv_general srv = zero_registers"
    by (simp add: srv_def register_endpoint_cases Let_def cli_server_def rc_server_new_def)
  moreover obtain eid where "lookup_binding (srv_endpoints srv) stream bus = Some eid" "srv_endpoint_impls srv eid = Some 0"
    using registered_lookup [of bus stream 0] False by (auto simp: srv_def not_less)
  ultimately show ?thesis
    using False assms(4)
    by (simp add: cmd_endpoint_read_def with_endpoint_Some [OF assms(1-3)] with_registered_cases Let_def json_format
        handle_abb_eq handle_ep0_eq handle_device_def is_ep0_address_def EP0_BYTE_BUS_ID_def mock_ops_def mock_read_def
        mock_endpoint_new_def as_read_size_def take_min_length stream_def [symmetric] srv_def [symmetric])
qed

lemma endpoint_write_ends:
  assumes "parse_u16_arg args ''--bus-id'' = Some bus" and "parse_ep_type_arg args = Some t"
    and "parse_hex_arg args ''--initial'' = Returns initial" and "parse_hex_arg args ''--payload'' = Returns (Some payload)"
  shows "run_end (cmd_endpoint_write args) =
    ExitCode (if bus > BYTE_MESSAGE_INFO_11BIT_MAX then 2 else if bus = 0 then 3 else 0)"
proof (cases "bus > BYTE_MESSAGE_INFO_11BIT_MAX")
  case True
  then show ?thesis
    by (simp add: cmd_endpoint_write_def with_endpoint_Some [OF assms(1-3)] assms(4) with_registered_cases)
next
  case False
  define stream where "stream = unwrap_or (parse_stream_arg args ''--stream'') (stream_id_from_u64 0)"
  define srv where "srv = fst (register_endpoint cli_server stream bus 0)"
  have "srv_root_client srv = None"
    by (simp add: srv_def register_endpoint_cases Let_def cli_server_def rc_server_new_def)
  moreover obtain eid where "lookup_binding (srv_endpoints srv) stream bus = Some eid" "srv_endpoint_impls srv eid = Some 0"
    using registered_lookup [of bus stream 0] False by (auto simp: srv_def not_less)
  ultimately show ?thesis
    using False
    by (simp add: cmd_endpoint_write_def with_endpoint_Some [OF assms(1-3)] assms(4) with_registered_cases Let_def
        handle_abb_eq handle_ep0_eq handle_device_def is_ep0_address_def EP0_BYTE_BUS_ID_def mock_ops_def mock_write_def
        stream_def [symmetric] srv_def [symmetric])
qed

section \<open>Which messages are converted\<close>

lemma u_field_Inr_iff:
  "u_field obj name bound = Inr n \<longleftrightarrow>
    (map_of obj name = None \<or> map_of obj name = Some JsonNull) \<and> n = 0
    \<or> map_of obj name = Some (JsonNumber (Some n)) \<and> n \<le> bound"
  by (auto simp: u_field_def split: option.splits json_value.splits)

lemma convert_accepts:
  "convert_rcp_message from_str b64_decode b64_encode raw = Inr text \<longleftrightarrow>
    (\<exists>obj bus num control size time body.
       from_str raw = Some (JsonObject obj) \<and> fst ` set obj \<subseteq> set message_keys
       \<and> u_field obj ''byte_bus_id'' 255 = Inr bus \<and> u_field obj ''transaction_num'' 0xFFFF = Inr num
       \<and> u_field obj ''control'' 255 = Inr control \<and> u_field obj ''read_size_or_segment'' 0xFFFF = Inr size
       \<and> u_field obj ''timestamp'' (- 1) = Inr time \<and> message_body b64_decode obj = Inr body
       \<and> text = converted_text b64_encode bus body (bit control 3) (if bit control 5 then ''write'' else ''read'') size num)"
proof -
  have w: "control AND CONTROL_WRITE = 0 \<longleftrightarrow> \<not> bit control 5" "control AND CONTROL_ERROR = 0 \<longleftrightarrow> \<not> bit control 3" for control
    using and_exp_eq_0_iff_not_bit [of control 5] and_exp_eq_0_iff_not_bit [of control 3]
    by (simp_all add: rcp_consts)
  have keys: "list_ex (\<lambda>(k, _). \<not> list_ex (\<lambda>key. key = k) message_keys) obj \<longleftrightarrow> \<not> fst ` set obj \<subseteq> set message_keys" for obj :: "(string \<times> json_value) list"
    by (auto simp: list_ex_iff)
  have obj: "(case v of JsonObject obj \<Rightarrow> Inr obj | _ \<Rightarrow> Inl ()) = Inr obj \<longleftrightarrow> v = JsonObject obj" for v obj
    by (cases v) auto
  have guard: "(if c then Inl () else r) = Inr t \<longleftrightarrow> \<not> c \<and> r = Inr t" for c and r :: "unit + string" and t
    by simp
  show ?thesis
    unfolding convert_rcp_message_def keys and_then_eq_Inr obj guard ok_or_eq_Inr Let_def w not_not sum.inject
    by blast
qed

section \<open>When the server loop stops\<close>

text \<open>
  The calls of the loop as a recursion over their number: how many were served from the \<open>n\<close>-th on, the
  state they left, and the error that stopped them.
\<close>

fun serve_calls ::
  "('s, 'addr) udp_socket \<Rightarrow> (nat \<Rightarrow> instant) \<Rightarrow> nat \<Rightarrow> nat \<Rightarrow> 's \<times> mock_endpoint udp_rc_server
    \<Rightarrow> nat \<times> ('s \<times> mock_endpoint udp_rc_server) \<times> rcp_error option" where
  "serve_calls sops clock 0 n st = (n, st, None)"
| "serve_calls sops clock (Suc k) n st =
    (case serve_step sops clock n st of
       (st', Inr _) \<Rightarrow> serve_calls sops clock k (n + 1) st'
     | (st', Inl e) \<Rightarrow> (n, st', Some e))"

definition served_lines :: "nat \<Rightarrow> nat \<Rightarrow> string list" where
  "served_lines n k = map served_line [n + 1..<k + 1]"

definition serve_end :: "u32 option \<Rightarrow> nat \<times> 'st \<times> rcp_error option \<Rightarrow> nat \<Rightarrow> string list \<Rightarrow> 'st \<times> cli_run" where
  "serve_end max_requests r n out =
    (case r of
       (k, st, None) \<Rightarrow> (st, finish (out @ served_lines n k @ [reached_line max_requests]))
     | (k, st, Some e) \<Rightarrow>
         (st, \<lparr>run_out = out @ served_lines n k, run_err = [fatal_line k e], run_end = ExitCode 3\<rparr>))"

lemma serve_calls_count:
  "serve_calls sops clock k n st = (m, st', r) \<Longrightarrow> n \<le> m \<and> m \<le> n + k \<and> (r = None \<longrightarrow> m = n + k)"
  by (induction k arbitrary: n st) (auto split: prod.splits sum.splits, force+)

lemma served_lines_self: "served_lines n n = []"
  by (simp add: served_lines_def)

lemma served_lines_step: "n < k \<Longrightarrow> served_lines n k = served_line (n + 1) # served_lines (n + 1) k"
  by (simp add: served_lines_def upt_conv_Cons del: upt_Suc)

lemma serve_end_step:
  assumes "serve_step sops clock n st = (st', Inr u)"
  shows "serve_end m (serve_calls sops clock (Suc k) n st) n out
    = serve_end m (serve_calls sops clock k (n + 1) st') (n + 1) (out @ [served_line (n + 1)])"
proof -
  obtain j st1 r where c: "serve_calls sops clock k (n + 1) st' = (j, st1, r)" by (metis prod.collapse)
  from serve_calls_count [OF this] have "n < j" by simp
  then show ?thesis
    using c by (cases r) (simp_all add: assms serve_end_def served_lines_step)
qed

lemma serve_count_small:
  assumes "n \<le> unat (m :: u32)"
  shows "unat (serve_count n) = n"
proof -
  have "unat m < 2 ^ 32" using unsigned_less [of m] by simp
  with assms have "n < 2 ^ 32" by simp
  then show ?thesis by (simp add: serve_count_def unsigned_of_nat take_bit_nat_eq_self)
qed

lemma serve_loop_bounded:
  assumes "n + k = unat m"
  shows "serve_loop sops clock (Some m) n st out = Some (serve_end (Some m) (serve_calls sops clock k n st) n out)"
  using assms
proof (induction k arbitrary: n st out)
  case 0
  then have "m \<le> serve_count n" using serve_count_small [of n m] by (simp add: word_le_nat_alt)
  then show ?case by (subst serve_loop.simps) (simp add: serve_end_def served_lines_self)
next
  case (Suc k)
  then have "\<not> m \<le> serve_count n" using serve_count_small [of n m] by (simp add: word_le_nat_alt)
  moreover obtain st' r where s: "serve_step sops clock n st = (st', r)" by fastforce
  ultimately show ?case
    using Suc serve_end_step [of sops clock n st st'] served_lines_self [of n]
    by (subst serve_loop.simps) (auto simp: serve_end_def split: sum.splits)
qed

lemma serve_loop_error:
  "serve_calls sops clock k n st = (j, st', Some e) \<Longrightarrow>
    serve_loop sops clock None n st out = Some (serve_end None (j, st', Some e) n out)"
proof (induction k arbitrary: n st out)
  case (Suc k)
  obtain st1 r where s: "serve_step sops clock n st = (st1, r)" by fastforce
  show ?case
  proof (cases r)
    case (Inl e1)
    with Suc.prems s show ?thesis by (subst serve_loop.simps) (auto simp: serve_end_def served_lines_self)
  next
    case (Inr u)
    then have "serve_calls sops clock k (n + 1) st1 = (j, st', Some e)" using Suc.prems s by simp
    with Suc.IH Inr s serve_end_step [of sops clock n st st1 u None k] Suc.prems show ?thesis
      by (subst serve_loop.simps) simp
  qed
qed simp

text \<open>Without a bound the loop returns only when a call fails.\<close>

definition fails :: "('s, 'addr) udp_socket \<Rightarrow> (nat \<Rightarrow> instant) \<Rightarrow> nat \<Rightarrow> 's \<times> mock_endpoint udp_rc_server \<Rightarrow> bool" where
  "fails sops clock n st \<longleftrightarrow> (\<exists>k j st' e. serve_calls sops clock k n st = (j, st', Some e))"

lemma fails_step:
  "fails sops clock n st \<longleftrightarrow>
    (case serve_step sops clock n st of (st', Inr _) \<Rightarrow> fails sops clock (n + 1) st' | (st', Inl e) \<Rightarrow> True)"
proof -
  obtain st1 q where s: "serve_step sops clock n st = (st1, q)" by fastforce
  have "serve_calls sops clock 0 n st \<noteq> (j, st', Some e)" for j st' e by simp
  then have "fails sops clock n st \<longleftrightarrow> (\<exists>k j st' e. serve_calls sops clock (Suc k) n st = (j, st', Some e))"
    unfolding fails_def by (metis not0_implies_Suc)
  then show ?thesis using s by (simp add: fails_def split: sum.splits)
qed

lemma serve_loop_returns_fails:
  assumes "serve_loop sops clock max_requests n st out = Some r"
  shows "max_requests = None \<longrightarrow> fails sops clock n st"
  using assms
proof (rule serve_loop.raw_induct [where P = "\<lambda>sops clock max_requests n st out r.
    max_requests = None \<longrightarrow> fails sops clock n st", rotated])
  fix loop and sops :: "('a, 'b) udp_socket" and clock max_requests n st out r
  assume IH: "\<And>sops clock max_requests n st out r. loop sops clock max_requests n st out = Some r \<Longrightarrow>
      max_requests = None \<longrightarrow> fails sops clock n st"
    and body: "(if case max_requests of Some m \<Rightarrow> m \<le> serve_count n | None \<Rightarrow> False
       then Some (st, finish (out @ [reached_line max_requests]))
       else case serve_step sops clock n st of
         (st', Inr _) \<Rightarrow> loop sops clock max_requests (n + 1) st' (out @ [served_line (n + 1)])
       | (st', Inl e) \<Rightarrow> Some (st', \<lparr>run_out = out, run_err = [fatal_line n e], run_end = ExitCode 3\<rparr>)) = Some r"
  show "max_requests = None \<longrightarrow> fails sops clock n st"
    using body by (subst fails_step) (auto dest: IH split: prod.splits sum.splits)
qed

lemma fails_serve_loop: "fails sops clock n st \<Longrightarrow> \<exists>r. serve_loop sops clock None n st out = Some r"
  using serve_loop_error unfolding fails_def by blast

text \<open>What is wrong with a datagram, before any of its requests is looked at.\<close>

definition datagram_error :: "bytes \<Rightarrow> rcp_error option" where
  "datagram_error d =
    (case and_then (decode_annex_j_udp_payload d) (\<lambda>(_, frame).
            and_then (decode_ntscf_frame frame) (\<lambda>(_, body). decode_acf_abb_messages body)) of
       Inl e \<Rightarrow> Some e | Inr _ \<Rightarrow> None)"

lemma serve_step_malformed:
  assumes "os_set_read_timeout os (std_socket s) None = (o1, Inr ())" and "os_recv_from os o1 = (o2, Inr (d, peer))"
    and "datagram_error d = Some e"
  shows "serve_step (std_udp_socket_ops os) clock n (s, u) = ((s\<lparr>std_socket := o2\<rparr>, u), Inl e)"
  using assms
  by (cases "decode_annex_j_udp_payload d")
    (auto simp: serve_step_def serve_one_def std_udp_socket_ops_def std_recv_from_def datagram_error_def udp_answer_def
      and_then_eq_Inl split: sum.splits prod.splits)

lemma serve_loop_malformed:
  assumes "os_set_read_timeout os (std_socket s) None = (o1, Inr ())" and "os_recv_from os o1 = (o2, Inr (d, peer))"
    and "datagram_error d = Some e" and "\<And>m. max_requests = Some m \<Longrightarrow> serve_count n < m"
  shows "serve_loop (std_udp_socket_ops os) clock max_requests n (s, u) out
    = Some ((s\<lparr>std_socket := o2\<rparr>, u), \<lparr>run_out = out, run_err = [fatal_line n e], run_end = ExitCode 3\<rparr>)"
  using assms(4) by (subst serve_loop.simps) (auto simp: serve_step_malformed [OF assms(1-3)] not_le split: option.splits)

section \<open>What a served request can change\<close>

text \<open>A server without a root client and without endpoints: no request changes it.\<close>

definition inert :: "mock_endpoint udp_rc_server \<Rightarrow> bool" where
  "inert u \<longleftrightarrow> srv_root_client (urs_server u) = None \<and> (\<forall>sid r. \<not> reaches (urs_server u) sid r)"

definition unchanged :: "mock_endpoint udp_rc_server \<Rightarrow> mock_endpoint udp_rc_server \<Rightarrow> bool" where
  "unchanged u u' \<longleftrightarrow> urs_server u' = urs_server u \<and> urs_store u' = urs_store u \<and> urs_local_stream u' = urs_local_stream u"

lemma unchanged_refl [simp]: "unchanged u u"
  by (simp add: unchanged_def)

lemma unchanged_inert: "unchanged u u' \<Longrightarrow> inert u \<Longrightarrow> inert u'"
  by (simp add: unchanged_def inert_def)

lemma unchanged_trans: "unchanged u u' \<Longrightarrow> unchanged u' u'' \<Longrightarrow> unchanged u u''"
  by (simp add: unchanged_def)

lemma inert_handle_abb:
  assumes "inert u" and "handle_abb ops (urs_server u, urs_store u) sid request = ((srv, store), r)"
  shows "srv = urs_server u" and "store = urs_store u"
proof -
  show "srv = urs_server u"
    using handle_abb_server [OF assms(2)] assms(1) by (auto simp: inert_def ep0_write_by_root_def)
  show "store = urs_store u"
    using handle_abb_store [OF assms(2)] assms(1) by (auto simp: inert_def)
qed

lemma inert_dispatch_request:
  assumes "inert u" and "udp_dispatch_request ops u requester request now dt = (u', r)"
  shows "unchanged u u'"
  using assms inert_handle_abb [OF assms(1)]
  by (auto simp: udp_dispatch_request_def unchanged_def split: if_splits sum.splits prod.splits)

lemma inert_dispatch_requests:
  "inert u \<Longrightarrow> udp_dispatch_requests ops u requester now dt requests acc = (u', r) \<Longrightarrow> unchanged u u'"
proof (induction requests arbitrary: u acc)
  case (Cons request requests)
  obtain u1 q where d: "udp_dispatch_request ops u requester request now dt = (u1, q)" by fastforce
  note u1 = inert_dispatch_request [OF Cons.prems(1) d]
  show ?case
    using Cons.prems(2) Cons.IH [OF unchanged_inert [OF u1 Cons.prems(1)]] u1
    by (auto simp: d split: sum.splits option.splits intro: unchanged_trans [OF u1])
qed simp

lemma inert_answer: "inert u \<Longrightarrow> udp_answer ops u frame n now dt = (u', r) \<Longrightarrow> unchanged u u'"
  by (auto simp: udp_answer_def split: sum.splits prod.splits dest: inert_dispatch_requests)

lemma inert_serve_step: "inert u \<Longrightarrow> serve_step sops clock n (s, u) = ((s', u'), r) \<Longrightarrow> unchanged u u'"
  by (auto simp: serve_step_def serve_one_def split: sum.splits prod.splits dest: inert_answer)

lemma inert_serve_calls:
  "inert u \<Longrightarrow> serve_calls sops clock k n (s, u) = (j, (s', u'), r) \<Longrightarrow> unchanged u u'"
proof (induction k arbitrary: n s u)
  case (Suc k)
  obtain s1 u1 q where d: "serve_step sops clock n (s, u) = ((s1, u1), q)" by (metis prod.collapse)
  note u1 = inert_serve_step [OF Suc.prems(1) d]
  show ?case
    using Suc.prems(2) Suc.IH [OF unchanged_inert [OF u1 Suc.prems(1)]] u1
    by (auto simp: d split: sum.splits intro: unchanged_trans [OF u1])
qed simp

lemma cli_server_inert: "inert (udp_rc_server_new sid cli_server no_endpoints)"
  by (simp add: inert_def udp_rc_server_new_def reaches_def cli_server_def rc_server_new_def)

section \<open>Further facts\<close>

text \<open>The outcome of \<open>register write\<close>. With a payload that parses, the command fails with \<open>UnauthorizedAccess\<close> unless \<open>--root\<close> is given; with \<open>--root\<close> it fails with \<open>ShortFrame\<close> for fewer than 65 octets and succeeds otherwise: the write of the root client is accepted, never refused as locked.\<close>

theorem register_write_decided:
  assumes "parse_hex_arg args ''--payload'' = Returns (Some payload)"
  shows "(run_end (cmd_register_write args) = ExitCode 0 \<longleftrightarrow> has_flag args ''--root'' \<and> 65 \<le> length payload)
    \<and> (run_end (cmd_register_write args) \<noteq> ExitCode 0 \<longrightarrow> cmd_register_write args
        = fail_with 3 (error_line (if has_flag args ''--root'' then ShortFrame else UnauthorizedAccess)))"
  by (auto simp: register_write_ends [OF assms])

text \<open>What \<open>serve\<close> serves never changes. The server of the command has no root client and no endpoints, so whatever datagrams arrive, after any number of calls its registers, lifecycle state and tables are those it started with; only the discovery claim moves.\<close>

theorem served_server_constant:
  assumes "serve_calls sops clock k 0 (s, udp_rc_server_new sid cli_server no_endpoints) = (j, (s', u'), r)"
  shows "urs_server u' = cli_server \<and> urs_store u' = no_endpoints \<and> urs_local_stream u' = sid"
  using inert_serve_calls [OF cli_server_inert assms] by (simp add: unchanged_def udp_rc_server_new_def)

section \<open>Properties\<close>

text \<open>C16: when the loop of \<open>serve\<close> ends. With a bound of \<open>m\<close> requests it always ends, after at most \<open>m\<close> calls, with what the recursion over the calls gives; without a bound it ends exactly when some call fails.\<close>

theorem serve_loop_ends:
  "serve_loop sops clock (Some m) 0 st out = Some (serve_end (Some m) (serve_calls sops clock (unat m) 0 st) 0 out)
    \<and> ((\<exists>r. serve_loop sops clock None 0 st out = Some r) \<longleftrightarrow> fails sops clock 0 st)"
  using serve_loop_bounded [of 0 "unat m" m sops clock st out, OF add_0_left] serve_loop_returns_fails [of sops clock None 0 st out]
    fails_serve_loop [of sops clock 0 st out] by blast

text \<open>C17: one malformed datagram stops the server. When the system delivers a datagram that is no Annex J payload, no NTSCF frame or no sequence of messages, the loop of \<open>serve\<close> ends with exit code 3, whoever sent it and however many requests were still to be served.\<close>

theorem malformed_datagram_stops_server:
  assumes "os_set_read_timeout os (std_socket s) None = (o1, Inr ())" and "os_recv_from os o1 = (o2, Inr (d, peer))"
    and "datagram_error d = Some e" and "\<forall>m. max_requests = Some m \<longrightarrow> serve_count n < m"
  shows "\<exists>run. serve_loop (std_udp_socket_ops os) clock max_requests n (s, u) out = Some ((s\<lparr>std_socket := o2\<rparr>, u), run)
    \<and> run_end run = ExitCode 3 \<and> run_err run = [fatal_line n e]"
  using serve_loop_malformed [OF assms(1-3), of max_requests n clock u out] assms(4) by auto

lemma malformed_datagram_stops_server_witness:
  "\<exists>run. serve_loop (std_udp_socket_ops \<lparr>os_send_to = (\<lambda>q _ _. (q, Inr 0)), os_set_read_timeout = (\<lambda>q _. (q, Inr ())),
        os_recv_from = (\<lambda>q. (q, Inr ([1, 2, 3], ()))), os_show_addr = (\<lambda>_. [])\<rparr>) id (Some 5) 0
      (\<lparr>std_socket = (), std_send_seq = 0\<rparr>, udp_rc_server_new (sample_stream 9) cli_server no_endpoints) []
    = Some ((\<lparr>std_socket = (), std_send_seq = 0\<rparr>, udp_rc_server_new (sample_stream 9) cli_server no_endpoints), run)
    \<and> run_end run = ExitCode 3"
proof -
  let ?os = "\<lparr>os_send_to = (\<lambda>q _ _. (q, Inr 0)), os_set_read_timeout = (\<lambda>q _. (q, Inr ())),
        os_recv_from = (\<lambda>q. (q, Inr ([1, 2, 3], ()))), os_show_addr = (\<lambda>_. [])\<rparr> :: (unit, unit) os_socket"
  have "datagram_error [1, 2, 3] = Some ShortFrame"
    by (simp add: datagram_error_def decode_annex_j_udp_payload_def)
  moreover have "\<forall>m. Some 5 = Some m \<longrightarrow> serve_count 0 < m" by (simp add: serve_count_def)
  ultimately show ?thesis
    using malformed_datagram_stops_server [of ?os "\<lparr>std_socket = (), std_send_seq = 0\<rparr>" "()" "()" "[1, 2, 3]" "()" ShortFrame "Some 5" 0 id
        "udp_rc_server_new (sample_stream 9) cli_server no_endpoints" "[]"] by fastforce
qed

text \<open>C39: flags read back what the tool prints, and nothing else goes wrong but an odd number of digits. A stream printed by the tool and octets printed in hexadecimal are parsed to themselves; on a text of ASCII characters the parser of hexadecimal octets panics exactly when the number of characters is odd.\<close>

theorem flags_read_back:
  assumes "flag_value args stream_flag = Some (format_stream_hex sid)" and "flag_value args octets_flag = Some (hex_encode bs)"
    and "flag_value args text_flag = Some v" and "ascii v"
  shows "parse_stream_arg args stream_flag = Some sid \<and> parse_hex_arg args octets_flag = Returns (Some bs)
    \<and> (parse_hex_arg args text_flag = Panics \<longleftrightarrow> odd (length v))"
  using parse_format_stream [OF assms(1)] parse_hex_arg_octets [OF assms(2)] parse_hex_arg_octets [OF assms(3)]
    hex_octets_panics [OF assms(4)] by (cases "hex_octets v") (simp_all add: hex_octets_encode)

lemma flags_read_back_witness:
  "parse_hex_arg [''--stream'', format_stream_hex (sample_stream 1), ''--initial'', hex_encode [0xDE, 0xAD], ''--payload'', ''abc''] ''--payload'' = Panics"
proof -
  let ?args = "[''--stream'', format_stream_hex (sample_stream 1), ''--initial'', hex_encode [0xDE, 0xAD], ''--payload'', ''abc'']"
  have start: "hex_lower 16 m \<noteq> CHR ''-'' # cs" "hex_lower 16 m \<noteq> []" for m cs
    using digit_char_cases(5) [of "m div 16 ^ 15 mod 16"] hex_lower.simps(2) [of 15 m] by auto
  have octets: "hex_encode [0xDE, 0xAD] = ''dead''" by code_simp
  have "flag_value ?args ''--stream'' = Some (format_stream_hex (sample_stream 1))" by simp
  moreover have "flag_value ?args ''--initial'' = Some (hex_encode [0xDE, 0xAD])"
    using start by (simp add: format_stream_hex_def del: hex_lower.simps)
  moreover have "flag_value ?args ''--payload'' = Some ''abc''"
    using start by (simp add: octets format_stream_hex_def del: hex_lower.simps)
  moreover have "ascii ''abc''" by code_simp
  ultimately show ?thesis using flags_read_back by fastforce
qed


end
