(* ===== verification/Rcp_Memory.thy ===== *)
theory Rcp_Memory
  imports Rcp_Decorator_Facts
begin

text \<open>
  The specification of the RC Server over mock endpoints: an addressed memory. Its state is the
  register block, the root client and a map from an address (stream and bus id) to the bytes kept
  there. The server of \<open>src/mock.rs\<close>, with its binding table, its objects and its frames,
  implements it.
\<close>

section \<open>Machines and their specifications\<close>

text \<open>
  \<open>machine_run\<close> feeds inputs to a machine and collects the outputs. A concrete machine that
  simulates a specification step by step does so on every sequence of inputs.
\<close>

fun machine_run :: "('s \<Rightarrow> 'i \<Rightarrow> 's \<times> 'o) \<Rightarrow> 's \<Rightarrow> 'i list \<Rightarrow> 's \<times> 'o list" where
  "machine_run step s [] = (s, [])"
| "machine_run step s (i # is) =
    (case step s i of (s', out) \<Rightarrow> (case machine_run step s' is of (s'', outs) \<Rightarrow> (s'', out # outs)))"

lemma machine_run_append:
  "machine_run step s (is @ js) =
    (let r = machine_run step s is; r' = machine_run step (fst r) js in (fst r', snd r @ snd r'))"
  by (induction "is" arbitrary: s) (simp_all add: Let_def case_prod_beta)

locale refined_machine =
  fixes step :: "'s \<Rightarrow> 'i \<Rightarrow> 's \<times> 'o"
    and spec :: "'a \<Rightarrow> 'i \<Rightarrow> 'a \<times> 'o"
    and abs :: "'s \<Rightarrow> 'a"
    and inv :: "'s \<Rightarrow> bool"
    and allowed :: "'i \<Rightarrow> bool"
  assumes keeps: "inv s \<Longrightarrow> allowed i \<Longrightarrow> inv (fst (step s i))"
    and simulates: "inv s \<Longrightarrow> allowed i \<Longrightarrow> spec (abs s) i = apfst abs (step s i)"
begin

lemma run_refines:
  "inv s \<Longrightarrow> \<forall>i\<in>set is. allowed i \<Longrightarrow>
     inv (fst (machine_run step s is)) \<and> machine_run spec (abs s) is = apfst abs (machine_run step s is)"
proof (induction "is" arbitrary: s)
  case (Cons i "is")
  obtain s' out where s: "step s i = (s', out)" by fastforce
  have "inv s'" "spec (abs s) i = (abs s', out)"
    using keeps [OF Cons.prems(1), of i] simulates [OF Cons.prems(1), of i] Cons.prems(2) by (simp_all add: s)
  then show ?case using Cons.IH [of s'] Cons.prems(2) by (auto simp: s split: prod.splits)
qed simp

end

section \<open>The specification\<close>

type_synonym address = "stream_id \<times> u16"

record spec_server =
  spec_general :: general_registers
  spec_root :: "stream_id option"
  spec_memory :: "address \<rightharpoonup> bytes"

fun spec_request :: "spec_server \<Rightarrow> stream_id \<times> acf_abb_message \<Rightarrow> spec_server \<times> bytes rcp_result" where
  "spec_request sp (sid, m) =
    (let bus = byte_bus_id (abb_info m) in
     if bus = 0
     then if \<not> bmi_op (abb_info m) then (sp, Inr (encode_general_registers (spec_general sp)))
       else if spec_root sp \<noteq> Some sid then (sp, Inl UnauthorizedAccess)
       else (case decode_general_registers (abb_payload m) of
               Inl e \<Rightarrow> (sp, Inl e) | Inr g \<Rightarrow> (sp\<lparr>spec_general := g\<rparr>, Inr []))
     else (case spec_memory sp (sid, bus) of
             None \<Rightarrow> (sp, Inl EpNotFound)
           | Some held \<Rightarrow>
               if bmi_op (abb_info m) then (sp\<lparr>spec_memory := (spec_memory sp)((sid, bus) \<mapsto> abb_payload m)\<rparr>, Inr [])
               else (sp, Inr (take (unat (as_read_size (read_size_segment (abb_info m)))) held))))"

text \<open>What the server's answer to a request says: the payload of the response, or the error.\<close>

definition answer_payload :: "acf_abb_message rcp_result \<Rightarrow> bytes rcp_result" where
  "answer_payload r = map_sum id abb_payload r"

fun server_request ::
  "rc_server \<times> mock_endpoint ep_store \<Rightarrow> stream_id \<times> acf_abb_message
    \<Rightarrow> (rc_server \<times> mock_endpoint ep_store) \<times> bytes rcp_result" where
  "server_request st (sid, m) = apsnd answer_payload (handle_abb mock_ops st sid m)"

definition memory_of :: "rc_server \<Rightarrow> mock_endpoint ep_store \<Rightarrow> address \<rightharpoonup> bytes" where
  "memory_of srv store = (\<lambda>(sid, bus). map_option (\<lambda>r. mock_buf (store r)) (resolve srv sid bus))"

fun spec_of :: "rc_server \<times> mock_endpoint ep_store \<Rightarrow> spec_server" where
  "spec_of (srv, store) =
    \<lparr>spec_general = srv_general srv, spec_root = srv_root_client srv, spec_memory = memory_of srv store\<rparr>"

text \<open>No two addresses lead to the same object.\<close>

definition private_endpoints :: "rc_server \<Rightarrow> bool" where
  "private_endpoints srv \<longleftrightarrow>
     (\<forall>sid bus sid' bus' r. resolve srv sid bus = Some r \<longrightarrow> resolve srv sid' bus' = Some r
        \<longrightarrow> sid = sid' \<and> bus = bus')"

fun memory_inv :: "rc_server \<times> mock_endpoint ep_store \<Rightarrow> bool" where
  "memory_inv (srv, store) \<longleftrightarrow> private_endpoints srv \<and> mock.store_ok store"

lemma private_endpoints_new: "private_endpoints (rc_server_new g)"
  by (simp add: private_endpoints_def resolve_def rc_server_new_def)

lemma register_keeps_private:
  assumes "registry_ok srv" and "private_endpoints srv" and "\<And>sid bus. resolve srv sid bus \<noteq> Some r"
  shows "private_endpoints (fst (register_endpoint srv sid bus r))"
  using assms(2, 3) unfolding private_endpoints_def resolve_register_endpoint [OF assms(1)]
  by (auto split: if_splits)

lemma resolve_general [simp]: "resolve (srv\<lparr>srv_general := g\<rparr>) = resolve srv"
  by (simp add: resolve_def fun_eq_iff)

lemma handle_device_resolve:
  "handle_device ops srv store sid request =
    (case resolve srv sid (byte_bus_id (abb_info request)) of
       None \<Rightarrow> (store, Inl EpNotFound)
     | Some r \<Rightarrow>
         if bmi_op (abb_info request)
         then (case ep_write ops (store r) (abb_payload request) of
                 (ep, res) \<Rightarrow> (store(r := ep), map_sum id (\<lambda>_. []) res))
         else (case ep_read ops (store r) (as_read_size (read_size_segment (abb_info request))) of
                 (ep, result) \<Rightarrow> (store(r := ep), result)))"
  by (auto simp: handle_device_def resolve_def split: option.splits prod.splits sum.splits)

lemma memory_of_write:
  assumes "private_endpoints srv" and "resolve srv sid bus = Some r"
  shows "memory_of srv (store(r := (store r)\<lparr>mock_buf := p\<rparr>)) = (memory_of srv store)((sid, bus) \<mapsto> p)"
  using assms unfolding memory_of_def private_endpoints_def
  by (auto simp: fun_eq_iff map_option_case split: option.splits)

lemma server_request_ep0:
  "byte_bus_id (abb_info m) = 0 \<Longrightarrow>
     spec_request (spec_of st) (sid, m) = apfst spec_of (server_request st (sid, m))"
  by (cases st) (auto simp: handle_abb_eq handle_ep0_eq is_ep0_address_def EP0_BYTE_BUS_ID_def Let_def answer_payload_def
      memory_of_def split: sum.splits)

lemma server_request_device:
  assumes "private_endpoints srv" and "byte_bus_id (abb_info m) \<noteq> 0"
  shows "spec_request (spec_of (srv, store)) (sid, m) = apfst spec_of (server_request (srv, store) (sid, m))"
proof (cases "resolve srv sid (byte_bus_id (abb_info m))")
  case None
  then show ?thesis
    using assms(2)
    by (simp add: handle_abb_eq is_ep0_address_def EP0_BYTE_BUS_ID_def handle_device_resolve answer_payload_def memory_of_def)
next
  case (Some r)
  then show ?thesis
    using assms(2) memory_of_write [OF assms(1) Some, of store]
    by (simp add: handle_abb_eq is_ep0_address_def EP0_BYTE_BUS_ID_def handle_device_resolve answer_payload_def
        mock_ops_def mock_read_def mock_write_def Let_def memory_of_def [of srv store] min_def)
qed

definition message_fits :: "stream_id \<times> acf_abb_message \<Rightarrow> bool" where
  "message_fits sm \<longleftrightarrow> request_ok (snd sm)"

lemma handle_abb_private:
  "handle_abb ops (srv, store) sid m = ((srv', store'), r) \<Longrightarrow> private_endpoints srv' = private_endpoints srv"
  using handle_abb_server by (fastforce simp: private_endpoints_def)

lemma handle_abb_store_ok:
  assumes "mock.store_ok store" and "request_ok m" and "handle_abb mock_ops (srv, store) sid m = ((srv', store'), r)"
  shows "mock.store_ok store'"
proof (cases "is_ep0_address (byte_bus_id (abb_info m))")
  case True
  then show ?thesis using assms(1, 3) by (auto simp: handle_abb_eq Let_def split: prod.splits)
next
  case False
  obtain t x where d: "handle_device mock_ops srv store sid m = (t, x)" by fastforce
  have "length (abb_payload m) \<le> 2036" using assms(2) by (simp add: request_ok_def)
  then have "mock.store_ok t" using mock.handle_device_contract(1) [OF assms(1) _ d] by blast
  then show ?thesis using assms(3) False by (auto simp: handle_abb_eq d Let_def)
qed

interpretation memory: refined_machine server_request spec_request spec_of memory_inv message_fits
proof
  fix st :: "rc_server \<times> mock_endpoint ep_store" and i :: "stream_id \<times> acf_abb_message"
  assume inv: "memory_inv st" and ok: "message_fits i"
  obtain srv store sid m where st: "st = (srv, store)" and i: "i = (sid, m)" by (metis prod.exhaust)
  show "spec_request (spec_of st) i = apfst spec_of (server_request st i)"
    using inv server_request_ep0 [of m st sid] server_request_device [of srv m store sid]
    unfolding st i memory_inv.simps by blast
  obtain srv' store' r where h: "handle_abb mock_ops (srv, store) sid m = ((srv', store'), r)"
    by (metis prod.collapse)
  have "mock.store_ok store'"
    using handle_abb_store_ok [OF _ _ h] inv ok by (simp add: st i message_fits_def)
  then show "memory_inv (fst (server_request st i))"
    using inv handle_abb_private [OF h] by (simp add: st i h)
qed

section \<open>The requests of a frame\<close>

text \<open>
  The loop gives up at a root client's EP0 write that is shorter than the register block; the
  requests before it are executed.
\<close>

definition aborts :: "stream_id option \<Rightarrow> stream_id \<Rightarrow> acf_abb_message \<Rightarrow> bool" where
  "aborts root sid m \<longleftrightarrow>
     byte_bus_id (abb_info m) = 0 \<and> bmi_op (abb_info m) \<and> root = Some sid \<and> length (abb_payload m) < 65"

definition executed :: "stream_id option \<Rightarrow> stream_id \<Rightarrow> bytes \<Rightarrow> (stream_id \<times> acf_abb_message) list" where
  "executed root sid frame =
    (case frame_requests frame of
       Inl _ \<Rightarrow> []
     | Inr requests \<Rightarrow> map (Pair sid) (takeWhile (\<lambda>m. \<not> aborts root sid m) requests))"

text \<open>What a response shows a client of a request's result.\<close>

fun shows_result :: "bytes rcp_result \<Rightarrow> acf_abb_message \<Rightarrow> bool" where
  "shows_result (Inr p) response \<longleftrightarrow> abb_payload response = p"
| "shows_result (Inl e) response \<longleftrightarrow>
     bmi_err (abb_info response) \<and> (\<exists>code. tc18_wire_code e = Some code \<and> abb_payload response = [code])"

lemma shows_on_wire: "shows_result result (on_wire response) = shows_result result response"
  by (cases result) simp_all

lemma aborts_short: "no_short_ep0_write srv sid m \<longleftrightarrow> \<not> aborts (srv_root_client srv) sid m"
  by (auto simp: no_short_ep0_write_def aborts_def ep0_write_by_root_def is_ep0_address_def EP0_BYTE_BUS_ID_def)

lemma answer_of_shows:
  "answer_of request result = Inr response \<Longrightarrow> shows_result (answer_payload result) response"
  by (auto simp: answer_of_def answer_payload_def build_error_response_def split: sum.splits option.splits)

lemma aborting_request:
  assumes "aborts (srv_root_client srv) sid m"
  shows "handle_abb ops (srv, store) sid m = ((srv, store), Inl ShortFrame)"
  using assms
  by (simp add: aborts_def handle_abb_eq handle_ep0_eq is_ep0_address_def EP0_BYTE_BUS_ID_def
      decode_general_registers_def Let_def rcp_consts)

section \<open>Loops that answer requests\<close>

text \<open>
  The loop over the requests of a frame, for any server: each request is answered by a response or
  an error response, and an error without a wire code ends the loop.
\<close>

fun answer_loop ::
  "('s \<Rightarrow> acf_abb_message \<Rightarrow> 's \<times> acf_abb_message rcp_result) \<Rightarrow> 's \<Rightarrow> acf_abb_message list \<Rightarrow> bytes
    \<Rightarrow> 's \<times> bytes rcp_result" where
  "answer_loop step s [] acc = (s, Inr acc)"
| "answer_loop step s (m # ms) acc =
    (case step s m of (s', result) \<Rightarrow>
      case and_then (answer_of m result) encode_acf_abb of
        Inl e \<Rightarrow> (s', Inl e)
      | Inr encoded \<Rightarrow> answer_loop step s' ms (acc @ encoded))"

lemma dispatch_is_loop:
  "dispatch_requests ops st sid ms acc = answer_loop (\<lambda>st. handle_abb ops st sid) st ms acc"
  by (induction ms arbitrary: st acc)
    (auto simp: dispatch_requests_Cons simp del: dispatch_requests.simps(2) split: prod.splits sum.splits)

locale answering =
  fixes step :: "'s \<Rightarrow> acf_abb_message \<Rightarrow> 's \<times> acf_abb_message rcp_result"
    and inv :: "'s \<Rightarrow> bool"
    and stops :: "'s \<Rightarrow> acf_abb_message \<Rightarrow> bool"
    and reply :: "acf_abb_message \<Rightarrow> acf_abb_message \<Rightarrow> bool"
  assumes stopped: "stops s m \<Longrightarrow> step s m = (s, Inl ShortFrame)"
    and kept: "inv s \<Longrightarrow> request_ok m \<Longrightarrow> \<not> stops s m \<Longrightarrow> step s m = (s', result) \<Longrightarrow> inv s' \<and> stops s' = stops s"
    and answered: "inv s \<Longrightarrow> request_ok m \<Longrightarrow> \<not> stops s m \<Longrightarrow> step s m = (s', result)
      \<Longrightarrow> \<exists>response bs. answer_of m result = Inr response \<and> encode_acf_abb response = Inr bs \<and> reply m response"
begin

text \<open>
  The loop as a run of the machine: every request before the first that stops it is answered, and
  the call succeeds exactly when there is none that does.
\<close>

lemma loop_is_run:
  assumes "inv s" and "\<forall>m\<in>set ms. request_ok m"
    and "machine_run (\<lambda>s m. apsnd answer_payload (step s m)) s (takeWhile (\<lambda>m. \<not> stops s m) ms) = (s', outs)"
  shows "\<exists>responses bs. list_all2 shows_result outs responses
    \<and> list_all2 reply (take (length outs) ms) responses
    \<and> encode_abb_messages responses = Inr bs
    \<and> answer_loop step s ms acc = (s', if length outs = length ms then Inr (acc @ bs) else Inl ShortFrame)"
  using assms
proof (induction ms arbitrary: s acc s' outs)
  case Nil
  then show ?case by (intro exI [of _ "[]"]) simp
next
  case (Cons m ms)
  show ?case
  proof (cases "stops s m")
    case True
    moreover have "s' = s" "outs = []" using Cons.prems(3) True by simp_all
    ultimately show ?thesis
      by (intro exI [of _ "[]"]) (simp add: stopped answer_of_def build_error_response_def)
  next
    case False
    obtain s1 r where h: "step s m = (s1, r)" by fastforce
    have ok: "request_ok m" using Cons.prems(2) by simp
    have c: "inv s1" "stops s1 = stops s" using kept [OF Cons.prems(1) ok False h] by simp_all
    obtain response bs where a: "answer_of m r = Inr response" "encode_acf_abb response = Inr bs" "reply m response"
      using answered [OF Cons.prems(1) ok False h] by blast
    from Cons.prems(3) False obtain outs1
      where run: "machine_run (\<lambda>s m. apsnd answer_payload (step s m)) s1 (takeWhile (\<lambda>m. \<not> stops s1 m) ms) = (s', outs1)"
        and outs: "outs = answer_payload r # outs1"
      by (auto simp: h c(2) split: prod.splits)
    obtain responses bs1 where IH: "list_all2 shows_result outs1 responses" "list_all2 reply (take (length outs1) ms) responses"
      "encode_abb_messages responses = Inr bs1"
      "answer_loop step s1 ms (acc @ bs) = (s', if length outs1 = length ms then Inr ((acc @ bs) @ bs1) else Inl ShortFrame)"
      using Cons.IH [OF c(1) _ run, of "acc @ bs"] Cons.prems(2) by auto
    show ?thesis
      using IH a answer_of_shows [OF a(1)] by (intro exI [of _ "response # responses"]) (simp add: h outs)
  qed
qed

end

interpretation mock_loop: answering "\<lambda>st. handle_abb mock_ops st sid" "\<lambda>st. mock.store_ok (snd st)"
  "\<lambda>st. aborts (srv_root_client (fst st)) sid" answers for sid
proof
  fix st st' :: "rc_server \<times> mock_endpoint ep_store" and m result
  obtain srv store where st: "st = (srv, store)" by fastforce
  show "aborts (srv_root_client (fst st)) sid m \<Longrightarrow> handle_abb mock_ops st sid m = (st, Inl ShortFrame)"
    using aborting_request [of srv sid m] by (simp add: st)
  assume inv: "mock.store_ok (snd st)" and ok: "request_ok m" and go: "\<not> aborts (srv_root_client (fst st)) sid m"
    and h: "handle_abb mock_ops st sid m = (st', result)"
  obtain srv' store' where st': "st' = (srv', store')" by fastforce
  note h' = h [unfolded st st']
  have c: "mock.store_ok store'" "answerable result"
    using mock.handle_abb_contract [OF _ ok _ h'] inv go by (simp_all add: st aborts_short)
  show "mock.store_ok (snd st') \<and> aborts (srv_root_client (fst st')) sid = aborts (srv_root_client (fst st)) sid"
    using c(1) handle_abb_server [OF h'] by (auto simp: st st')
  show "\<exists>response bs. answer_of m result = Inr response \<and> encode_acf_abb response = Inr bs \<and> answers m response"
    using answer_of_encodable [OF ok h c(2)] answer_of_answers [OF h] by blast
qed

lemma machine_run_map: "machine_run step s (map f ms) = machine_run (\<lambda>s m. step s (f m)) s ms"
  by (induction ms arbitrary: s) (simp_all split: prod.split)

lemma dispatch_is_run:
  assumes "mock.store_ok store" and "\<forall>m\<in>set requests. request_ok m"
    and "machine_run server_request (srv, store)
        (map (Pair sid) (takeWhile (\<lambda>m. \<not> aborts (srv_root_client srv) sid m) requests)) = (st', outs)"
  shows "\<exists>responses bs. list_all2 shows_result outs responses
    \<and> list_all2 answers (take (length outs) requests) responses
    \<and> encode_abb_messages responses = Inr bs
    \<and> dispatch_requests mock_ops (srv, store) sid requests acc =
        (st', if length outs = length requests then Inr (acc @ bs) else Inl ShortFrame)"
  using mock_loop.loop_is_run [of "(srv, store)" requests sid st' outs acc] assms
  by (simp add: machine_run_map dispatch_is_loop)

section \<open>Frames\<close>

fun spec_frame :: "spec_server \<Rightarrow> stream_id \<times> bytes \<Rightarrow> spec_server \<times> bytes rcp_result list" where
  "spec_frame sp (sid, frame) = machine_run spec_request sp (executed (spec_root sp) sid frame)"

fun server_frames ::
  "'ep endpoint_ops \<Rightarrow> rc_server \<times> 'ep ep_store \<Rightarrow> (stream_id \<times> bytes) list \<Rightarrow> rc_server \<times> 'ep ep_store" where
  "server_frames ops st [] = st"
| "server_frames ops st ((sid, frame) # frames) =
    server_frames ops (fst (handle_ntscf_frame ops st sid frame)) frames"

lemma executed_fit: "\<forall>i\<in>set (executed root sid frame). message_fits i"
proof (cases "frame_requests frame")
  case (Inr requests)
  then show ?thesis
    using frame_requests_ok [OF Inr] by (auto simp: executed_def message_fits_def dest: set_takeWhileD)
qed (simp add: executed_def)

lemma resolve_sequence_num [simp]: "resolve (srv\<lparr>srv_sequence_num := n\<rparr>) = resolve srv"
  by (simp add: resolve_def fun_eq_iff)

lemma memory_of_sequence_num [simp]: "memory_of (srv\<lparr>srv_sequence_num := n\<rparr>) store = memory_of srv store"
  by (simp add: memory_of_def)

lemma private_sequence_num [simp]: "private_endpoints (srv\<lparr>srv_sequence_num := n\<rparr>) = private_endpoints srv"
  by (simp add: private_endpoints_def)

lemma handled_frame_run:
  assumes inv: "memory_inv (srv, store)" and req: "frame_requests frame = Inr requests"
    and h: "handle_ntscf_frame mock_ops (srv, store) sid frame = (st', result)"
    and run: "machine_run server_request (srv, store) (executed (srv_root_client srv) sid frame) = ((srv1, store1), outs)"
  shows "(st' = (srv1, store1) \<or> st' = (srv1\<lparr>srv_sequence_num := srv_sequence_num srv + 1\<rparr>, store1))
    \<and> (\<forall>reply. result = Inr reply \<longrightarrow>
         (\<exists>responses. reply_of sid (ucast (srv_sequence_num srv)) responses reply
            \<and> list_all2 answers requests responses \<and> list_all2 shows_result outs responses))"
proof -
  have ok: "mock.store_ok store" "\<forall>m\<in>set requests. request_ok m"
    using inv frame_requests_ok [OF req] by simp_all
  have "machine_run server_request (srv, store)
      (map (Pair sid) (takeWhile (\<lambda>m. \<not> aborts (srv_root_client srv) sid m) requests)) = ((srv1, store1), outs)"
    using run by (simp add: executed_def req)
  from dispatch_is_run [OF ok this, of "[]"] obtain responses bs
    where r: "list_all2 shows_result outs responses" "encode_abb_messages responses = Inr bs"
      "list_all2 answers (take (length outs) requests) responses"
      and d: "dispatch_requests mock_ops (srv, store) sid requests [] =
        ((srv1, store1), if length outs = length requests then Inr bs else Inl ShortFrame)"
    by auto
  have seq: "srv_sequence_num srv1 = srv_sequence_num srv" using dispatch_sequence_num [OF d] .
  show ?thesis
  proof (cases "length outs = length requests")
    case False
    then show ?thesis using h by (auto simp: handle_frame_cases req d)
  next
    case True
    have st': "st' = (srv1\<lparr>srv_sequence_num := srv_sequence_num srv + 1\<rparr>, store1)"
      and e: "encode_ntscf_frame sid (ucast (srv_sequence_num srv)) bs = result"
      using h True by (simp_all add: handle_frame_cases req d seq)
    have "list_all2 answers requests responses" using r(3) True by simp
    then have ans: "list_all2 answers requests (map on_wire responses)"
      by (auto simp: list_all2_conv_all_nth answers_on_wire)
    have shown: "list_all2 shows_result outs (map on_wire responses)"
      using r(1) by (auto simp: list_all2_conv_all_nth shows_on_wire)
    have "responses \<noteq> []" using ans frame_requests_nonempty [OF req] by auto
    then have "decode_acf_abb_messages bs = Inr (map on_wire responses)"
      using r(2) by (rule decode_encode_abb_messages [rotated])
    then have "reply_of sid (ucast (srv_sequence_num srv)) (map on_wire responses) reply" if "result = Inr reply" for reply
      using decode_encode_ntscf_frame e that by (auto simp: reply_of_def)
    with ans shown have "\<exists>responses. reply_of sid (ucast (srv_sequence_num srv)) responses reply
        \<and> list_all2 answers requests responses \<and> list_all2 shows_result outs responses"
      if "result = Inr reply" for reply
      using that by blast
    then show ?thesis using st' by simp
  qed
qed

lemma handled_frame_refines:
  assumes inv: "memory_inv (srv, store)"
    and h: "handle_ntscf_frame mock_ops (srv, store) sid frame = (st', result)"
    and sp: "spec_frame (spec_of (srv, store)) (sid, frame) = (sp', outs)"
  shows "memory_inv st' \<and> spec_of st' = sp' \<and> srv_root_client (fst st') = srv_root_client srv"
    and "result = Inr reply \<Longrightarrow> \<exists>requests responses. frame_requests frame = Inr requests
      \<and> reply_of sid (ucast (srv_sequence_num srv)) responses reply
      \<and> list_all2 answers requests responses \<and> list_all2 shows_result outs responses"
proof -
  obtain srv1 store1 outs1 where run: "machine_run server_request (srv, store)
      (executed (srv_root_client srv) sid frame) = ((srv1, store1), outs1)" by (metis prod.collapse)
  have r: "memory_inv (srv1, store1)" "sp' = spec_of (srv1, store1)" "outs = outs1"
    using memory.run_refines [OF inv executed_fit, of "srv_root_client srv" sid frame] sp by (simp_all add: run)
  have root: "srv_root_client (fst st') = srv_root_client srv"
    using handled_frame_server [of mock_ops srv store sid frame "fst st'" "snd st'" result] h by simp
  have "(memory_inv st' \<and> spec_of st' = sp') \<and> (result = Inr reply \<longrightarrow>
      (\<exists>requests responses. frame_requests frame = Inr requests
        \<and> reply_of sid (ucast (srv_sequence_num srv)) responses reply
        \<and> list_all2 answers requests responses \<and> list_all2 shows_result outs responses))"
  proof (cases "frame_requests frame")
    case (Inl e)
    then show ?thesis using h inv r run by (auto simp: handle_frame_cases executed_def)
  next
    case (Inr requests)
    from handled_frame_run [OF inv Inr h run] r show ?thesis by (auto simp: Inr)
  qed
  with root show "memory_inv st' \<and> spec_of st' = sp' \<and> srv_root_client (fst st') = srv_root_client srv"
    and "result = Inr reply \<Longrightarrow> \<exists>requests responses. frame_requests frame = Inr requests
      \<and> reply_of sid (ucast (srv_sequence_num srv)) responses reply
      \<and> list_all2 answers requests responses \<and> list_all2 shows_result outs responses"
    by simp_all
qed

section \<open>Histories\<close>

text \<open>
  The requests a sequence of frames executes, whatever the frames contain, and what the last of
  them to write an address has left there.
\<close>

definition history :: "stream_id option \<Rightarrow> (stream_id \<times> bytes) list \<Rightarrow> (stream_id \<times> acf_abb_message) list" where
  "history root frames = concat (map (\<lambda>(sid, frame). executed root sid frame) frames)"

fun last_written :: "address \<Rightarrow> bytes \<Rightarrow> (stream_id \<times> acf_abb_message) list \<Rightarrow> bytes" where
  "last_written a held [] = held"
| "last_written a held ((sid, m) # ms) =
    last_written a (if (sid, byte_bus_id (abb_info m)) = a \<and> bmi_op (abb_info m) then abb_payload m else held) ms"

lemma server_frames_refine:
  assumes "memory_inv st"
  shows "memory_inv (server_frames mock_ops st frames)
    \<and> srv_root_client (fst (server_frames mock_ops st frames)) = srv_root_client (fst st)
    \<and> spec_of (server_frames mock_ops st frames)
      = fst (machine_run spec_request (spec_of st) (history (srv_root_client (fst st)) frames))"
  using assms
proof (induction frames arbitrary: st)
  case (Cons f frames)
  obtain srv store sid frame where st: "st = (srv, store)" and f: "f = (sid, frame)" by (metis prod.exhaust)
  obtain st1 result where h: "handle_ntscf_frame mock_ops (srv, store) sid frame = (st1, result)" by fastforce
  obtain sp1 outs where sp: "spec_frame (spec_of (srv, store)) (sid, frame) = (sp1, outs)" by fastforce
  have r: "memory_inv st1" "spec_of st1 = sp1" "srv_root_client (fst st1) = srv_root_client srv"
    using handled_frame_refines(1) [OF Cons.prems [unfolded st] h sp] by simp_all
  have "fst (machine_run spec_request (spec_of (srv, store)) (executed (srv_root_client srv) sid frame)) = spec_of st1"
    using sp by (simp add: r(2))
  then show ?case
    using Cons.IH [OF r(1)] by (simp add: st f h r(3) history_def machine_run_append Let_def del: spec_of.simps)
qed (simp add: history_def)

lemma spec_request_memory:
  assumes "spec_memory sp (sid, bus) = Some held" and "bus \<noteq> 0"
  shows "spec_memory (fst (spec_request sp (sid', m))) (sid, bus)
    = Some (if (sid', byte_bus_id (abb_info m)) = (sid, bus) \<and> bmi_op (abb_info m) then abb_payload m else held)"
  using assms by (auto simp: Let_def split: sum.splits option.splits)

lemma spec_run_memory:
  "spec_memory sp (sid, bus) = Some held \<Longrightarrow> bus \<noteq> 0 \<Longrightarrow>
     spec_memory (fst (machine_run spec_request sp ms)) (sid, bus) = Some (last_written (sid, bus) held ms)"
proof (induction ms arbitrary: sp held)
  case (Cons im ms)
  obtain sid' m where im: "im = (sid', m)" by (cases im)
  from Cons.IH [OF spec_request_memory [OF Cons.prems, of sid' m] Cons.prems(2)] show ?case
    by (simp add: im case_prod_beta del: spec_request.simps)
qed simp

lemma frame_with_read:
  assumes inv: "memory_inv (srv, store)" and req: "frame_requests frame = Inr [m]" and "\<not> bmi_op (abb_info m)"
  shows "\<exists>st' reply. handle_ntscf_frame mock_ops (srv, store) sid frame = (st', Inr reply)"
proof -
  have "\<not> aborts (srv_root_client srv) sid m" using assms(3) by (simp add: aborts_def)
  then obtain st' outs where run: "machine_run server_request (srv, store)
      (map (Pair sid) (takeWhile (\<lambda>m. \<not> aborts (srv_root_client srv) sid m) [m])) = (st', outs)"
    and one: "length outs = 1"
    by (cases "server_request (srv, store) (sid, m)") (simp del: server_request.simps)
  obtain bs where d: "dispatch_requests mock_ops (srv, store) sid [m] [] = (st', Inr bs)"
    using dispatch_is_run [OF _ _ run, of "[]"] one inv frame_requests_ok [OF req, of m] by auto
  moreover have "length bs \<le> 2047" using dispatch_single [OF d] by simp
  ultimately show ?thesis
    using dispatched_frame_handled [OF req, of mock_ops srv store sid "fst st'" "snd st'" bs] by auto
qed

lemma read_after_history:
  assumes inv: "memory_inv (srv, store)" and r: "resolve srv sid bus = Some r" and bus: "bus \<noteq> 0"
    and req: "frame_requests frame = Inr [m]" and m: "byte_bus_id (abb_info m) = bus" "\<not> bmi_op (abb_info m)"
    and st: "st = server_frames mock_ops (srv, store) frames"
  shows "\<exists>st' reply response. handle_ntscf_frame mock_ops st sid frame = (st', Inr reply)
    \<and> reply_of sid (ucast (srv_sequence_num (fst st))) [response] reply \<and> answers m response
    \<and> abb_payload response = take (unat (as_read_size (read_size_segment (abb_info m))))
        (last_written (sid, bus) (mock_buf (store r)) (history (srv_root_client srv) frames))"
proof -
  obtain srv1 store1 where st1: "st = (srv1, store1)" by fastforce
  have inv1: "memory_inv (srv1, store1)" and root: "srv_root_client srv1 = srv_root_client srv"
    and run: "spec_of (srv1, store1)
      = fst (machine_run spec_request (spec_of (srv, store)) (history (srv_root_client srv) frames))"
    using server_frames_refine [OF inv, of frames] unfolding st [symmetric] st1 fst_conv by blast+
  have "spec_memory (spec_of (srv, store)) (sid, bus) = Some (mock_buf (store r))"
    by (simp add: memory_of_def r)
  from spec_run_memory [OF this bus, of "history (srv_root_client srv) frames"]
  have held: "spec_memory (spec_of (srv1, store1)) (sid, bus)
      = Some (last_written (sid, bus) (mock_buf (store r)) (history (srv_root_client srv) frames))"
    by (simp only: run)
  obtain st' reply where h: "handle_ntscf_frame mock_ops (srv1, store1) sid frame = (st', Inr reply)"
    using frame_with_read [OF inv1 req m(2)] by blast
  have "executed (srv_root_client srv1) sid frame = [(sid, m)]"
    using m(2) by (simp add: executed_def req aborts_def)
  then have sp: "spec_frame (spec_of (srv1, store1)) (sid, frame) = (spec_of (srv1, store1),
      [Inr (take (unat (as_read_size (read_size_segment (abb_info m))))
        (last_written (sid, bus) (mock_buf (store r)) (history (srv_root_client srv) frames)))])"
    using held m bus by simp
  from handled_frame_refines(2) [OF inv1 h sp] show ?thesis
    using h by (auto simp: st1 req list_all2_Cons1)
qed

section \<open>Wrapped endpoints\<close>

text \<open>An endpoint that stands for a mock endpoint can take its place behind the server.\<close>

context endpoint_simulation begin

lemma frames_simulation:
  "all_ok store \<Longrightarrow> all_ok (snd (server_frames ops (srv, store) frames))
    \<and> server_frames ops' (srv, abs_store store) frames = apsnd abs_store (server_frames ops (srv, store) frames)"
proof (induction frames arbitrary: srv store)
  case (Cons f frames)
  obtain sid frame where f: "f = (sid, frame)" by (cases f)
  obtain srv1 store1 result where h: "handle_ntscf_frame ops (srv, store) sid frame = ((srv1, store1), result)"
    by (metis prod.collapse)
  have "all_ok store1" "handle_ntscf_frame ops' (srv, abs_store store) sid frame = ((srv1, abs_store store1), result)"
    using handle_frame_simulation [OF Cons.prems, of srv sid frame] by (simp_all add: h)
  then show ?case using Cons.IH [of store1 srv1] by (simp add: f h)
qed simp

lemma frame_after_frames:
  assumes "\<forall>r. ok (store r)" and st: "st = server_frames ops (srv, store) frames"
    and st': "st' = server_frames ops' (srv, \<lambda>r. abs (store r)) frames"
    and h: "handle_ntscf_frame ops' st' sid frame = (st'', result)"
  shows "\<exists>s. handle_ntscf_frame ops st sid frame = (s, result) \<and> fst st = fst st'"
proof -
  obtain srv1 store1 where s: "server_frames ops (srv, store) frames = (srv1, store1)" by fastforce
  have "all_ok store1" and e: "st' = (srv1, abs_store store1)"
    using frames_simulation [of store srv frames] assms(1) st' by (simp_all add: s all_ok_def abs_store_def)
  then show ?thesis
    using handle_frame_simulation [of store1 srv1 sid frame] h
    by (cases "handle_ntscf_frame ops (srv1, store1) sid frame") (simp add: st s e)
qed

end

section \<open>Concrete inputs\<close>

lemma single_frame:
  assumes "encode_acf_abb m = Inr bs"
  shows "\<exists>frame. frame_requests frame = Inr [on_wire m]"
proof -
  have "encode_abb_messages [m] = Inr bs" by (simp add: assms)
  moreover have "length bs \<le> 2047" using encode_acf_abb_length(3) [OF assms] by simp
  then obtain frame where "encode_ntscf_frame (sample_stream 1) 0 bs = Inr frame"
    by (auto simp: encode_ntscf_frame_cases)
  ultimately show ?thesis using frame_requests_encoded [of "[m]" bs] by auto
qed

definition device_write :: "u16 \<Rightarrow> bytes \<Rightarrow> acf_abb_message" where
  "device_write bus p =
    \<lparr>abb_info = byte_message_info_default\<lparr>bmi_op := True, byte_bus_id := bus\<rparr>, abb_payload = p\<rparr>"

definition device_read :: "u16 \<Rightarrow> u16 \<Rightarrow> acf_abb_message" where
  "device_read bus n =
    \<lparr>abb_info = byte_message_info_default\<lparr>byte_bus_id := bus, read_size_segment := ReadSizeOrSegment n\<rparr>, abb_payload = []\<rparr>"

definition device_server :: rc_server where
  "device_server = fst (register_endpoint sample_server (sample_stream 1) 3 0)"

lemma sample_registry: "registry_ok sample_server" "private_endpoints sample_server"
  "\<And>sid bus. resolve sample_server sid bus = None" "lookup_binding (srv_endpoints sample_server) sid bus = None"
  using registry_ok_new [of zero_registers] private_endpoints_new [of zero_registers]
  by (simp_all add: sample_server_def set_root_client_def registry_ok_def private_endpoints_def resolve_def rc_server_new_def)

lemma device_server_facts:
  "private_endpoints device_server" "resolve device_server (sample_stream 1) 3 = Some 0"
  using register_keeps_private [OF sample_registry(1, 2), of 0 "sample_stream 1" 3] sample_registry(3, 4)
  by (simp_all add: device_server_def resolve_register_endpoint [OF sample_registry(1)] rcp_consts)

lemma sample_store_ok: "mock.store_ok sample_store"
  by (simp add: mock.store_ok_def sample_store_def mock_ok_def mock_endpoint_new_def)

lemma device_frames:
  "\<exists>wf rf. frame_requests wf = Inr [on_wire (device_write 3 [9, 8])]
     \<and> frame_requests rf = Inr [on_wire (device_read 3 64)]"
proof -
  have "\<exists>bs. encode_acf_abb (device_write 3 [9, 8]) = Inr bs" "\<exists>bs. encode_acf_abb (device_read 3 64) = Inr bs"
    unfolding encode_acf_abb_Inr_iff
    by (simp_all add: device_write_def device_read_def byte_message_info_default_def evt_default_def rcp_consts)
  then show ?thesis using single_frame by blast
qed

section \<open>Properties\<close>

text \<open>C2: the server over mock endpoints is an addressed memory. The specification keeps the register block and, for each stream and bus id, the octets last written there. After any sequence of frames, whatever octets they are made of, the server stands for the state the specification reaches with the requests these frames execute; and when it replies to a further frame, the responses answer the requests in order and show the results the specification gives. No two addresses may lead to one object, and the objects hold what a message can carry.\<close>

theorem server_refines_memory:
  assumes "memory_inv (srv, store)" and "st = server_frames mock_ops (srv, store) frames"
    and "handle_ntscf_frame mock_ops st sid frame = (st', result)"
  shows "spec_of st = fst (machine_run spec_request (spec_of (srv, store)) (history (srv_root_client srv) frames))
    \<and> spec_of st' = fst (spec_frame (spec_of st) (sid, frame))
    \<and> (\<forall>reply. result = Inr reply \<longrightarrow>
         (\<exists>requests responses. frame_requests frame = Inr requests
            \<and> reply_of sid (ucast (srv_sequence_num (fst st))) responses reply
            \<and> list_all2 answers requests responses
            \<and> list_all2 shows_result (snd (spec_frame (spec_of st) (sid, frame))) responses))"
proof -
  obtain srv1 store1 where st: "st = (srv1, store1)" by fastforce
  have "memory_inv (srv1, store1)"
    and "spec_of st = fst (machine_run spec_request (spec_of (srv, store)) (history (srv_root_client srv) frames))"
    using server_frames_refine [OF assms(1), of frames] unfolding assms(2) [symmetric] st fst_conv by blast+
  with handled_frame_refines [OF this(1) assms(3) [unfolded st] prod.collapse [symmetric]] show ?thesis
    unfolding st fst_conv by blast
qed

lemma server_refines_memory_witness:
  "\<exists>wf. frame_requests wf = Inr [on_wire (device_write 3 [9, 8])]
     \<and> spec_memory (spec_of (fst (handle_ntscf_frame mock_ops (device_server, sample_store) (sample_stream 1) wf)))
         (sample_stream 1, 3) = Some [9, 8]"
proof -
  obtain wf where wf: "frame_requests wf = Inr [on_wire (device_write 3 [9, 8])]" using device_frames by blast
  have inv: "memory_inv (device_server, sample_store)" using device_server_facts(1) sample_store_ok by simp
  have "spec_of (fst (handle_ntscf_frame mock_ops (device_server, sample_store) (sample_stream 1) wf))
      = fst (spec_frame (spec_of (device_server, sample_store)) (sample_stream 1, wf))"
    using server_refines_memory [OF inv, of _ "[]", OF _ prod.collapse [symmetric], of "(device_server, sample_store)" "sample_stream 1" wf]
    by simp
  moreover have "spec_memory (spec_of (device_server, sample_store)) (sample_stream 1, 3) = Some [1, 2, 3]"
    by (simp add: memory_of_def device_server_facts sample_store_def mock_endpoint_new_def)
  moreover have "executed root (sample_stream 1) wf = [(sample_stream 1, on_wire (device_write 3 [9, 8]))]" for root
    by (simp add: executed_def wf aborts_def device_write_def byte_message_info_default_def)
  ultimately have "spec_memory (spec_of (fst (handle_ntscf_frame mock_ops (device_server, sample_store) (sample_stream 1) wf)))
      (sample_stream 1, 3) = Some [9, 8]"
    by (simp add: device_write_def byte_message_info_default_def del: spec_of.simps)
  with wf show ?thesis by blast
qed

text \<open>C3: a read returns what was written last. Take any sequence of frames of any streams, well formed or not, and then a frame with one read of a device: there is a reply with one response, and it carries the octets that the last executed write to this stream and bus id left, cut to the requested size, or what the object held at the start if there was none. It holds for mock endpoints and for every wrapper that answers like one.\<close>

theorem last_write_is_read:
  assumes "endpoint_simulation ops mock_ops inner ok" and "\<forall>r. ok (store r)"
    and "memory_inv (srv, \<lambda>r. inner (store r))" and "resolve srv sid bus = Some r" and "bus \<noteq> 0"
    and "frame_requests frame = Inr [m]" and "byte_bus_id (abb_info m) = bus" and "\<not> bmi_op (abb_info m)"
    and "st = server_frames ops (srv, store) frames"
  shows "\<exists>st' reply response. handle_ntscf_frame ops st sid frame = (st', Inr reply)
    \<and> reply_of sid (ucast (srv_sequence_num (fst st))) [response] reply \<and> answers m response
    \<and> abb_payload response = take (unat (as_read_size (read_size_segment (abb_info m))))
        (last_written (sid, bus) (mock_buf (inner (store r))) (history (srv_root_client srv) frames))"
  using read_after_history [OF assms(3-8) refl, of frames]
    endpoint_simulation.frame_after_frames [OF assms(1, 2, 9) refl]
  by metis

lemma last_write_is_read_witness:
  "\<exists>wf rf st' reply response n. frame_requests wf = Inr [on_wire (device_write 3 [9, 8])]
    \<and> frame_requests rf = Inr [on_wire (device_read 3 64)]
    \<and> handle_ntscf_frame (deadline_ops mock_ops)
        (server_frames (deadline_ops mock_ops) (device_server, \<lambda>r. \<lparr>dl_inner = sample_store r, dl_deadline = 5\<rparr>)
          [(sample_stream 1, wf)]) (sample_stream 1) rf = (st', Inr reply)
    \<and> reply_of (sample_stream 1) n [response] reply \<and> abb_payload response = [9, 8]"
proof -
  obtain wf rf where f: "frame_requests wf = Inr [on_wire (device_write 3 [9, 8])]"
      "frame_requests rf = Inr [on_wire (device_read 3 64)]" using device_frames by blast
  have inv: "memory_inv (device_server, \<lambda>r. dl_inner \<lparr>dl_inner = sample_store r, dl_deadline = 5\<rparr>)"
    using device_server_facts(1) sample_store_ok by simp
  have w: "last_written (sample_stream 1, 3) b (history root [(sample_stream 1, wf)]) = [9, 8]" for b root
    by (simp add: history_def executed_def f aborts_def device_write_def byte_message_info_default_def)
  have r: "byte_bus_id (abb_info (on_wire (device_read 3 64))) = 3" "\<not> bmi_op (abb_info (on_wire (device_read 3 64)))"
    "as_read_size (read_size_segment (abb_info (on_wire (device_read 3 64)))) = 64"
    by (simp_all add: device_read_def byte_message_info_default_def wire_info_def)
  from last_write_is_read [OF deadlined.endpoint_simulation_axioms _ inv device_server_facts(2) _ f(2) r(1, 2) refl,
      of "[(sample_stream 1, wf)]"] f
  show ?thesis unfolding w r by (simp del: on_wire_fields server_frames.simps) metis
qed


end
