(* ===== verification/Rcp_Contracts.thy ===== *)
theory Rcp_Contracts
  imports Rcp_Memory
begin

text \<open>
  Which wrapped endpoints keep the contract behind which a frame is always answered: a wrapper
  that answers like an endpoint that keeps it, a redundancy pair of two that keep it, a fault
  injector whose planned errors have wire codes, a simulated endpoint with such responses queued.
  The wrappers can be stacked, so the contract of a stack follows from the one of the endpoint
  inside.
\<close>

definition result_ok :: "bytes rcp_result \<Rightarrow> bool" where
  "result_ok r \<longleftrightarrow> (case r of Inl err \<Rightarrow> tc18_wire_code err \<noteq> None | Inr d \<Rightarrow> length d \<le> 2036)"

definition outcome_ok :: "unit rcp_result \<Rightarrow> bool" where
  "outcome_ok r \<longleftrightarrow> (\<forall>err. r = Inl err \<longrightarrow> tc18_wire_code err \<noteq> None)"

lemma endpoint_contractI:
  assumes "\<And>e n. ok e \<Longrightarrow> ok (fst (ep_read ops e n)) \<and> result_ok (snd (ep_read ops e n))"
    and "\<And>e p. ok e \<Longrightarrow> length p \<le> 2036 \<Longrightarrow> ok (fst (ep_write ops e p)) \<and> outcome_ok (snd (ep_write ops e p))"
  shows "endpoint_contract ops ok"
  using assms by unfold_locales (auto simp: result_ok_def outcome_ok_def)

lemma endpoint_contractD:
  assumes "endpoint_contract ops ok" and "ok e"
  shows "ok (fst (ep_read ops e n)) \<and> result_ok (snd (ep_read ops e n))"
    and "length p \<le> 2036 \<Longrightarrow> ok (fst (ep_write ops e p)) \<and> outcome_ok (snd (ep_write ops e p))"
  using endpoint_contract.read_ok [OF assms] endpoint_contract.read_result [OF assms]
    endpoint_contract.write_ok [OF assms] endpoint_contract.write_result [OF assms]
  by (auto simp: result_ok_def outcome_ok_def)

section \<open>Wrappers\<close>

lemma contract_of_simulation:
  assumes "endpoint_simulation ops ops' inner fine" and "endpoint_contract ops' ok"
  shows "endpoint_contract ops (\<lambda>e. fine e \<and> ok (inner e))"
proof (rule endpoint_contractI)
  fix e n
  assume e: "fine e \<and> ok (inner e)"
  show "(fine (fst (ep_read ops e n)) \<and> ok (inner (fst (ep_read ops e n)))) \<and> result_ok (snd (ep_read ops e n))"
    using endpoint_simulation.sim_read [OF assms(1), of e n] endpoint_contractD(1) [OF assms(2), of "inner e" n] e
    by simp
next
  fix e p
  assume e: "fine e \<and> ok (inner e)" and p: "length (p :: bytes) \<le> 2036"
  show "(fine (fst (ep_write ops e p)) \<and> ok (inner (fst (ep_write ops e p)))) \<and> outcome_ok (snd (ep_write ops e p))"
    using endpoint_simulation.sim_write [OF assms(1), of e p] endpoint_contractD(2) [OF assms(2) _ p, of "inner e"] e
    by simp
qed

text \<open>A pair hides the primary's error, so only the endpoint that answers last counts.\<close>

definition pair_ok :: "('ep \<Rightarrow> bool) \<Rightarrow> 'ep redundancy_endpoint \<Rightarrow> bool" where
  "pair_ok ok e \<longleftrightarrow> ok (red_primary e) \<and> (\<forall>sec. red_secondary e = Some sec \<longrightarrow> ok sec)"

lemma pair_dispatch_ok:
  assumes "pair_ok ok e" and "\<And>ep. ok ep \<Longrightarrow> ok (fst (op ep)) \<and> good (snd (op ep))"
  shows "pair_ok ok (fst (redundancy_dispatch op e)) \<and> good (snd (redundancy_dispatch op e))"
  using assms(1) assms(2) [of "red_primary e"] assms(2) [of "the (red_secondary e)"]
  by (auto simp: redundancy_dispatch_def pair_ok_def split: prod.splits sum.splits option.splits)

lemma contract_of_pair:
  assumes "endpoint_contract ops ok"
  shows "endpoint_contract (redundancy_ops ops) (pair_ok ok)"
  by (rule endpoint_contractI)
    (simp_all add: redundancy_ops_def pair_dispatch_ok endpoint_contractD [OF assms])

definition plan_ok :: "fault_spec list \<Rightarrow> bool" where
  "plan_ok specs \<longleftrightarrow> (\<forall>spec\<in>set specs. tc18_wire_code (fault_error spec) \<noteq> None)"

lemma planned_has_code: "plan_ok specs \<Longrightarrow> planned_fault specs n = Some err \<Longrightarrow> tc18_wire_code err \<noteq> None"
  by (auto simp: plan_ok_def planned_fault_def find_Some_iff)

lemma fault_call_ok:
  assumes "plan_ok (fault_specs f)" and "ok (fault_inner f)"
    and "\<And>ep. ok ep \<Longrightarrow> ok (fst (op ep)) \<and> good (snd (op ep))"
    and "\<And>err. tc18_wire_code err \<noteq> None \<Longrightarrow> good (Inl err)"
  shows "(plan_ok (fault_specs (fst (fault_call op f))) \<and> ok (fault_inner (fst (fault_call op f))))
    \<and> good (snd (fault_call op f))"
proof (cases "planned_fault (fault_specs f) (fault_call_no f + 1)")
  case None
  then show ?thesis
    using assms(1) assms(3) [OF assms(2)]
    by (auto simp: fault_call_def next_fault_def planned_fault_def through_def Let_def split: prod.splits)
next
  case (Some err)
  then show ?thesis
    using assms(1, 2) assms(4) planned_has_code [OF assms(1) Some]
    by (auto simp: fault_call_def next_fault_def planned_fault_def Let_def)
qed

lemma contract_of_faults:
  fixes ops :: "'ep endpoint_ops"
  assumes "endpoint_contract ops ok"
  shows "endpoint_contract (fault_ops ops) (\<lambda>f. plan_ok (fault_specs f) \<and> ok (fault_inner f))"
proof (rule endpoint_contractI)
  fix f :: "'ep fault_endpoint" and n
  assume "plan_ok (fault_specs f) \<and> ok (fault_inner f)"
  then show "(plan_ok (fault_specs (fst (ep_read (fault_ops ops) f n)))
      \<and> ok (fault_inner (fst (ep_read (fault_ops ops) f n)))) \<and> result_ok (snd (ep_read (fault_ops ops) f n))"
    unfolding fault_ops_def endpoint_ops.simps
    by (intro fault_call_ok) (simp_all add: endpoint_contractD [OF assms] result_ok_def [of "Inl _"])
next
  fix f :: "'ep fault_endpoint" and p
  assume "plan_ok (fault_specs f) \<and> ok (fault_inner f)" and "length (p :: bytes) \<le> 2036"
  then show "(plan_ok (fault_specs (fst (ep_write (fault_ops ops) f p)))
      \<and> ok (fault_inner (fst (ep_write (fault_ops ops) f p)))) \<and> outcome_ok (snd (ep_write (fault_ops ops) f p))"
    unfolding fault_ops_def endpoint_ops.simps
    by (intro fault_call_ok) (simp_all add: endpoint_contractD [OF assms] outcome_ok_def [of "Inl _"])
qed

definition sim_ok :: "sim_endpoint \<Rightarrow> bool" where
  "sim_ok s \<longleftrightarrow> \<not> sim_closed s \<and> length (sim_buf s) \<le> 2036
     \<and> (\<forall>r\<in>set (sim_read_responses s). result_ok r) \<and> (\<forall>r\<in>set (sim_write_responses s). outcome_ok r)"

interpretation simulated_contract: endpoint_contract sim_ops sim_ok
proof (rule endpoint_contractI)
  fix s n
  assume "sim_ok s"
  then show "sim_ok (fst (ep_read sim_ops s n)) \<and> result_ok (snd (ep_read sim_ops s n))"
    by (auto simp: sim_ops_def sim_read_def sim_ok_def result_ok_def [of "Inr _"] Let_def split: list.split)
next
  fix s p
  assume "sim_ok s" and "length (p :: bytes) \<le> 2036"
  then show "sim_ok (fst (ep_write sim_ops s p)) \<and> outcome_ok (snd (ep_write sim_ops s p))"
    by (auto simp: sim_ops_def sim_write_def sim_ok_def outcome_ok_def [of "Inr _"] Let_def split: list.split)
qed

section \<open>Concrete inputs\<close>

text \<open>
  The primary of a redundancy pair that fails every call.
\<close>

definition failing :: "mock_endpoint fault_endpoint" where
  "failing = fault_inject (fault_new (mock_endpoint_new Gpio [1, 2, 3])) \<lparr>fault_rule_of = Always, fault_error = EpError\<rparr>"

section \<open>Properties\<close>

text \<open>C6: no frame is given up behind endpoints that keep the contract. When every read fits a message, and every error has a wire code, all requests of a frame are answered unless the root client writes EP0 with less than a register block, and the objects still keep the contract; the reply is sent whenever the responses fit an NTSCF frame, which is always so for a single request. Mock and simulated endpoints keep the contract, and wrapping, pairing and fault injection pass it on.\<close>

theorem contract_keeps_frames_answered:
  assumes "endpoint_contract ops ok" and "\<forall>r. ok (store r)" and "frame_requests frame = Inr requests"
    and "\<forall>m\<in>set requests. no_short_ep0_write srv sid m"
  shows "\<exists>srv' store' out. dispatch_requests ops (srv, store) sid requests [] = ((srv', store'), Inr out)
    \<and> (\<forall>r. ok (store' r))
    \<and> (length requests = 1 \<longrightarrow> length out \<le> 2044)
    \<and> (length out \<le> 2047 \<longrightarrow> (\<exists>reply. handle_ntscf_frame ops (srv, store) sid frame
           = ((srv'\<lparr>srv_sequence_num := srv_sequence_num srv + 1\<rparr>, store'), Inr reply)))"
proof -
  have "\<forall>m\<in>set requests. request_ok m \<and> no_short_ep0_write srv sid m"
    using assms(3, 4) frame_requests_ok by blast
  then obtain srv' store' out
    where d: "dispatch_requests ops (srv, store) sid requests [] = ((srv', store'), Inr out)"
      and ok: "\<forall>r. ok (store' r)"
    using endpoint_contract.dispatch_contract [OF assms(1)] assms(2)
    unfolding endpoint_contract.store_ok_def [OF assms(1)] by blast
  have "length out \<le> 2044" if "length requests = 1"
    using that d dispatch_single [of ops "(srv, store)" sid] by (cases requests) auto
  then show ?thesis using d ok dispatched_frame_handled [OF assms(3) d] by blast
qed

lemma contract_keeps_frames_answered_witness:
  "\<exists>wf st' reply. frame_requests wf = Inr [on_wire (device_write 3 [9, 8])]
    \<and> handle_ntscf_frame (redundancy_ops (fault_ops mock_ops))
        (device_server, \<lambda>_. redundancy_new (fault_ops mock_ops) failing (fault_new (mock_endpoint_new Gpio [])))
        (sample_stream 1) wf = (st', Inr reply)"
proof -
  obtain wf where wf: "frame_requests wf = Inr [on_wire (device_write 3 [9, 8])]" using device_frames by blast
  note contract = contract_of_pair [OF contract_of_faults [OF mock.endpoint_contract_axioms]]
  have ok: "\<forall>r :: ep_ref. pair_ok (\<lambda>f. plan_ok (fault_specs f) \<and> mock_ok (fault_inner f))
      (redundancy_new (fault_ops mock_ops) failing (fault_new (mock_endpoint_new Gpio [])))"
    by (simp add: pair_ok_def redundancy_new_def failing_def fault_inject_def fault_new_def plan_ok_def mock_ok_def
        mock_endpoint_new_def)
  have "\<forall>m\<in>set [on_wire (device_write 3 [9, 8])]. no_short_ep0_write device_server (sample_stream 1) m"
    by (simp add: aborts_short aborts_def device_write_def byte_message_info_default_def)
  from contract_keeps_frames_answered [OF contract ok wf this] wf show ?thesis by auto
qed


end
