(* ===== verification/Rcp_Udp_Traces.thy ===== *)
theory Rcp_Udp_Traces
  imports Rcp_Udp_Facts
begin

text \<open>
  What a sequence of datagrams can do to the server of \<open>src/udp.rs\<close>. The datagrams are arbitrary
  octets, and the sender of each is whoever its header names.
\<close>

section \<open>One datagram\<close>

text \<open>The stream a datagram's requests are handled for, when it is decoded at all.\<close>

definition sender_of :: "bytes \<Rightarrow> stream_id option" where
  "sender_of frame =
    (case decode_ntscf_frame frame of
       Inl _ \<Rightarrow> None | Inr (hdr, _) \<Rightarrow> Some (stream_id_from_u64 (ntscf_stream_id hdr)))"

text \<open>What a request of a sender can do to the claim.\<close>

definition claim_step ::
  "discovery_claim option \<Rightarrow> stream_id \<Rightarrow> instant \<Rightarrow> duration \<Rightarrow> discovery_claim option \<Rightarrow> bool" where
  "claim_step c who now timeout c' \<longleftrightarrow>
     c' = c \<or> \<not> is_discovery_broadcast_stream_id who \<and> claim_permits c who now timeout
       \<and> c' = Some \<lparr>claimant = who, claimed_at = now\<rparr>"

text \<open>What a request of a sender can do to the server.\<close>

definition datagram_frame ::
  "stream_id \<Rightarrow> instant \<Rightarrow> duration \<Rightarrow> 'ep udp_rc_server \<Rightarrow> 'ep udp_rc_server \<Rightarrow> bool" where
  "datagram_frame sid now timeout u u' \<longleftrightarrow>
     urs_local_stream u' = urs_local_stream u
     \<and> server_frame sid (urs_server u) (urs_server u')
     \<and> (\<forall>r. \<not> reaches (urs_server u) sid r \<longrightarrow> urs_store u' r = urs_store u r)
     \<and> claim_step (urs_claim u) sid now timeout (urs_claim u')
     \<and> (is_discovery_broadcast_stream_id sid \<longrightarrow> u' = u)"

lemma reaches_frame: "server_frame sid srv srv' \<Longrightarrow> reaches srv' x r = reaches srv x r"
  by (simp add: server_frame_def reaches_def)

lemma datagram_frame_refl: "datagram_frame sid now timeout u u"
  by (simp add: datagram_frame_def server_frame_def claim_step_def)

lemma claim_step_trans:
  assumes "claim_step a who now timeout b" and "claim_step b who now timeout c"
  shows "claim_step a who now timeout c"
  using assms by (auto simp: claim_step_def)

lemma datagram_frame_trans:
  assumes "datagram_frame sid now timeout u v" and "datagram_frame sid now timeout v w"
  shows "datagram_frame sid now timeout u w"
  using assms claim_step_trans [of "urs_claim u" sid now timeout "urs_claim v" "urs_claim w"]
    reaches_frame [of sid "urs_server u" "urs_server v" sid]
  by (auto simp: datagram_frame_def server_frame_def)

lemma request_frame:
  assumes "udp_dispatch_request ops u sid request now timeout = (u', r)"
  shows "datagram_frame sid now timeout u u'"
proof -
  have handled: "datagram_frame sid now timeout u (u\<lparr>urs_server := srv, urs_store := store\<rparr>)"
    if h: "handle_abb ops (urs_server u, urs_store u) sid request = ((srv, store), x)"
      and b: "\<not> is_discovery_broadcast_stream_id sid" for srv store x
    using handle_abb_server_frame [of sid "urs_server u", OF _ h] handle_abb_store [OF h] b
    by (auto simp: datagram_frame_def claim_step_def server_frame_def)
  show ?thesis
    using assms datagram_frame_refl [of sid now timeout u] handled
    by (auto simp: udp_dispatch_request_def and_then_eq_Inr check_discovery_access_def try_claim_discovery_stream_def
        datagram_frame_def claim_step_def server_frame_def split: if_splits sum.splits prod.splits)
qed

lemma requests_frame:
  "udp_dispatch_requests ops u sid now timeout requests acc = (u', r) \<Longrightarrow> datagram_frame sid now timeout u u'"
proof (induction requests arbitrary: u acc)
  case (Cons request requests)
  obtain v x where d: "udp_dispatch_request ops u sid request now timeout = (v, x)" by fastforce
  from Cons.prems Cons.IH [of v] request_frame [OF d] show ?case
    by (auto simp: d split: sum.splits option.splits intro: datagram_frame_trans)
qed (simp add: datagram_frame_refl)

lemma datagram_effect:
  assumes "udp_answer ops u frame seq now timeout = (u', r)"
  shows "case sender_of frame of None \<Rightarrow> u' = u | Some sid \<Rightarrow> datagram_frame sid now timeout u u'"
  using assms requests_frame
  by (fastforce simp: udp_answer_def sender_of_def datagram_frame_refl split: sum.splits prod.splits)

section \<open>Sequences of datagrams\<close>

text \<open>Each datagram comes with the number its answer gets and the time it is handled at.\<close>

fun udp_serve ::
  "'ep endpoint_ops \<Rightarrow> duration \<Rightarrow> 'ep udp_rc_server \<Rightarrow> (bytes \<times> u8 \<times> instant) list \<Rightarrow> 'ep udp_rc_server" where
  "udp_serve ops timeout u [] = u"
| "udp_serve ops timeout u ((frame, seq, now) # ds) =
    udp_serve ops timeout (fst (udp_answer ops u frame seq now timeout)) ds"

lemma udp_serve_append: "udp_serve ops timeout u (ds @ ds') = udp_serve ops timeout (udp_serve ops timeout u ds) ds'"
  by (induction ops timeout u ds rule: udp_serve.induct) simp_all

text \<open>A property of servers that no datagram breaks.\<close>

lemma udp_serve_invariant:
  assumes "P u" and "\<And>u frame seq now u' r sid. (frame, seq, now) \<in> set ds \<Longrightarrow> P u \<Longrightarrow>
      sender_of frame = Some sid \<Longrightarrow> datagram_frame sid now timeout u u' \<Longrightarrow> P u'"
  shows "P (udp_serve ops timeout u ds)"
  using assms
proof (induction ds arbitrary: u)
  case (Cons d ds)
  obtain frame seq now where d: "d = (frame, seq, now)" by (cases d)
  obtain u' r where a: "udp_answer ops u frame seq now timeout = (u', r)" by fastforce
  have "P u'"
  proof (cases "sender_of frame")
    case None
    then show ?thesis using datagram_effect [OF a] Cons.prems(1) by simp
  next
    case (Some sid)
    then show ?thesis using datagram_effect [OF a] Cons.prems(2) [of frame seq now u sid u'] Cons.prems(1) d by simp
  qed
  then have "P (udp_serve ops timeout u' ds)"
  proof (rule Cons.IH)
    fix v frame seq now v' sid
    assume "(frame, seq, now) \<in> set ds" and "P v" and "sender_of frame = Some sid" and "datagram_frame sid now timeout v v'"
    then show "P v'" using Cons.prems(2) [of frame seq now v sid v'] by simp
  qed
  then show ?case by (simp add: d a)
qed simp

definition held_by :: "stream_id \<Rightarrow> instant \<Rightarrow> discovery_claim option \<Rightarrow> bool" where
  "held_by who t0 c \<longleftrightarrow> (\<exists>claim. c = Some claim \<and> claimant claim = who \<and> t0 \<le> claimed_at claim)"

lemma held_by_step:
  assumes "held_by who t0 c" and "claim_step c sid now timeout c'" and "t0 \<le> now" and "now < t0 + timeout"
  shows "held_by who t0 c'"
  using assms by (auto simp: held_by_def claim_step_def claim_permits_def has_lapsed_def)

lemma claim_survives:
  assumes "held_by who t0 (urs_claim u)" and "\<forall>(frame, seq, now)\<in>set ds. t0 \<le> now \<and> now < t0 + timeout"
  shows "held_by who t0 (urs_claim (udp_serve ops timeout u ds))"
  by (rule udp_serve_invariant [where P = "\<lambda>u. held_by who t0 (urs_claim u)"])
    (use assms in \<open>auto simp: datagram_frame_def dest: held_by_step\<close>)

lemma configure_refused:
  assumes "held_by who t0 (urs_claim u)" and "is_discovery_configure_request request"
    and "sid \<noteq> who" and "t0 \<le> now" and "now < t0 + timeout"
  shows "\<exists>e. udp_dispatch_request ops u sid request now timeout = (u, Inl e) \<and> e \<in> {InvalidParameter, UnauthorizedAccess}"
  using assms discovery_requests_disjoint [of request]
  by (auto simp: udp_dispatch_request_def held_by_def check_discovery_access_def claim_permits_def has_lapsed_def)

text \<open>What no datagram changes at all.\<close>

definition configured_like :: "rc_server \<Rightarrow> rc_server \<Rightarrow> bool" where
  "configured_like srv srv' \<longleftrightarrow>
     srv_state srv' = srv_state srv \<and> srv_root_client srv' = srv_root_client srv
     \<and> srv_endpoints srv' = srv_endpoints srv \<and> srv_endpoint_impls srv' = srv_endpoint_impls srv
     \<and> srv_next_endpoint_id srv' = srv_next_endpoint_id srv"

lemma frame_configured_like: "server_frame sid srv srv' \<Longrightarrow> configured_like srv srv'"
  by (simp add: server_frame_def configured_like_def)

lemma reaches_configured_like: "configured_like srv srv' \<Longrightarrow> reaches srv' sid r = reaches srv sid r"
  by (simp add: configured_like_def reaches_def)

lemma configured_like_trans: "configured_like a b \<Longrightarrow> configured_like b c \<Longrightarrow> configured_like a c"
  by (simp add: configured_like_def)

lemma udp_serve_configured:
  "urs_local_stream (udp_serve ops timeout u ds) = urs_local_stream u
    \<and> configured_like (urs_server u) (urs_server (udp_serve ops timeout u ds))"
proof (rule udp_serve_invariant [where P = "\<lambda>v. urs_local_stream v = urs_local_stream u
    \<and> configured_like (urs_server u) (urs_server v)"])
  show "urs_local_stream u = urs_local_stream u \<and> configured_like (urs_server u) (urs_server u)"
    by (simp add: configured_like_def)
qed (auto simp: datagram_frame_def dest: frame_configured_like intro: configured_like_trans)

lemma udp_serve_general:
  assumes "\<forall>(frame, seq, now)\<in>set ds. \<forall>sid. sender_of frame = Some sid \<longrightarrow> srv_root_client (urs_server u) \<noteq> Some sid"
  shows "srv_general (urs_server (udp_serve ops timeout u ds)) = srv_general (urs_server u)"
proof -
  have "srv_general (urs_server (udp_serve ops timeout u ds)) = srv_general (urs_server u)
      \<and> configured_like (urs_server u) (urs_server (udp_serve ops timeout u ds))"
  proof (rule udp_serve_invariant [where P = "\<lambda>v. srv_general (urs_server v) = srv_general (urs_server u)
      \<and> configured_like (urs_server u) (urs_server v)"])
    fix v frame seq now v' sid
    assume "(frame, seq, now) \<in> set ds" and "sender_of frame = Some sid" and "datagram_frame sid now timeout v v'"
      and v: "srv_general (urs_server v) = srv_general (urs_server u) \<and> configured_like (urs_server u) (urs_server v)"
    then have root: "srv_root_client (urs_server v) \<noteq> Some sid" and f: "server_frame sid (urs_server v) (urs_server v')"
      using assms by (auto simp: configured_like_def datagram_frame_def)
    then have "srv_general (urs_server v') = srv_general (urs_server v)" by (simp add: server_frame_def)
    then show "srv_general (urs_server v') = srv_general (urs_server u) \<and> configured_like (urs_server u) (urs_server v')"
      using v configured_like_trans frame_configured_like [OF f] by auto
  qed (simp add: configured_like_def)
  then show ?thesis ..
qed

lemma udp_serve_object:
  assumes "\<forall>(frame, seq, now)\<in>set ds. \<forall>sid. sender_of frame = Some sid \<longrightarrow> \<not> reaches (urs_server u) sid r"
  shows "urs_store (udp_serve ops timeout u ds) r = urs_store u r"
proof -
  have "urs_store (udp_serve ops timeout u ds) r = urs_store u r
      \<and> configured_like (urs_server u) (urs_server (udp_serve ops timeout u ds))"
  proof (rule udp_serve_invariant [where P = "\<lambda>v. urs_store v r = urs_store u r
      \<and> configured_like (urs_server u) (urs_server v)"])
    fix v frame seq now v' sid
    assume "(frame, seq, now) \<in> set ds" and "sender_of frame = Some sid" and f: "datagram_frame sid now timeout v v'"
      and v: "urs_store v r = urs_store u r \<and> configured_like (urs_server u) (urs_server v)"
    then have "\<not> reaches (urs_server v) sid r"
      using assms reaches_configured_like [of "urs_server u" "urs_server v" sid r] by fastforce
    then show "urs_store v' r = urs_store u r \<and> configured_like (urs_server u) (urs_server v')"
      using v f frame_configured_like configured_like_trans by (auto simp: datagram_frame_def)
  qed (simp add: configured_like_def)
  then show ?thesis ..
qed

section \<open>Concrete inputs\<close>

text \<open>A discovery configuration request, on its own in a datagram.\<close>

definition configure_message :: acf_abb_message where
  "configure_message =
    \<lparr>abb_info = byte_message_info_default\<lparr>bmi_op := True\<rparr>, abb_payload = to_be_bytes DISCOVERY_REGISTER_ADDRESS\<rparr>"

definition sample_udp :: "mock_endpoint udp_rc_server" where
  "sample_udp = udp_rc_server_new (sample_stream 9) sample_server sample_store"

lemma configure_message_recognised: "is_discovery_configure_request (on_wire configure_message)"
  by (simp add: is_discovery_configure_request_def configure_message_def byte_message_info_default_def access_kind_def
      route_byte_bus_id_def is_ep0_address_def decode_register_address_def from_be_bytes_u16 be_bytes_numeral rcp_consts
      to_be_bytes_def)

lemma sample_stream_unicast: "\<not> is_discovery_broadcast_stream_id (sample_stream n)"
  by (simp add: is_discovery_broadcast_stream_id_def DISCOVERY_BROADCAST_STREAM_ID_def sample_stream_def)

lemma configure_datagram:
  "\<exists>frame. sender_of frame = Some (sample_stream n) \<and> (\<forall>(ops :: mock_endpoint endpoint_ops) seq. \<exists>r.
     udp_answer ops sample_udp frame seq 100 20 =
       (sample_udp\<lparr>urs_claim := Some \<lparr>claimant = sample_stream n, claimed_at = 100\<rparr>\<rparr>, r))"
proof -
  have "\<exists>body. encode_acf_abb configure_message = Inr body"
    unfolding encode_acf_abb_Inr_iff
    by (simp add: configure_message_def byte_message_info_default_def evt_default_def rcp_consts to_be_bytes_def)
  then obtain body where b: "encode_acf_abb configure_message = Inr body" by blast
  obtain frame where f: "encode_ntscf_frame (sample_stream n) 0 body = Inr frame"
    using short_body_framed [of body] encode_acf_abb_length(3) [OF b] by fastforce
  have d: "\<exists>r. udp_dispatch_request ops sample_udp (sample_stream n) (on_wire configure_message) 100 20 =
      (sample_udp\<lparr>urs_claim := Some \<lparr>claimant = sample_stream n, claimed_at = 100\<rparr>\<rparr>, r)"
    for ops :: "mock_endpoint endpoint_ops"
    using configure_message_recognised discovery_requests_disjoint [of "on_wire configure_message"] sample_stream_unicast
    by (simp add: udp_dispatch_request_def check_discovery_access_def try_claim_discovery_stream_def claim_permits_def
        sample_udp_def udp_rc_server_new_def)
  have "sender_of frame = Some (sample_stream n)"
    using decode_encode_ntscf_frame [OF f] by (simp add: sender_of_def stream_id_round_trip)
  then show ?thesis using udp_answer_one [OF b f] d by blast
qed

section \<open>Properties\<close>

text \<open>C13: datagrams change only what their senders may change. No sequence of datagrams changes the life-cycle state, the root client, the bindings, the objects bound or the counter of the server behind UDP; the general registers stay as they are unless a datagram names the root client as its sender, and an object stays as it is unless a datagram names a sender whose bindings reach it.\<close>

theorem datagrams_confined:
  assumes "u' = udp_serve ops timeout u ds"
  shows "urs_local_stream u' = urs_local_stream u \<and> configured_like (urs_server u) (urs_server u')
    \<and> ((\<forall>(frame, seq, now)\<in>set ds. \<forall>sid. sender_of frame = Some sid \<longrightarrow> srv_root_client (urs_server u) \<noteq> Some sid)
         \<longrightarrow> srv_general (urs_server u') = srv_general (urs_server u))
    \<and> (\<forall>r. (\<forall>(frame, seq, now)\<in>set ds. \<forall>sid. sender_of frame = Some sid \<longrightarrow> \<not> reaches (urs_server u) sid r)
         \<longrightarrow> urs_store u' r = urs_store u r)"
  unfolding assms using udp_serve_configured udp_serve_general udp_serve_object by blast

lemma datagrams_confined_witness:
  "\<exists>frame. sender_of frame = Some (sample_stream 2)
    \<and> srv_general (urs_server (udp_serve mock_ops 20 sample_udp [(frame, 0, 100), (frame, 1, 101)])) = zero_registers"
proof -
  obtain frame where f: "sender_of frame = Some (sample_stream 2)" using configure_datagram [of 2] by blast
  have s: "srv_root_client (urs_server sample_udp) = Some (sample_stream 1)"
    "srv_general (urs_server sample_udp) = zero_registers"
    by (simp_all add: sample_udp_def udp_rc_server_new_def sample_server_def set_root_client_def rc_server_new_def)
  have "sample_stream 1 \<noteq> sample_stream 2" by (simp add: sample_stream_def)
  then show ?thesis
    using datagrams_confined [of _ mock_ops 20 sample_udp "[(frame, 0, 100), (frame, 1, 101)]", OF refl] f
    unfolding s by auto
qed

text \<open>C14: a discovery claim survives whatever arrives. From the datagram that made a claim until the time-out after it, any sequence of datagrams, of any octets and from anybody, leaves the claim with its claimant, and a configuration request of anyone else is refused without an effect.\<close>

theorem claim_survives_datagrams:
  assumes "udp_answer ops u frame seq t0 timeout = (u1, r)" and "urs_claim u1 = Some claim" and "claimed_at claim = t0"
    and "\<forall>(frame, seq, now)\<in>set ds. t0 \<le> now \<and> now < t0 + timeout"
    and "u2 = udp_serve ops timeout u1 ds"
  shows "(\<exists>claim'. urs_claim u2 = Some claim' \<and> claimant claim' = claimant claim)
    \<and> (\<forall>sid request now. is_discovery_configure_request request \<longrightarrow> sid \<noteq> claimant claim
         \<longrightarrow> t0 \<le> now \<longrightarrow> now < t0 + timeout
         \<longrightarrow> (\<exists>e. udp_dispatch_request ops u2 sid request now timeout = (u2, Inl e)
                \<and> e \<in> {InvalidParameter, UnauthorizedAccess}))"
proof -
  have "held_by (claimant claim) t0 (urs_claim u1)" using assms(2, 3) by (simp add: held_by_def)
  from claim_survives [OF this assms(4), of ops] have held: "held_by (claimant claim) t0 (urs_claim u2)"
    by (simp add: assms(5))
  then show ?thesis using configure_refused [OF held] by (auto simp: held_by_def)
qed

lemma claim_survives_datagrams_witness:
  "\<exists>frame other claim u1 r. udp_answer mock_ops sample_udp frame 0 100 20 = (u1, r)
    \<and> sender_of other = Some (sample_stream 2)
    \<and> urs_claim (udp_serve mock_ops 20 u1 [(other, 1, 110), (other, 2, 119)]) = Some claim
    \<and> claimant claim = sample_stream 1"
proof -
  obtain frame r where f: "udp_answer mock_ops sample_udp frame 0 100 20
      = (sample_udp\<lparr>urs_claim := Some \<lparr>claimant = sample_stream 1, claimed_at = 100\<rparr>\<rparr>, r)"
    using configure_datagram [of 1] by blast
  obtain other where o: "sender_of other = Some (sample_stream 2)"
    using configure_datagram [of 2] by blast
  from claim_survives_datagrams [OF f, of _ "[(other, 1, 110), (other, 2, 119)]", OF _ _ _ refl] f o
  show ?thesis by fastforce
qed


end
