(* ===== verification/Rcp_Crc_Reference.thy ===== *)
theory Rcp_Crc_Reference
  imports Rcp_E2e
begin

text \<open>
  The CRC engine of \<open>src/e2e.rs\<close> against the textbook definition: the remainder of the message,
  as a polynomial over the field with two elements, after long division by the generator
  polynomial. The code keeps the register mirrored and feeds a whole octet before it shifts.
\<close>

section \<open>Long division\<close>

text \<open>Polynomials are lists of coefficients, the highest power first.\<close>

fun xor_front :: "bool list \<Rightarrow> bool list \<Rightarrow> bool list" where
  "xor_front (a # as) (b # bs) = (a \<noteq> b) # xor_front as bs"
| "xor_front as bs = as"

lemma length_xor_front [simp]: "length (xor_front as bs) = length as"
  by (induction as bs rule: xor_front.induct) simp_all

text \<open>
  The generator has degree 32; its leading coefficient cancels the first one of the dividend, the
  other 32 are \<open>divisor\<close>. The division stops when the degree is below 32.
\<close>

function poly_mod :: "bool list \<Rightarrow> bool list \<Rightarrow> bool list" where
  "poly_mod divisor as =
    (if length as \<le> 32 then as
     else if hd as then poly_mod divisor (xor_front (tl as) divisor) else poly_mod divisor (tl as))"
  by pat_completeness auto
termination by (relation "measure (length \<circ> snd)") auto

declare poly_mod.simps [simp del]

text \<open>The polynomial of the profile, 0xF4ACFB13, and the bits of the message in the order they are sent.\<close>

definition CRC32P4_POLY :: u32 where "CRC32P4_POLY = 0xF4ACFB13"

definition high_bits_first :: "u32 \<Rightarrow> bool list" where
  "high_bits_first w = map (\<lambda>i. bit w (31 - i)) [0..<32]"

definition low_bits_first :: "u32 \<Rightarrow> bool list" where
  "low_bits_first w = map (bit w) [0..<32]"

definition octet_bits :: "u8 \<Rightarrow> bool list" where
  "octet_bits b = map (bit b) [0..<8]"

definition message_bits :: "bytes \<Rightarrow> bool list" where
  "message_bits data = concat (map octet_bits data)"

text \<open>The message times \<open>x\<^sup>3\<^sup>2\<close>, with its first 32 coefficients inverted.\<close>

definition crc_dividend :: "bytes \<Rightarrow> bool list" where
  "crc_dividend data = xor_front (message_bits data @ replicate 32 False) (replicate 32 True)"

section \<open>The shift register\<close>

definition feed_bit :: "bool list \<Rightarrow> bool list \<Rightarrow> bool \<Rightarrow> bool list" where
  "feed_bit divisor reg b =
    (if hd reg \<noteq> b then xor_front (tl reg @ [False]) divisor else tl reg @ [False])"

lemma length_feed_bit: "length reg = 32 \<Longrightarrow> length (feed_bit divisor reg b) = 32"
  by (simp add: feed_bit_def)

lemma xor_front_self_zero: "length reg = n \<Longrightarrow> xor_front (replicate n False) reg = reg"
  by (induction reg arbitrary: n) auto

lemma xor_front_pad: "length bs < length as \<Longrightarrow> xor_front as (bs @ [False]) = xor_front as bs"
  by (induction as bs rule: xor_front.induct) (auto split: list.splits simp: neq_Nil_conv elim: xor_front.elims)

lemma xor_front_xor_front: "length bs = length cs \<Longrightarrow> xor_front (xor_front as bs) cs = xor_front as (xor_front bs cs)"
proof (induction as arbitrary: bs cs)
  case (Cons a as)
  then show ?case by (cases bs; cases cs) auto
qed simp

lemma poly_mod_register:
  assumes "length divisor = 32" and "length reg = 32"
  shows "poly_mod divisor (xor_front (msg @ replicate 32 False) reg) = foldl (feed_bit divisor) reg msg"
  using assms(2)
proof (induction msg arbitrary: reg)
  case Nil
  then show ?case using xor_front_self_zero [of reg 32] by (simp add: poly_mod.simps)
next
  case (Cons b msg)
  obtain r rs where r: "reg = r # rs" "length rs = 31" using Cons.prems by (cases reg) auto
  define shifted where "shifted = xor_front (msg @ replicate 32 False) (rs @ [False])"
  have "xor_front ((b # msg) @ replicate 32 False) reg = (b \<noteq> r) # shifted"
    using xor_front_pad [of rs "msg @ replicate 32 False"] r(2) by (simp add: shifted_def r(1))
  moreover have "length shifted \<ge> 32" by (simp add: shifted_def)
  ultimately have "poly_mod divisor (xor_front ((b # msg) @ replicate 32 False) reg)
      = poly_mod divisor (if b \<noteq> r then xor_front shifted divisor else shifted)"
    by (subst poly_mod.simps) auto
  also have "\<dots> = poly_mod divisor (xor_front (msg @ replicate 32 False) (feed_bit divisor reg b))"
    using xor_front_xor_front [of "rs @ [False]" divisor "msg @ replicate 32 False"] r assms(1)
    by (auto simp: shifted_def feed_bit_def)
  also have "\<dots> = foldl (feed_bit divisor) reg (b # msg)"
    using Cons.IH [OF length_feed_bit [OF Cons.prems]] by simp
  finally show ?case .
qed

section \<open>The code's register\<close>

text \<open>The code's register holds the highest power in its lowest bit.\<close>

lemma nth_xor_front:
  "i < length as \<Longrightarrow> length bs = length as \<Longrightarrow> xor_front as bs ! i = (as ! i \<noteq> bs ! i)"
  by (induction as bs arbitrary: i rule: xor_front.induct) (auto simp: nth_Cons split: nat.splits)

lemma mirrored_poly: "low_bits_first CRC32_TC18_POLY_REFLECTED = high_bits_first CRC32P4_POLY"
  by (simp add: low_bits_first_def high_bits_first_def CRC32_TC18_POLY_REFLECTED_def CRC32P4_POLY_def upt_rec)

definition feed :: "u32 \<Rightarrow> bool \<Rightarrow> u32" where
  "feed crc b = crc32_shift (crc XOR (if b then 1 else 0))"

lemma bit_feed: "bit (feed w b) i = (bit w (Suc i) \<noteq> (bit w 0 \<noteq> b \<and> bit CRC32_TC18_POLY_REFLECTED i))"
  by (cases "i < 32") (auto simp: feed_def crc32_shift_bit bit_simps)

lemma feed_register: "low_bits_first (feed w b) = feed_bit (low_bits_first CRC32_TC18_POLY_REFLECTED) (low_bits_first w) b"
proof (rule nth_equalityI)
  have reg: "low_bits_first w = bit w 0 # map (\<lambda>i. bit w (Suc i)) [0..<31]"
    by (simp add: low_bits_first_def upt_conv_Cons map_Suc_upt [symmetric] del: upt_Suc)
  have len: "length (low_bits_first x) = 32" for x by (simp add: low_bits_first_def)
  show "length (low_bits_first (feed w b))
      = length (feed_bit (low_bits_first CRC32_TC18_POLY_REFLECTED) (low_bits_first w) b)"
    using len length_feed_bit by metis
  fix i
  assume "i < length (low_bits_first (feed w b))"
  then have i: "i < 32" by (simp add: len)
  have shifted: "(tl (low_bits_first w) @ [False]) ! i = bit w (Suc i)"
    using i by (cases "i = 31") (simp_all add: reg nth_append)
  have xored: "xor_front (tl (low_bits_first w) @ [False]) (low_bits_first CRC32_TC18_POLY_REFLECTED) ! i
      = (bit w (Suc i) \<noteq> bit CRC32_TC18_POLY_REFLECTED i)"
    using i nth_xor_front [of i "tl (low_bits_first w) @ [False]" "low_bits_first CRC32_TC18_POLY_REFLECTED"] shifted
    by (simp add: len) (simp add: low_bits_first_def)
  have "hd (low_bits_first w) = bit w 0" by (simp add: reg)
  then show "low_bits_first (feed w b) ! i
      = feed_bit (low_bits_first CRC32_TC18_POLY_REFLECTED) (low_bits_first w) b ! i"
    using i shifted xored by (auto simp: feed_bit_def) (auto simp: low_bits_first_def bit_feed)
qed

text \<open>A whole octet at once is the octet bit by bit, the low bit first.\<close>

lemma shifts_are_feeds:
  "n \<le> 31 \<Longrightarrow> (crc32_shift ^^ n) (crc XOR take_bit n v) = foldl feed crc (map (bit v) [0..<n])"
proof (induction n arbitrary: crc v)
  case (Suc n)
  define t where "t = take_bit n (drop_bit 1 v)"
  have split: "take_bit (Suc n) v = (if bit v 0 then 1 else 0) XOR push_bit 1 t"
  proof (rule bit_word_eqI)
    fix i
    assume "i < LENGTH(32)"
    then show "bit (take_bit (Suc n) v) i = bit ((if bit v 0 then 1 else 0) XOR push_bit 1 t) i"
      by (cases i) (auto simp: t_def bit_simps)
  qed
  have "\<not> bit t 31" using Suc.prems by (simp add: t_def bit_simps)
  then have "crc32_shift (push_bit 1 t) = t" by (rule crc32_shift_push_bit)
  then have "crc32_shift (crc XOR take_bit (Suc n) v) = feed crc (bit v 0) XOR t"
    unfolding split feed_def xor.assoc [symmetric] by (simp only: crc32_shift_xor)
  then have "(crc32_shift ^^ Suc n) (crc XOR take_bit (Suc n) v) = (crc32_shift ^^ n) (feed crc (bit v 0) XOR t)"
    by (simp only: funpow_Suc_right o_apply)
  also have "\<dots> = foldl feed (feed crc (bit v 0)) (map (bit (drop_bit 1 v)) [0..<n])"
    unfolding t_def using Suc.prems by (intro Suc.IH) simp
  also have "map (bit (drop_bit 1 v)) [0..<n] = map (bit v) [1..<Suc n]"
    by (simp add: bit_drop_bit_eq map_Suc_upt [symmetric] o_def del: upt_Suc)
  also have "foldl feed (feed crc (bit v 0)) (map (bit v) [1..<Suc n]) = foldl feed crc (map (bit v) [0..<Suc n])"
    by (simp add: upt_conv_Cons [of 0] del: upt_Suc)
  finally show ?case .
qed simp

lemma crc32_byte_feeds: "crc32_byte crc b = foldl feed crc (octet_bits b)"
proof -
  have "take_bit 8 (ucast b :: u32) = ucast b"
    by (rule bit_word_eqI) (auto simp: bit_simps dest: bit_imp_le_length)
  moreover have "map (bit (ucast b :: u32)) [0..<8] = octet_bits b" by (simp add: octet_bits_def bit_simps)
  ultimately show ?thesis using shifts_are_feeds [of 8 crc "ucast b"] by (simp add: crc32_byte_def)
qed

lemma crc32_bytes_feed: "foldl crc32_byte crc data = foldl feed crc (message_bits data)"
  by (induction data arbitrary: crc) (simp_all add: message_bits_def crc32_byte_feeds)

lemma feeds_register:
  "low_bits_first (foldl feed w bs)
    = foldl (feed_bit (low_bits_first CRC32_TC18_POLY_REFLECTED)) (low_bits_first w) bs"
  by (induction bs arbitrary: w) (simp_all add: feed_register)

lemma crc_is_remainder:
  "low_bits_first (crc32_tc18 data) = map Not (poly_mod (high_bits_first CRC32P4_POLY) (crc_dividend data))"
proof -
  have all_ones: "CRC32_TC18_INIT_XOROUT = - 1" by (simp add: CRC32_TC18_INIT_XOROUT_def)
  have ones: "low_bits_first CRC32_TC18_INIT_XOROUT = replicate 32 True"
    by (rule nth_equalityI) (simp_all add: low_bits_first_def all_ones)
  have final: "low_bits_first (w XOR CRC32_TC18_INIT_XOROUT) = map Not (low_bits_first w)" for w
    by (simp add: low_bits_first_def bit_not_iff all_ones)
  have "length (high_bits_first CRC32P4_POLY) = 32" by (simp add: high_bits_first_def)
  from poly_mod_register [OF this, of "replicate 32 True" "message_bits data"]
  show ?thesis
    by (simp add: crc32_tc18_def final crc32_bytes_feed feeds_register ones mirrored_poly crc_dividend_def)
qed

section \<open>Properties\<close>

text \<open>C25: the checksum is the remainder of a polynomial division. The bits of the CRC-32/TC18 checksum, the low bit first, are the inverted remainder of the message, bits in the order sent, times the 32nd power, with its first 32 coefficients inverted, by the polynomial 0xF4ACFB13. The code's mirrored register and octet-wise steps compute this for every input.\<close>

theorem crc_is_polynomial_remainder:
  "low_bits_first (crc32_tc18 data) = map Not (poly_mod (high_bits_first CRC32P4_POLY) (crc_dividend data))"
  by (rule crc_is_remainder)


end
