(* ===== verification/Rcp_Queue.thy ===== *)
theory Rcp_Queue
  imports Rcp_Request_Facts "HOL-Library.Multiset"
begin

text \<open>
  The queue of pending requests of \<open>src/request.rs\<close> over time: a server that takes the selected
  request out, again and again, and the watchdog's purge in between.
\<close>

text \<open>The requests in the order in which they are taken out.\<close>

function served :: "pending_request_key list \<Rightarrow> pending_request_key list" where
  "served pending =
    (case select_next_pending_request pending of
       None \<Rightarrow> []
     | Some i \<Rightarrow> pending ! i # served (take i pending @ drop (Suc i) pending))"
  by pat_completeness auto
termination
  by (relation "measure length") (auto simp: select_next_iff(1) first_min_at_def)

declare served.simps [simp del]

text \<open>Taking out the first minimum is one step of a stable sort.\<close>

lemma sort_key_first_min:
  "first_min_at key xs i \<Longrightarrow> sort_key key xs = xs ! i # sort_key key (take i xs @ drop (Suc i) xs)"
proof (induction xs arbitrary: i)
  case (Cons x xs)
  show ?case
  proof (cases i)
    case 0
    then have "\<forall>y\<in>set xs. key x \<le> key y"
      using Cons.prems by (fastforce simp: first_min_at_def in_set_conv_nth)
    then show ?thesis by (simp add: 0 insort_is_Cons)
  next
    case (Suc j)
    then have "first_min_at key xs j" and less: "key (xs ! j) < key x"
      using Cons.prems by (auto simp: first_min_at_def)
    define rest where "rest = take j xs @ drop (Suc j) xs"
    have "sort_key key (x # xs) = insort_key key x (sort_key key xs)" by simp
    also have "sort_key key xs = xs ! j # sort_key key rest"
      unfolding rest_def by (rule Cons.IH) fact
    also have "insort_key key x (xs ! j # sort_key key rest) = xs ! j # sort_key key (x # rest)"
      using less by (auto dest: leD)
    finally show ?thesis by (simp only: Suc rest_def nth_Cons_Suc take_Suc_Cons drop_Suc_Cons append.simps)
  qed
qed (simp add: first_min_at_def)

lemma served_sorted: "served pending = sort_key pending_order pending"
proof (induction pending rule: served.induct)
  case (1 pending)
  show ?case
  proof (cases "select_next_pending_request pending")
    case None
    then have "pending = []" by (simp only: select_next_iff(2))
    with None show ?thesis by (subst served.simps) simp
  next
    case (Some i)
    then have "sort_key pending_order pending
        = pending ! i # sort_key pending_order (take i pending @ drop (Suc i) pending)"
      by (intro sort_key_first_min) (simp only: select_next_iff(1))
    with 1 [OF Some] Some show ?thesis by (subst served.simps) simp
  qed
qed

lemma kept_requests:
  "map ((!) pending) (fst (purge_normal_priority_on_watchdog_overflow pending overflowed))
    = filter (\<lambda>k. \<not> overflowed \<or> is_safety_tagged (pending_kind k)) pending"
proof -
  have "map ((!) pending) (filter (\<lambda>i. P (pending ! i)) [0..<length pending]) = filter P pending" for P
    using filter_map [of P "(!) pending" "[0..<length pending]"] by (simp add: o_def map_nth)
  then show ?thesis by (simp add: purge_eq)
qed

section \<open>Properties\<close>

text \<open>C30: pending requests are served in order of priority. Taking out the selected request until none is left yields the requests sorted by tier and arrival, each once, those of one tier and arrival number in the order they stand in; and after the watchdog's purge the requests kept are served in the order they would have been served in without it.\<close>

theorem queue_served_in_order:
  "sorted (map pending_order (served pending)) \<and> mset (served pending) = mset pending
    \<and> (\<forall>k. filter (\<lambda>x. pending_order x = k) (served pending) = filter (\<lambda>x. pending_order x = k) pending)
    \<and> served (map ((!) pending) (fst (purge_normal_priority_on_watchdog_overflow pending overflowed)))
      = (if overflowed then filter (\<lambda>k. is_safety_tagged (pending_kind k)) (served pending) else served pending)"
proof (intro conjI allI)
  show "filter (\<lambda>x. pending_order x = k) (served pending) = filter (\<lambda>x. pending_order x = k) pending" for k
    unfolding served_sorted by (rule sort_key_stable)
qed (simp_all add: served_sorted kept_requests filter_sort del: sort_key_stable)


end
