(* ===== verification/Rcp_Serde.thy ===== *)
theory Rcp_Serde
  imports Rcp_Relay "HOL-Library.List_Lexorder" "HOL-Library.Char_ord"
begin

text \<open>
  The serialised form of a relay message: the attributes of \<open>src/relay.rs\<close> on the structure
  \<open>Message\<close>, the hand-written implementations for \<open>Protocol\<close>, and \<open>src/base64_serde.rs\<close>. The
  serialiser's data model is a tree of strings, integers and maps; a map lists its entries in the
  order they are written. The Base64 engine, the serialisation of the clock's time and the texts of
  the library's own errors are parameters.
\<close>

section \<open>The data model\<close>

datatype serde_value = SerString string | SerInt int | SerMap "(string \<times> serde_value) list" | SerNull

datatype serde_error = SerCustom string | SerInvalidType | SerMissingField string | SerDuplicateField string

type_synonym 'a serde_result = "serde_error + 'a"

definition int_from :: "int \<Rightarrow> int \<Rightarrow> serde_value \<Rightarrow> int serde_result" where
  "int_from lo hi v = (case v of SerInt i \<Rightarrow> if lo \<le> i \<and> i < hi then Inr i else Inl SerInvalidType | _ \<Rightarrow> Inl SerInvalidType)"

definition i32_from :: "serde_value \<Rightarrow> int serde_result" where
  "i32_from v = int_from (- (2 ^ 31)) (2 ^ 31) v"

definition u64_from :: "serde_value \<Rightarrow> u64 serde_result" where
  "u64_from v = map_sum id word_of_int (int_from 0 (2 ^ 64) v)"

definition string_from :: "serde_value \<Rightarrow> string serde_result" where
  "string_from v = (case v of SerString s \<Rightarrow> Inr s | _ \<Rightarrow> Inl SerInvalidType)"

text \<open>A map of texts is read entry by entry; a later entry for a key replaces an earlier one.\<close>

fun strings_from :: "(string \<rightharpoonup> string) \<Rightarrow> (string \<times> serde_value) list \<Rightarrow> (string \<rightharpoonup> string) serde_result" where
  "strings_from m [] = Inr m"
| "strings_from m ((k, v) # kvs) = and_then (string_from v) (\<lambda>s. strings_from (m(k \<mapsto> s)) kvs)"

definition string_map_from :: "serde_value \<Rightarrow> (string \<rightharpoonup> string) serde_result" where
  "string_map_from v = (case v of SerMap kvs \<Rightarrow> strings_from Map.empty kvs | _ \<Rightarrow> Inl SerInvalidType)"

definition string_map_value :: "(string \<rightharpoonup> string) \<Rightarrow> serde_value" where
  "string_map_value m = SerMap (map (\<lambda>k. (k, SerString (the (m k)))) (sorted_list_of_set (dom m)))"

section \<open>Payloads and protocols\<close>

definition base64_serialize :: "(bytes \<Rightarrow> string) \<Rightarrow> bytes \<Rightarrow> serde_value" where
  "base64_serialize encode bs = SerString (encode bs)"

definition base64_deserialize :: "(string \<Rightarrow> string + bytes) \<Rightarrow> serde_value \<Rightarrow> bytes serde_result" where
  "base64_deserialize decode v =
    and_then (string_from v) (\<lambda>s. case decode s of Inl msg \<Rightarrow> Inl (SerCustom msg) | Inr bs \<Rightarrow> Inr bs)"

definition protocol_serialize :: "relay_protocol \<Rightarrow> serde_value" where
  "protocol_serialize p = SerInt (protocol_to_i32 p)"

definition protocol_deserialize :: "serde_value \<Rightarrow> relay_protocol serde_result" where
  "protocol_deserialize v =
    and_then (i32_from v) (\<lambda>i. case protocol_try_from i of Inl msg \<Rightarrow> Inl (SerCustom msg) | Inr p \<Rightarrow> Inr p)"

section \<open>Structures\<close>

text \<open>A derived reader takes the entries one after the other, refuses a second entry for a field and ignores what is no field.\<close>

definition once :: "string \<Rightarrow> 'a option \<Rightarrow> 'a serde_result \<Rightarrow> 'a option serde_result" where
  "once k present r = (if present \<noteq> None then Inl (SerDuplicateField k) else map_sum id Some r)"

definition needed :: "string \<Rightarrow> 'a option \<Rightarrow> 'a serde_result" where
  "needed k present = ok_or present (SerMissingField k)"

record version_fields =
  vf_major :: "int option"
  vf_minor :: "int option"
  vf_patch :: "int option"

fun version_entries :: "version_fields \<Rightarrow> (string \<times> serde_value) list \<Rightarrow> version_fields serde_result" where
  "version_entries f [] = Inr f"
| "version_entries f ((k, v) # kvs) =
    and_then
      (if k = ''major'' then map_sum id (\<lambda>x. f\<lparr>vf_major := x\<rparr>) (once k (vf_major f) (i32_from v))
       else if k = ''minor'' then map_sum id (\<lambda>x. f\<lparr>vf_minor := x\<rparr>) (once k (vf_minor f) (i32_from v))
       else if k = ''patch'' then map_sum id (\<lambda>x. f\<lparr>vf_patch := x\<rparr>) (once k (vf_patch f) (i32_from v))
       else Inr f)
      (\<lambda>f'. version_entries f' kvs)"

definition version_serialize :: "relay_version \<Rightarrow> serde_value" where
  "version_serialize v =
    SerMap [(''major'', SerInt (ver_major v)), (''minor'', SerInt (ver_minor v)), (''patch'', SerInt (ver_patch v))]"

definition version_deserialize :: "serde_value \<Rightarrow> relay_version serde_result" where
  "version_deserialize v =
    (case v of
       SerMap kvs \<Rightarrow>
         and_then (version_entries \<lparr>vf_major = None, vf_minor = None, vf_patch = None\<rparr> kvs) (\<lambda>f.
         and_then (needed ''major'' (vf_major f)) (\<lambda>major.
         and_then (needed ''minor'' (vf_minor f)) (\<lambda>minor.
         and_then (needed ''patch'' (vf_patch f)) (\<lambda>patch.
           Inr \<lparr>ver_major = major, ver_minor = minor, ver_patch = patch\<rparr>))))
     | _ \<Rightarrow> Inl SerInvalidType)"

datatype message_field =
  FieldProtocol | FieldVersion | FieldId | FieldPayload | FieldTimestamp | FieldSeq | FieldMeta

definition field_of_name :: "string \<Rightarrow> message_field option" where
  "field_of_name = map_of
    [(''protocol'', FieldProtocol), (''version'', FieldVersion), (''id'', FieldId), (''payload'', FieldPayload),
     (''timestamp'', FieldTimestamp), (''seq'', FieldSeq), (''meta'', FieldMeta)]"

record 'time message_fields =
  mf_protocol :: "relay_protocol option"
  mf_version :: "relay_version option"
  mf_id :: "string option"
  mf_payload :: "bytes option"
  mf_timestamp :: "'time option"
  mf_seq :: "u64 option"
  mf_meta :: "(string \<rightharpoonup> string) option"

record 'time serde_env =
  b64_encode :: "bytes \<Rightarrow> string"
  b64_decode :: "string \<Rightarrow> string + bytes"
  time_value :: "'time \<Rightarrow> serde_value"
  time_from :: "serde_value \<Rightarrow> 'time serde_result"

definition is_zero_u64 :: "u64 \<Rightarrow> bool" where
  "is_zero_u64 v \<longleftrightarrow> v = 0"

definition message_serialize :: "'time serde_env \<Rightarrow> 'time relay_message \<Rightarrow> serde_value" where
  "message_serialize env m =
    SerMap ([(''protocol'', protocol_serialize (msg_protocol m)), (''version'', version_serialize (msg_version m)),
             (''id'', SerString (msg_id m)), (''payload'', base64_serialize (b64_encode env) (msg_payload m)),
             (''timestamp'', time_value env (msg_timestamp m))]
      @ (if is_zero_u64 (msg_seq m) then [] else [(''seq'', SerInt (uint (msg_seq m)))])
      @ (if dom (msg_meta m) = {} then [] else [(''meta'', string_map_value (msg_meta m))]))"

fun message_entry ::
  "'time serde_env \<Rightarrow> 'time message_fields \<Rightarrow> string \<Rightarrow> serde_value \<Rightarrow> 'time message_fields serde_result" where
  "message_entry env f k v =
    (case field_of_name k of
       None \<Rightarrow> Inr f
     | Some FieldProtocol \<Rightarrow> map_sum id (\<lambda>x. f\<lparr>mf_protocol := x\<rparr>) (once k (mf_protocol f) (protocol_deserialize v))
     | Some FieldVersion \<Rightarrow> map_sum id (\<lambda>x. f\<lparr>mf_version := x\<rparr>) (once k (mf_version f) (version_deserialize v))
     | Some FieldId \<Rightarrow> map_sum id (\<lambda>x. f\<lparr>mf_id := x\<rparr>) (once k (mf_id f) (string_from v))
     | Some FieldPayload \<Rightarrow>
         map_sum id (\<lambda>x. f\<lparr>mf_payload := x\<rparr>) (once k (mf_payload f) (base64_deserialize (b64_decode env) v))
     | Some FieldTimestamp \<Rightarrow> map_sum id (\<lambda>x. f\<lparr>mf_timestamp := x\<rparr>) (once k (mf_timestamp f) (time_from env v))
     | Some FieldSeq \<Rightarrow> map_sum id (\<lambda>x. f\<lparr>mf_seq := x\<rparr>) (once k (mf_seq f) (u64_from v))
     | Some FieldMeta \<Rightarrow> map_sum id (\<lambda>x. f\<lparr>mf_meta := x\<rparr>) (once k (mf_meta f) (string_map_from v)))"

fun message_entries ::
  "'time serde_env \<Rightarrow> 'time message_fields \<Rightarrow> (string \<times> serde_value) list \<Rightarrow> 'time message_fields serde_result" where
  "message_entries env f [] = Inr f"
| "message_entries env f ((k, v) # kvs) = and_then (message_entry env f k v) (\<lambda>f'. message_entries env f' kvs)"

definition no_fields :: "'time message_fields" where
  "no_fields = \<lparr>mf_protocol = None, mf_version = None, mf_id = None, mf_payload = None, mf_timestamp = None,
     mf_seq = None, mf_meta = None\<rparr>"

definition message_of_fields :: "'time message_fields \<Rightarrow> 'time relay_message serde_result" where
  "message_of_fields f =
    and_then (needed ''protocol'' (mf_protocol f)) (\<lambda>protocol.
    and_then (needed ''version'' (mf_version f)) (\<lambda>version.
    and_then (needed ''id'' (mf_id f)) (\<lambda>ident.
    and_then (needed ''payload'' (mf_payload f)) (\<lambda>payload.
    and_then (needed ''timestamp'' (mf_timestamp f)) (\<lambda>timestamp.
      Inr \<lparr>msg_protocol = protocol, msg_version = version, msg_id = ident, msg_payload = payload,
           msg_timestamp = timestamp, msg_seq = (case mf_seq f of Some s \<Rightarrow> s | None \<Rightarrow> 0),
           msg_meta = (case mf_meta f of Some m \<Rightarrow> m | None \<Rightarrow> Map.empty)\<rparr>)))))"

definition message_deserialize :: "'time serde_env \<Rightarrow> serde_value \<Rightarrow> 'time relay_message serde_result" where
  "message_deserialize env v =
    (case v of SerMap kvs \<Rightarrow> and_then (message_entries env no_fields kvs) message_of_fields | _ \<Rightarrow> Inl SerInvalidType)"

section \<open>Reading back\<close>

lemma u64_from_uint: "u64_from (SerInt (uint w)) = Inr w"
  using unsigned_less [of w, where ?'a = int] by (simp add: u64_from_def int_from_def)

lemma protocol_read_back: "protocol_deserialize (protocol_serialize p) = Inr p"
  by (cases p) (simp_all add: protocol_deserialize_def protocol_serialize_def i32_from_def int_from_def protocol_try_from_def)

definition version_ok :: "relay_version \<Rightarrow> bool" where
  "version_ok v \<longleftrightarrow> (\<forall>i\<in>{ver_major v, ver_minor v, ver_patch v}. - (2 ^ 31) \<le> i \<and> i < 2 ^ 31)"

lemma version_read_back: "version_ok v \<Longrightarrow> version_deserialize (version_serialize v) = Inr v"
  by (simp add: version_ok_def version_deserialize_def version_serialize_def i32_from_def int_from_def once_def needed_def)

lemma strings_read_back:
  "strings_from m (map (\<lambda>k. (k, SerString (f k))) ks) = Inr (\<lambda>k. if k \<in> set ks then Some (f k) else m k)"
  by (induction ks arbitrary: m) (auto simp: string_from_def fun_eq_iff)

lemma string_map_read_back:
  assumes "finite (dom m)"
  shows "string_map_from (string_map_value m) = Inr m"
proof -
  have "(\<lambda>k. if k \<in> dom m then Some (the (m k)) else None) = m"
  proof
    fix k
    show "(if k \<in> dom m then Some (the (m k)) else None) = m k" by (cases "m k") auto
  qed
  then show ?thesis
    using assms by (simp add: string_map_from_def string_map_value_def strings_read_back)
qed

text \<open>What is no field does not matter.\<close>

definition is_field :: "string \<Rightarrow> bool" where
  "is_field k \<longleftrightarrow> field_of_name k \<noteq> None"

lemma field_of_name_literal [simp]:
  "field_of_name ''protocol'' = Some FieldProtocol" "field_of_name ''version'' = Some FieldVersion"
  "field_of_name ''id'' = Some FieldId" "field_of_name ''payload'' = Some FieldPayload"
  "field_of_name ''timestamp'' = Some FieldTimestamp" "field_of_name ''seq'' = Some FieldSeq"
  "field_of_name ''meta'' = Some FieldMeta"
  by (simp_all add: field_of_name_def)

lemma message_entries_known:
  "message_entries env f (filter (\<lambda>(k, v). is_field k) kvs) = message_entries env f kvs"
  by (induction env f kvs rule: message_entries.induct) (auto simp: is_field_def split: and_then_split)

lemma message_read_back:
  assumes "\<And>bs. b64_decode env (b64_encode env bs) = Inr bs" and "\<And>t. time_from env (time_value env t) = Inr t"
    and "version_ok (msg_version m)" and "finite (dom (msg_meta m))"
  shows "message_deserialize env (message_serialize env m) = Inr m"
  using assms(1, 2) version_read_back [OF assms(3)] string_map_read_back [OF assms(4)]
  by (simp add: message_deserialize_def message_serialize_def no_fields_def once_def
      protocol_read_back string_from_def base64_deserialize_def base64_serialize_def u64_from_uint
      message_of_fields_def needed_def is_zero_u64_def)

text \<open>A field that was read is remembered, and a second entry for it is refused.\<close>

fun holds :: "'time message_fields \<Rightarrow> message_field \<Rightarrow> bool" where
  "holds f FieldProtocol \<longleftrightarrow> mf_protocol f \<noteq> None"
| "holds f FieldVersion \<longleftrightarrow> mf_version f \<noteq> None"
| "holds f FieldId \<longleftrightarrow> mf_id f \<noteq> None"
| "holds f FieldPayload \<longleftrightarrow> mf_payload f \<noteq> None"
| "holds f FieldTimestamp \<longleftrightarrow> mf_timestamp f \<noteq> None"
| "holds f FieldSeq \<longleftrightarrow> mf_seq f \<noteq> None"
| "holds f FieldMeta \<longleftrightarrow> mf_meta f \<noteq> None"

lemma map_sum_Inr: "map_sum id g r = Inr y \<longleftrightarrow> (\<exists>x. r = Inr x \<and> y = g x)"
  by (cases r) auto

lemma once_Inr: "once k present r = Inr x \<longleftrightarrow> present = None \<and> (\<exists>y. r = Inr y \<and> x = Some y)"
  by (auto simp: once_def map_sum_Inr)

lemma message_entry_again:
  "field_of_name k = Some x \<Longrightarrow> holds f x \<Longrightarrow> message_entry env f k v = Inl (SerDuplicateField k)"
  by (cases x) (simp_all add: once_def)

lemma message_entry_reads: "message_entry env f k v = Inr f' \<Longrightarrow> field_of_name k = Some x \<Longrightarrow> holds f' x"
  by (cases x) (auto simp: map_sum_Inr once_Inr)

lemma message_entry_keeps:
  assumes "message_entry env f k v = Inr f'" and "holds f x"
  shows "holds f' x"
proof (cases "field_of_name k")
  case (Some y)
  then show ?thesis using assms by (cases y; cases x) (auto simp: map_sum_Inr once_Inr)
qed (use assms in simp)

lemma message_entries_holds: "message_entries env f kvs = Inr f' \<Longrightarrow> holds f x \<Longrightarrow> holds f' x"
  by (induction env f kvs rule: message_entries.induct)
    (auto simp: and_then_eq_Inr simp del: message_entry.simps dest: message_entry_keeps)

lemma message_entries_append:
  "message_entries env f (xs @ ys) = and_then (message_entries env f xs) (\<lambda>f'. message_entries env f' ys)"
  by (induction env f xs rule: message_entries.induct) (simp_all del: message_entry.simps split: and_then_split)

lemma field_twice:
  assumes "field_of_name k = Some x"
  shows "\<exists>e. message_entries env f (xs @ (k, v) # ys @ (k, v') # zs) = Inl e"
proof -
  have twice: "\<exists>e. message_entries env f (ys @ (k, v') # zs) = Inl e" if "holds f x" for f :: "'a message_fields"
  proof (cases "message_entries env f ys")
    case (Inr f')
    then have "holds f' x" using that by (rule message_entries_holds)
    then show ?thesis
      by (simp add: message_entries_append Inr message_entry_again [OF assms] del: message_entry.simps)
  qed (simp add: message_entries_append)
  have "\<exists>e. message_entries env f ((k, v) # ys @ (k, v') # zs) = Inl e" for f
    using twice message_entry_reads [OF _ assms, of env f v]
    by (cases "message_entry env f k v") (simp_all del: message_entry.simps)
  then show ?thesis
    unfolding message_entries_append by (cases "message_entries env f xs") simp_all
qed

section \<open>Concrete inputs\<close>

definition sample_env :: "nat serde_env" where
  "sample_env = \<lparr>b64_encode = map (\<lambda>b. char_of (unat b)), b64_decode = (\<lambda>s. Inr (map (\<lambda>c. of_nat (of_char c)) s)),
     time_value = (\<lambda>t. SerInt (int t)), time_from = (\<lambda>v. case v of SerInt i \<Rightarrow> Inr (nat i) | _ \<Rightarrow> Inl SerInvalidType)\<rparr>"

lemma sample_env_laws: "b64_decode sample_env (b64_encode sample_env bs) = Inr bs"
  "time_from sample_env (time_value sample_env t) = Inr t"
proof -
  have "of_nat (of_char (char_of (unat b) :: char)) = b" for b :: u8
    using unsigned_less [of b, where ?'a = nat] by simp
  then show "b64_decode sample_env (b64_encode sample_env bs) = Inr bs"
    by (simp add: sample_env_def o_def)
qed (simp add: sample_env_def)

section \<open>Further facts\<close>

text \<open>A field that stands twice in a serialised message is refused, wherever the two entries stand.\<close>

theorem duplicate_field_refused:
  assumes "is_field k"
  shows "\<exists>e. message_deserialize env (SerMap (xs @ (k, v) # ys @ (k, v') # zs)) = Inl e"
proof -
  obtain x where "field_of_name k = Some x" using assms by (auto simp: is_field_def)
  from field_twice [OF this, of env no_fields xs v ys v' zs] show ?thesis
    by (auto simp: message_deserialize_def simp del: message_entry.simps)
qed

section \<open>Properties\<close>

text \<open>C36: a serialised relay message reads back. If the Base64 engine decodes what it encodes and the library reads back a time it wrote, then reading the entries of a serialised message, with whatever other entries stand among them, gives the message: a zero sequence number and empty metadata are left out when written and come back as zero and empty.\<close>

theorem message_reads_back:
  assumes "\<And>bs. b64_decode env (b64_encode env bs) = Inr bs" and "\<And>t. time_from env (time_value env t) = Inr t"
    and "version_ok (msg_version m)" and "finite (dom (msg_meta m))"
    and "message_serialize env m = SerMap (filter (\<lambda>(k, v). is_field k) kvs)"
  shows "message_deserialize env (SerMap kvs) = Inr m"
  using message_read_back [OF assms(1-4)] message_entries_known [of env no_fields kvs]
  by (simp add: message_deserialize_def assms(5))

lemma message_reads_back_witness:
  "message_deserialize sample_env
      (SerMap [(''protocol'', SerInt 5),
        (''version'', SerMap [(''major'', SerInt 0), (''minor'', SerInt 0), (''patch'', SerInt 0)]),
        (''id'', SerString ''a''), (''note'', SerNull), (''payload'', SerString [char_of (104 :: nat), char_of (105 :: nat)]), (''timestamp'', SerInt 77),
        (''seq'', SerInt 4)])
    = Inr ((relay_message_new ProtoRcp ''a'' [104, 105] 77)\<lparr>msg_seq := 4\<rparr>)"
  by (rule message_reads_back [OF sample_env_laws])
    (simp_all add: relay_message_new_def version_ok_def version_default_def message_serialize_def sample_env_def
      protocol_serialize_def version_serialize_def base64_serialize_def is_zero_u64_def is_field_def field_of_name_def)


end
