(* ===== verification/Rcp_Udp_Memory.thy ===== *)
theory Rcp_Udp_Memory
  imports Rcp_Memory Rcp_Udp_Traces
begin

text \<open>
  The specification of the server of \<open>src/udp.rs\<close> over mock endpoints: the addressed memory of
  \<open>Rcp_Memory\<close> and, beside it, the discovery claim. Datagrams of arbitrary octets, from anybody and
  at any time, are steps of this machine, and a client of \<open>UdpTransport\<close> reads what was written last.
\<close>

section \<open>The specification\<close>

type_synonym spec_net = "spec_server \<times> discovery_claim option"
type_synonym net_input = "instant \<times> stream_id \<times> acf_abb_message"

fun spec_net_request :: "duration \<Rightarrow> spec_net \<Rightarrow> net_input \<Rightarrow> spec_net \<times> bytes rcp_result" where
  "spec_net_request timeout (sp, c) (now, sid, m) =
    (if is_discovery_request m then ((sp, c), Inr (encode_general_registers (spec_general sp)))
     else if is_discovery_broadcast_stream_id sid then ((sp, c), Inl InvalidParameter)
     else if is_discovery_configure_request m
     then (if claim_permits c sid now timeout
           then ((sp, Some \<lparr>claimant = sid, claimed_at = now\<rparr>), Inr [])
           else ((sp, c), Inl UnauthorizedAccess))
     else (case spec_request sp (sid, m) of (sp', r) \<Rightarrow> ((sp', c), r)))"

declare spec_net_request.simps [simp del]

fun net_request ::
  "duration \<Rightarrow> mock_endpoint udp_rc_server \<Rightarrow> net_input \<Rightarrow> mock_endpoint udp_rc_server \<times> bytes rcp_result" where
  "net_request timeout u (now, sid, m) = apsnd answer_payload (udp_dispatch_request mock_ops u sid m now timeout)"

definition net_spec_of :: "mock_endpoint udp_rc_server \<Rightarrow> spec_net" where
  "net_spec_of u = (spec_of (urs_server u, urs_store u), urs_claim u)"

definition net_inv :: "mock_endpoint udp_rc_server \<Rightarrow> bool" where
  "net_inv u \<longleftrightarrow> memory_inv (urs_server u, urs_store u)"

definition net_fits :: "net_input \<Rightarrow> bool" where
  "net_fits i \<longleftrightarrow> message_fits (snd i)"

text \<open>What \<open>dispatch_request\<close> does, as one case distinction.\<close>

lemma udp_dispatch_request_cases:
  "udp_dispatch_request ops u sid m now timeout =
    (if is_discovery_request m
     then (u, Inr \<lparr>abb_info = byte_message_info_default\<lparr>byte_bus_id := byte_bus_id (abb_info m), bmi_rsp := True\<rparr>,
                   abb_payload = encode_general_registers (srv_general (urs_server u))\<rparr>)
     else if is_discovery_broadcast_stream_id sid then (u, Inl InvalidParameter)
     else if is_discovery_configure_request m
     then (if claim_permits (urs_claim u) sid now timeout
           then (u\<lparr>urs_claim := Some \<lparr>claimant = sid, claimed_at = now\<rparr>\<rparr>,
                 Inr \<lparr>abb_info = byte_message_info_default\<lparr>byte_bus_id := byte_bus_id (abb_info m), bmi_rsp := True\<rparr>,
                      abb_payload = []\<rparr>)
           else (u, Inl UnauthorizedAccess))
     else (case handle_abb ops (urs_server u, urs_store u) sid m of
             ((srv, store), r) \<Rightarrow> (u\<lparr>urs_server := srv, urs_store := store\<rparr>, r)))"
  by (simp add: udp_dispatch_request_def check_discovery_access_def try_claim_discovery_stream_def
      build_discovery_response_eq build_response_info_def)

interpretation network: refined_machine "net_request timeout" "spec_net_request timeout" net_spec_of net_inv net_fits
  for timeout
proof
  fix u i
  assume inv: "net_inv u" and ok: "net_fits i"
  obtain now sid m where i: "i = (now, sid, m)" by (cases i)
  obtain srv store r where h: "handle_abb mock_ops (urs_server u, urs_store u) sid m = ((srv, store), r)"
    by (metis prod.collapse)
  have "memory_inv (urs_server u, urs_store u)" "message_fits (sid, m)"
    using inv ok by (simp_all add: net_inv_def net_fits_def i)
  from memory.keeps [OF this] memory.simulates [OF this]
  have m: "memory_inv (srv, store)"
    "spec_request (spec_of (urs_server u, urs_store u)) (sid, m) = (spec_of (srv, store), answer_payload r)"
    by (simp_all add: h del: memory_inv.simps spec_of.simps spec_request.simps)
  show "net_inv (fst (net_request timeout u i))"
    using inv m(1) by (simp add: i net_inv_def udp_dispatch_request_cases h del: memory_inv.simps)
  show "spec_net_request timeout (net_spec_of u) i = apfst net_spec_of (net_request timeout u i)"
    using m(2) by (simp add: i net_spec_of_def udp_dispatch_request_cases spec_net_request.simps answer_payload_def h
        del: spec_request.simps)
qed

section \<open>Datagrams\<close>

text \<open>
  The requests a datagram executes. The loop gives up where that of \<open>Rcp_Memory\<close> does, unless
  discovery catches the request.
\<close>

definition net_stops :: "stream_id option \<Rightarrow> stream_id \<Rightarrow> acf_abb_message \<Rightarrow> bool" where
  "net_stops root sid m \<longleftrightarrow> ordinary m \<and> \<not> is_discovery_broadcast_stream_id sid \<and> aborts root sid m"

definition net_executed :: "stream_id option \<Rightarrow> bytes \<times> u8 \<times> instant \<Rightarrow> net_input list" where
  "net_executed root d =
    (case d of (frame, seq, now) \<Rightarrow>
       case (sender_of frame, frame_requests frame) of
         (Some sid, Inr requests) \<Rightarrow> map (\<lambda>m. (now, sid, m)) (takeWhile (\<lambda>m. \<not> net_stops root sid m) requests)
       | _ \<Rightarrow> [])"

definition net_history :: "stream_id option \<Rightarrow> (bytes \<times> u8 \<times> instant) list \<Rightarrow> net_input list" where
  "net_history root ds = concat (map (net_executed root) ds)"

text \<open>A discovery answer has no transaction number, so it echoes the bus id alone.\<close>

definition net_answers :: "acf_abb_message \<Rightarrow> acf_abb_message \<Rightarrow> bool" where
  "net_answers request response \<longleftrightarrow>
     byte_bus_id (abb_info response) = byte_bus_id (abb_info request) \<and> bmi_rsp (abb_info response)
     \<and> (ordinary request \<longrightarrow> answers request response)"

lemma net_answers_on_wire: "net_answers request response \<Longrightarrow> net_answers request (on_wire response)"
  by (simp add: net_answers_def answers_def)

lemma udp_dispatch_is_loop:
  "udp_dispatch_requests ops u sid now timeout ms acc
    = answer_loop (\<lambda>u m. udp_dispatch_request ops u sid m now timeout) u ms acc"
  by (induction ms arbitrary: u acc) (auto simp: answer_of_def split: prod.splits sum.splits option.splits)

lemma refusal_answered:
  assumes "request_ok m" and "tc18_wire_code e = Some code"
  shows "\<exists>response bs. answer_of m (Inl e) = Inr response \<and> encode_acf_abb response = Inr bs \<and> net_answers m response"
  using encode_response [OF assms(1), of "[code]" True True] assms(2) error_response_answers [of m e]
  by (auto simp: answer_of_def build_error_response_def build_response_info_def net_answers_def answers_def)

lemma discovery_answered:
  assumes "request_ok m" and "length p \<le> 2036"
  shows "\<exists>bs. encode_acf_abb
      \<lparr>abb_info = byte_message_info_default\<lparr>byte_bus_id := byte_bus_id (abb_info m), bmi_rsp := True\<rparr>, abb_payload = p\<rparr> = Inr bs"
  using assms unfolding encode_acf_abb_Inr_iff
  by (simp add: request_ok_def info_in_range_def byte_message_info_default_def evt_default_def rcp_consts)


interpretation net_loop: answering "\<lambda>u m. udp_dispatch_request mock_ops u sid m now timeout" net_inv
  "\<lambda>u. net_stops (srv_root_client (urs_server u)) sid" net_answers
  for sid now timeout
proof
  fix u u' :: "mock_endpoint udp_rc_server" and m result
  let ?root = "srv_root_client (urs_server u)"
  show "net_stops ?root sid m \<Longrightarrow> udp_dispatch_request mock_ops u sid m now timeout = (u, Inl ShortFrame)"
    using aborting_request [of "urs_server u" sid m mock_ops "urs_store u"]
    by (simp add: net_stops_def udp_dispatch_ordinary)
  assume inv: "net_inv u" and ok: "request_ok m" and go: "\<not> net_stops ?root sid m"
    and d: "udp_dispatch_request mock_ops u sid m now timeout = (u', result)"
  have "message_fits (sid, m)" using ok by (simp add: message_fits_def)
  then have "net_inv u'"
    using network.keeps [OF inv, of "(now, sid, m)" timeout] d by (simp add: net_fits_def)
  moreover have "srv_root_client (urs_server u') = ?root"
    using request_frame [OF d] by (simp add: datagram_frame_def server_frame_def)
  ultimately show "net_inv u' \<and> net_stops (srv_root_client (urs_server u')) sid = net_stops ?root sid" by simp
  show "\<exists>response bs. answer_of m result = Inr response \<and> encode_acf_abb response = Inr bs \<and> net_answers m response"
  proof (cases "ordinary m \<and> \<not> is_discovery_broadcast_stream_id sid")
    case True
    obtain srv store where h: "handle_abb mock_ops (urs_server u, urs_store u) sid m = ((srv, store), result)"
      using d True by (auto simp: udp_dispatch_ordinary split: prod.splits)
    have "\<not> aborts ?root sid m" using go True by (simp add: net_stops_def)
    then have "answerable result"
      using mock.handle_abb_contract(2) [OF _ ok _ h] inv by (simp add: net_inv_def aborts_short)
    then show ?thesis
      using answer_of_encodable [OF ok h] answer_of_answers [OF h] by (auto simp: net_answers_def answers_def)
  next
    case False
    have "65 \<le> (2036 :: nat)" by simp
    note regs = discovery_answered [OF ok, of "encode_general_registers (srv_general (urs_server u))"]
      discovery_answered [OF ok, of "[]"]
    show ?thesis
      using d False regs refusal_answered [OF ok, of InvalidParameter] refusal_answered [OF ok, of UnauthorizedAccess]
      by (auto simp: udp_dispatch_request_cases ordinary_def general_block.length_enc answer_of_def net_answers_def
          split: if_splits)
  qed
qed


lemma udp_answer_requests:
  "udp_answer ops u frame seq now timeout =
    (case frame_requests frame of
       Inl e \<Rightarrow> (u, Inl e)
     | Inr requests \<Rightarrow>
         (case udp_dispatch_requests ops u (the (sender_of frame)) now timeout requests [] of
            (u', r) \<Rightarrow> (u', and_then r (encode_ntscf_frame (urs_local_stream u') seq))))"
  by (simp add: udp_answer_def frame_requests_def sender_of_def split: sum.split prod.split)

lemma net_executed_requests:
  "net_executed root (frame, seq, now) =
    (case frame_requests frame of
       Inl e \<Rightarrow> []
     | Inr requests \<Rightarrow>
         map (\<lambda>m. (now, the (sender_of frame), m)) (takeWhile (\<lambda>m. \<not> net_stops root (the (sender_of frame)) m) requests))"
  by (auto simp: net_executed_def frame_requests_def sender_of_def split: sum.split prod.split)

lemma net_executed_fit: "\<forall>i\<in>set (net_executed root d). net_fits i"
proof -
  obtain frame seq now where d: "d = (frame, seq, now)" by (cases d)
  show ?thesis
  proof (cases "frame_requests frame")
    case (Inr requests)
    then show ?thesis
      using frame_requests_ok [OF Inr]
      by (auto simp: d net_executed_requests net_fits_def message_fits_def dest: set_takeWhileD)
  qed (simp add: d net_executed_requests)
qed

lemma answered_datagram_run:
  assumes inv: "net_inv u" and req: "frame_requests frame = Inr requests"
    and a: "udp_answer mock_ops u frame seq now timeout = (u', result)"
    and run: "machine_run (net_request timeout) u (net_executed (srv_root_client (urs_server u)) (frame, seq, now)) = (v, outs)"
  shows "u' = v \<and> (\<forall>reply. result = Inr reply \<longrightarrow>
     (\<exists>responses. reply_of (urs_local_stream u) seq responses reply
        \<and> list_all2 net_answers requests responses \<and> list_all2 shows_result outs responses))"
proof -
  define sid where "sid = the (sender_of frame)"
  have "\<forall>m\<in>set requests. request_ok m" using frame_requests_ok [OF req] by blast
  moreover have "machine_run (\<lambda>u m. apsnd answer_payload (udp_dispatch_request mock_ops u sid m now timeout)) u
      (takeWhile (\<lambda>m. \<not> net_stops (srv_root_client (urs_server u)) sid m) requests) = (v, outs)"
    using run by (simp add: net_executed_requests req machine_run_map sid_def)
  ultimately obtain responses bs
    where r: "list_all2 shows_result outs responses" "encode_abb_messages responses = Inr bs"
      "list_all2 net_answers (take (length outs) requests) responses"
      and d: "udp_dispatch_requests mock_ops u sid now timeout requests [] =
        (v, if length outs = length requests then Inr bs else Inl ShortFrame)"
    using net_loop.loop_is_run [OF inv, of requests sid now timeout v outs "[]"] by (auto simp: udp_dispatch_is_loop)
  have v: "u' = v" "result = and_then (if length outs = length requests then Inr bs else Inl ShortFrame)
      (encode_ntscf_frame (urs_local_stream v) seq)"
    using a by (auto simp: udp_answer_requests req d simp flip: sid_def)
  have local: "urs_local_stream v = urs_local_stream u"
    using requests_frame [OF d] by (simp add: datagram_frame_def)
  show ?thesis
  proof (intro conjI allI impI)
    fix reply
    assume "result = Inr reply"
    then have all: "length outs = length requests" and e: "encode_ntscf_frame (urs_local_stream u) seq bs = Inr reply"
      using v(2) by (simp_all add: local split: if_splits)
    have ans: "list_all2 net_answers requests (map on_wire responses)"
      using r(3) all by (auto simp: list_all2_conv_all_nth net_answers_on_wire)
    moreover have "list_all2 shows_result outs (map on_wire responses)"
      using r(1) by (auto simp: list_all2_conv_all_nth shows_on_wire)
    moreover have "responses \<noteq> []" using ans frame_requests_nonempty [OF req] by auto
    then have "reply_of (urs_local_stream u) seq (map on_wire responses) reply"
      using decode_encode_ntscf_frame [OF e] decode_encode_abb_messages [OF r(2)] by (auto simp: reply_of_def)
    ultimately show "\<exists>responses. reply_of (urs_local_stream u) seq responses reply
        \<and> list_all2 net_answers requests responses \<and> list_all2 shows_result outs responses" by blast
  qed (rule v(1))
qed

lemma answered_datagram_refines:
  assumes inv: "net_inv u" and a: "udp_answer mock_ops u frame seq now timeout = (u', result)"
    and sp: "machine_run (spec_net_request timeout) (net_spec_of u)
      (net_executed (srv_root_client (urs_server u)) (frame, seq, now)) = (sp', outs)"
  shows "net_inv u' \<and> net_spec_of u' = sp'"
    and "result = Inr reply \<Longrightarrow> \<exists>requests responses. frame_requests frame = Inr requests
      \<and> reply_of (urs_local_stream u) seq responses reply
      \<and> list_all2 net_answers requests responses \<and> list_all2 shows_result outs responses"
proof -
  obtain v outs1 where run: "machine_run (net_request timeout) u
      (net_executed (srv_root_client (urs_server u)) (frame, seq, now)) = (v, outs1)" by fastforce
  have r: "net_inv v" "sp' = net_spec_of v" "outs = outs1"
    using network.run_refines [OF inv net_executed_fit, of timeout "srv_root_client (urs_server u)" "(frame, seq, now)"] sp
    by (simp_all add: run)
  have "(net_inv u' \<and> net_spec_of u' = sp') \<and> (result = Inr reply \<longrightarrow>
      (\<exists>requests responses. frame_requests frame = Inr requests
        \<and> reply_of (urs_local_stream u) seq responses reply
        \<and> list_all2 net_answers requests responses \<and> list_all2 shows_result outs responses))"
  proof (cases "frame_requests frame")
    case (Inl e)
    then show ?thesis using a inv r run by (auto simp: udp_answer_requests net_executed_requests)
  next
    case (Inr requests)
    from answered_datagram_run [OF inv Inr a run] r show ?thesis by (auto simp: Inr)
  qed
  then show "net_inv u' \<and> net_spec_of u' = sp'"
    and "result = Inr reply \<Longrightarrow> \<exists>requests responses. frame_requests frame = Inr requests
      \<and> reply_of (urs_local_stream u) seq responses reply
      \<and> list_all2 net_answers requests responses \<and> list_all2 shows_result outs responses"
    by simp_all
qed

section \<open>Histories\<close>

lemma udp_serve_refines:
  assumes "net_inv u"
  shows "net_inv (udp_serve mock_ops timeout u ds)
    \<and> net_spec_of (udp_serve mock_ops timeout u ds)
      = fst (machine_run (spec_net_request timeout) (net_spec_of u) (net_history (srv_root_client (urs_server u)) ds))"
  using assms
proof (induction ds arbitrary: u)
  case (Cons d ds)
  obtain frame seq now where d: "d = (frame, seq, now)" by (cases d)
  obtain u1 result where a: "udp_answer mock_ops u frame seq now timeout = (u1, result)" by fastforce
  have r: "net_inv u1" "net_spec_of u1 = fst (machine_run (spec_net_request timeout) (net_spec_of u)
      (net_executed (srv_root_client (urs_server u)) (frame, seq, now)))"
    using answered_datagram_refines(1) [OF Cons.prems a prod.collapse [symmetric]] by simp_all
  have "srv_root_client (urs_server u1) = srv_root_client (urs_server u)"
    using datagram_effect [OF a] by (auto simp: datagram_frame_def server_frame_def split: option.splits)
  then show ?case
    using Cons.IH [OF r(1)] by (simp add: d a r(2) net_history_def machine_run_append Let_def)
qed (simp add: net_history_def)

text \<open>The requests that can have an effect on an endpoint: the broadcast stream has none.\<close>

definition effective :: "net_input list \<Rightarrow> (stream_id \<times> acf_abb_message) list" where
  "effective is = map snd (filter (\<lambda>(now, sid, m). \<not> is_discovery_broadcast_stream_id sid) is)"

lemma spec_net_memory:
  assumes "spec_memory (fst sp) (sid, bus) = Some held" and "bus \<noteq> 0"
  shows "spec_memory (fst (fst (spec_net_request timeout sp (now, sid', m)))) (sid, bus)
    = Some (last_written (sid, bus) held (effective [(now, sid', m)]))"
proof -
  obtain s c where sp: "sp = (s, c)" by fastforce
  have ep0: "byte_bus_id (abb_info m) = 0" if "\<not> ordinary m"
    using that device_requests_ordinary [of m] by (auto simp: is_ep0_address_def EP0_BYTE_BUS_ID_def)
  show ?thesis
    using assms ep0 spec_request_memory [of s sid bus held sid' m]
    by (auto simp: sp spec_net_request.simps effective_def ordinary_def simp del: spec_request.simps split: prod.splits)
qed

lemma last_written_append:
  "last_written a held (ms @ ms') = last_written a (last_written a held ms) ms'"
  by (induction a held ms rule: last_written.induct) simp_all

lemma spec_net_run_memory:
  "spec_memory (fst sp) (sid, bus) = Some held \<Longrightarrow> bus \<noteq> 0 \<Longrightarrow>
     spec_memory (fst (fst (machine_run (spec_net_request timeout) sp is))) (sid, bus)
       = Some (last_written (sid, bus) held (effective is))"
proof (induction "is" arbitrary: sp held)
  case (Cons i "is")
  obtain now sid' m where i: "i = (now, sid', m)" by (cases i)
  have "effective (i # is) = effective [i] @ effective is" by (simp add: effective_def)
  with Cons.IH [OF spec_net_memory [OF Cons.prems, of timeout now sid' m] Cons.prems(2)] show ?case
    by (simp add: i case_prod_beta last_written_append)
qed (simp add: effective_def)


section \<open>Reading over the network\<close>

lemma served_object:
  assumes inv: "net_inv u" and r: "resolve (urs_server u) sid bus = Some r" and bus: "bus \<noteq> 0"
    and u': "u' = udp_serve mock_ops dt u ds"
  shows "resolve (urs_server u') sid bus = Some r
    \<and> mock_buf (urs_store u' r) = last_written (sid, bus) (mock_buf (urs_store u r))
        (effective (net_history (srv_root_client (urs_server u)) ds))"
proof -
  have "configured_like (urs_server u) (urs_server u')" unfolding u' using udp_serve_configured by blast
  then have res: "resolve (urs_server u') sid bus = Some r" using r by (simp add: resolve_def configured_like_def)
  have "spec_memory (fst (net_spec_of u)) (sid, bus) = Some (mock_buf (urs_store u r))"
    by (simp add: net_spec_of_def memory_of_def r)
  from spec_net_run_memory [OF this bus, of dt "net_history (srv_root_client (urs_server u)) ds"]
  have "spec_memory (fst (net_spec_of u')) (sid, bus) = Some (last_written (sid, bus) (mock_buf (urs_store u r))
      (effective (net_history (srv_root_client (urs_server u)) ds)))"
    using udp_serve_refines [OF inv, of dt ds] by (simp add: u')
  with res show ?thesis by (simp add: net_spec_of_def memory_of_def)
qed

lemma handle_device_read:
  assumes "resolve srv sid (byte_bus_id (abb_info m)) = Some r" and "byte_bus_id (abb_info m) \<noteq> 0"
    and "\<not> bmi_op (abb_info m)"
  shows "\<exists>response. handle_abb mock_ops (srv, store) sid m = ((srv, store), Inr response)
    \<and> abb_payload response = take (unat (as_read_size (read_size_segment (abb_info m)))) (mock_buf (store r))"
  using assms
  by (simp add: handle_abb_eq is_ep0_address_def EP0_BYTE_BUS_ID_def handle_device_resolve mock_ops_def mock_read_def
      Let_def min_def)

section \<open>Concrete inputs\<close>

definition device_udp :: "mock_endpoint udp_rc_server" where
  "device_udp = udp_rc_server_new (sample_stream 9) device_server sample_store"

lemma device_udp_inv: "net_inv device_udp"
  using device_server_facts(1) sample_store_ok by (simp add: net_inv_def device_udp_def udp_rc_server_new_def)

lemma device_datagram:
  "length p \<le> 9 \<Longrightarrow> \<exists>frame. sender_of frame = Some sid \<and> frame_requests frame = Inr [on_wire (device_write 3 p)]"
proof -
  assume "length p \<le> 9"
  then have "\<exists>bs. encode_acf_abb (device_write 3 p) = Inr bs"
    unfolding encode_acf_abb_Inr_iff by (simp add: device_write_def byte_message_info_default_def evt_default_def rcp_consts)
  then obtain bs where bs: "encode_acf_abb (device_write 3 p) = Inr bs" ..
  obtain frame where f: "encode_ntscf_frame sid 0 bs = Inr frame"
    using short_body_framed [of bs] encode_acf_abb_length(3) [OF bs] by fastforce
  have "frame_requests frame = Inr [on_wire (device_write 3 p)]"
    using frame_requests_encoded [of "[device_write 3 p]" bs, OF _ _ f] bs by simp
  moreover have "sender_of frame = Some sid"
    using decode_encode_ntscf_frame [OF f] by (simp add: sender_of_def stream_id_round_trip)
  ultimately show ?thesis by blast
qed

lemma two_datagrams:
  "\<exists>wf other. sender_of wf = Some (sample_stream 1) \<and> frame_requests wf = Inr [on_wire (device_write 3 [9, 8])]
     \<and> sender_of other = Some (sample_stream 2) \<and> frame_requests other = Inr [on_wire (device_write 3 [7])]"
proof -
  have "\<exists>wf. sender_of wf = Some (sample_stream 1) \<and> frame_requests wf = Inr [on_wire (device_write 3 [9, 8])]"
    "\<exists>other. sender_of other = Some (sample_stream 2) \<and> frame_requests other = Inr [on_wire (device_write 3 [7])]"
    by (rule device_datagram, simp)+
  then show ?thesis by blast
qed

section \<open>Properties\<close>

text \<open>C4: the server behind UDP is a memory and a claim. The specification adds the discovery claim to the addressed memory: a discovery read shows the registers, a discovery write claims the stream if nobody else holds it, the broadcast stream can do nothing else, and every other request is one of the memory. After any sequence of datagrams, of any octets, from anybody and at any time, the server stands for the state the specification reaches; and when it replies to a further datagram, the responses answer its requests in order and show the results the specification gives.\<close>

theorem network_refines_memory:
  assumes "net_inv u" and "u1 = udp_serve mock_ops timeout u ds"
    and "udp_answer mock_ops u1 frame seq now timeout = (u2, result)"
    and "root = srv_root_client (urs_server u)"
  shows "net_spec_of u1 = fst (machine_run (spec_net_request timeout) (net_spec_of u) (net_history root ds))
    \<and> (\<exists>outs. machine_run (spec_net_request timeout) (net_spec_of u1) (net_executed root (frame, seq, now))
          = (net_spec_of u2, outs)
        \<and> (\<forall>reply. result = Inr reply \<longrightarrow>
             (\<exists>requests responses. frame_requests frame = Inr requests
                \<and> reply_of (urs_local_stream u) seq responses reply
                \<and> list_all2 net_answers requests responses \<and> list_all2 shows_result outs responses)))"
proof -
  have r: "net_inv u1"
    "net_spec_of u1 = fst (machine_run (spec_net_request timeout) (net_spec_of u) (net_history root ds))"
    using udp_serve_refines [OF assms(1), of timeout ds] by (simp_all add: assms(2, 4))
  have c: "urs_local_stream u1 = urs_local_stream u" "srv_root_client (urs_server u1) = root"
    using udp_serve_configured [of mock_ops timeout u ds] by (simp_all add: assms(2, 4) configured_like_def)
  obtain sp outs where sp: "machine_run (spec_net_request timeout) (net_spec_of u1) (net_executed root (frame, seq, now))
      = (sp, outs)" by fastforce
  from answered_datagram_refines [OF r(1) assms(3), unfolded c, OF sp] r(2) sp show ?thesis by blast
qed

lemma network_refines_memory_witness:
  "\<exists>wf other u2. sender_of wf = Some (sample_stream 1) \<and> sender_of other = Some (sample_stream 2)
    \<and> u2 = fst (udp_answer mock_ops (udp_serve mock_ops 20 device_udp [(other, 0, 100)]) wf 1 110 20)
    \<and> spec_memory (fst (net_spec_of u2)) (sample_stream 1, 3) = Some [9, 8]"
proof -
  obtain wf other where
    wf: "sender_of wf = Some (sample_stream 1)" "frame_requests wf = Inr [on_wire (device_write 3 [9, 8])]" and
    other: "sender_of other = Some (sample_stream 2)" "frame_requests other = Inr [on_wire (device_write 3 [7])]"
    using two_datagrams by blast
  let ?u1 = "udp_serve mock_ops 20 device_udp [(other, 0, 100)]"
  obtain u2 result where a: "udp_answer mock_ops ?u1 wf 1 110 20 = (u2, result)" by fastforce
  let ?root = "srv_root_client (urs_server device_udp)"
  from network_refines_memory [OF device_udp_inv refl a refl] obtain outs where
    one: "net_spec_of ?u1 = fst (machine_run (spec_net_request 20) (net_spec_of device_udp) (net_history ?root [(other, 0, 100)]))"
    and two: "machine_run (spec_net_request 20) (net_spec_of ?u1) (net_executed ?root (wf, 1, 110)) = (net_spec_of u2, outs)"
    by blast
  have held: "spec_memory (fst (net_spec_of device_udp)) (sample_stream 1, 3) = Some [1, 2, 3]"
    by (simp add: net_spec_of_def memory_of_def device_udp_def udp_rc_server_new_def device_server_facts sample_store_def
        mock_endpoint_new_def)
  have ex: "net_history ?root [(other, 0, 100)] = [(100, sample_stream 2, on_wire (device_write 3 [7]))]"
    "net_executed ?root (wf, 1, 110) = [(110, sample_stream 1, on_wire (device_write 3 [9, 8]))]"
    by (simp_all add: net_history_def net_executed_def wf other net_stops_def aborts_def device_write_def
        byte_message_info_default_def del: on_wire_fields) (simp_all add: device_write_def byte_message_info_default_def)
  have ms: "last_written (sample_stream 1, 3) [1, 2, 3] (effective [(100, sample_stream 2, on_wire (device_write 3 [7]))]) = [1, 2, 3]"
    "last_written (sample_stream 1, 3) [1, 2, 3] (effective [(110, sample_stream 1, on_wire (device_write 3 [9, 8]))]) = [9, 8]"
    by (simp_all add: effective_def sample_stream_unicast device_write_def byte_message_info_default_def)
      (simp add: sample_stream_def)
  have bus: "(3 :: u16) \<noteq> 0" by simp
  have held1: "spec_memory (fst (net_spec_of ?u1)) (sample_stream 1, 3) = Some [1, 2, 3]"
    by (simp only: one ex(1) spec_net_run_memory [OF held bus] ms(1))
  have "net_spec_of u2 = fst (machine_run (spec_net_request 20) (net_spec_of ?u1) (net_executed ?root (wf, 1, 110)))"
    by (simp only: two fst_conv)
  then have "spec_memory (fst (net_spec_of u2)) (sample_stream 1, 3) = Some [9, 8]"
    by (simp only: ex(2) spec_net_run_memory [OF held1 bus] ms(2))
  with wf(1) other(1) a show ?thesis by (metis fst_conv)
qed

text \<open>C5: what a client reads over UDP is what was written last. Whatever datagrams the server has handled, a client that sends a read of its device gets a response, which echoes the request and carries the octets that the last executed write to its stream and bus id left, cut to the requested size, or what the object held at the start if there was none. Request and response pass through the standard sockets of both sides, framed and numbered as Annex J has it; the server is left as it was, each socket has counted one datagram, and nothing stays on the network.\<close>

theorem remote_read_returns_last_write:
  assumes "net_inv u" and "resolve (urs_server u) sid bus = Some r" and "bus \<noteq> 0"
    and "\<not> is_discovery_broadcast_stream_id sid" and "encode_acf_abb m = Inr body"
    and "byte_bus_id (abb_info m) = bus" and "\<not> bmi_op (abb_info m)" and "timeout \<noteq> Some 0"
    and "u' = udp_serve mock_ops dt u ds" and "client \<noteq> server"
  shows "\<exists>response.
      udp_send_acf_abb (client_end show_addr client server mock_ops seq now dt) (connected sid server j k u') m n timeout
      = (connected sid server (j + 1) (k + 1) u', Inr response)
    \<and> answers m response
    \<and> abb_payload response = take (unat (as_read_size (read_size_segment (abb_info m))))
        (last_written (sid, bus) (mock_buf (urs_store u r))
          (effective (net_history (srv_root_client (urs_server u)) ds)))"
proof -
  note o = served_object [OF assms(1-3, 9)]
  have w: "byte_bus_id (abb_info (on_wire m)) = bus" "\<not> bmi_op (abb_info (on_wire m))"
    "read_size_segment (abb_info (on_wire m)) = read_size_segment (abb_info m)"
    using assms(6, 7) by (simp_all add: wire_info_def)
  obtain response where h: "handle_abb mock_ops (urs_server u', urs_store u') sid (on_wire m)
      = ((urs_server u', urs_store u'), Inr response)"
    and p: "abb_payload response = take (unat (as_read_size (read_size_segment (abb_info m)))) (mock_buf (urs_store u' r))"
    using handle_device_read [of "urs_server u'" sid "on_wire m" r "urs_store u'", unfolded w(1, 3)]
      o assms(3) w(2) by blast
  have ord: "ordinary (on_wire m)"
    using device_requests_ordinary [of "on_wire m"] w(1) assms(3) by (simp add: is_ep0_address_def EP0_BYTE_BUS_ID_def)
  have d: "udp_dispatch_request mock_ops u' sid (on_wire m) now dt = (u', Inr response)"
    by (simp add: udp_dispatch_ordinary [OF ord assms(4)] h)
  have a: "answer_of (on_wire m) (Inr response) = Inr response" by (simp add: answer_of_def)
  have "mock.store_ok (urs_store u')"
    using udp_serve_refines [OF assms(1), of dt ds] by (simp add: assms(9) net_inv_def)
  then have "answerable (Inr response)"
    by (simp add: answerable_def p mock.store_ok_def mock_ok_def min.coboundedI1)
  then obtain out where e: "encode_acf_abb response = Inr out"
    using answer_of_encodable [OF on_wire_ok [OF assms(5)] h] a by auto
  have ans: "answers m response" using answer_of_answers [OF h a] by (simp add: answers_def)
  show ?thesis
    using remote_call_answered [OF assms(5, 8, 10) d a e] ans answers_on_wire [OF ans] o p by (simp add: answers_def)
qed

lemma remote_read_returns_last_write_witness:
  "\<exists>wf other t response. sender_of wf = Some (sample_stream 1) \<and> sender_of other = Some (sample_stream 2)
    \<and> udp_send_acf_abb (client_end (\<lambda>_. ''peer'') (1 :: nat) 2 mock_ops 4 120 20)
        (connected (sample_stream 1) 2 0 2 (udp_serve mock_ops 20 device_udp [(wf, 0, 100), (other, 1, 110)]))
        (device_read 3 64) 5 None = (t, Inr response)
    \<and> abb_payload response = [9, 8]"
proof -
  obtain wf other where
    wf: "sender_of wf = Some (sample_stream 1)" "frame_requests wf = Inr [on_wire (device_write 3 [9, 8])]" and
    other: "sender_of other = Some (sample_stream 2)" "frame_requests other = Inr [on_wire (device_write 3 [7])]"
    using two_datagrams by blast
  let ?ds = "[(wf, 0, 100), (other, 1, 110)]" and ?root = "srv_root_client (urs_server device_udp)"
  have "\<exists>body. encode_acf_abb (device_read 3 64) = Inr body"
    unfolding encode_acf_abb_Inr_iff by (simp add: device_read_def byte_message_info_default_def evt_default_def rcp_consts)
  then obtain body where body: "encode_acf_abb (device_read 3 64) = Inr body" ..
  have res: "resolve (urs_server device_udp) (sample_stream 1) 3 = Some 0"
    by (simp add: device_udp_def udp_rc_server_new_def device_server_facts)
  have rd: "byte_bus_id (abb_info (device_read 3 64)) = 3" "\<not> bmi_op (abb_info (device_read 3 64))"
    "as_read_size (read_size_segment (abb_info (device_read 3 64))) = 64"
    by (simp_all add: device_read_def byte_message_info_default_def)
  have "effective (net_history ?root ?ds)
      = [(sample_stream 1, on_wire (device_write 3 [9, 8])), (sample_stream 2, on_wire (device_write 3 [7]))]"
    by (simp add: net_history_def net_executed_def wf other net_stops_def aborts_def effective_def sample_stream_unicast
        device_write_def byte_message_info_default_def del: on_wire_fields)
      (simp add: device_write_def byte_message_info_default_def)
  then have "last_written (sample_stream 1, 3) b (effective (net_history ?root ?ds)) = [9, 8]" for b
    by (simp add: device_write_def byte_message_info_default_def) (simp add: sample_stream_def)
  with remote_read_returns_last_write [OF device_udp_inv res _ sample_stream_unicast body rd(1, 2) _ refl,
      where timeout = None and dt = 20 and seq = 4 and now = 120 and ds = ?ds and n = 5 and client = "1 :: nat"
        and server = 2 and show_addr = "\<lambda>_. ''peer''" and j = 0 and k = 2]
    wf(1) other(1) show ?thesis
    unfolding rd by (simp del: udp_serve.simps) metis
qed


end
