(* ===== verification/Rcp_Failover.thy ===== *)
theory Rcp_Failover
  imports Rcp_Contracts
begin

text \<open>
  Calls of a redundancy pair at the same time, \<open>src/redundancy.rs\<close>. The method \<open>dispatch\<close> holds its
  lock for the call of the primary, gives it up, takes it again to promote the secondary, and
  makes the second call without it. The endpoint of the second call is the one just promoted,
  which stays the primary because there is no other secondary.
\<close>

datatype red_pc = RedStart | RedFailed rcp_error | RedRetry | RedDone "bytes option rcp_result"

record red_thread =
  red_call :: ep_call
  red_pc_of :: red_pc

fun red_thread_step ::
  "'ep endpoint_ops \<Rightarrow> 'ep redundancy_endpoint \<Rightarrow> red_thread \<Rightarrow> ('ep redundancy_endpoint \<times> red_thread) option" where
  "red_thread_step ops e t =
    (case red_pc_of t of
       RedStart \<Rightarrow>
         (case call_ep ops (red_primary e) (red_call t) of
            (p, Inr v) \<Rightarrow> Some (e\<lparr>red_primary := p\<rparr>, t\<lparr>red_pc_of := RedDone (Inr v)\<rparr>)
          | (p, Inl err) \<Rightarrow> Some (e\<lparr>red_primary := p\<rparr>, t\<lparr>red_pc_of := RedFailed err\<rparr>))
     | RedFailed err \<Rightarrow>
         (case red_secondary e of
            None \<Rightarrow> Some (e, t\<lparr>red_pc_of := RedDone (Inl err)\<rparr>)
          | Some sec \<Rightarrow>
              Some (e\<lparr>red_primary := sec, red_secondary := None, red_failovers := red_failovers e + 1\<rparr>,
                    t\<lparr>red_pc_of := RedRetry\<rparr>))
     | RedRetry \<Rightarrow>
         (case call_ep ops (red_primary e) (red_call t) of
            (p, r) \<Rightarrow> Some (e\<lparr>red_primary := p\<rparr>, t\<lparr>red_pc_of := RedDone r\<rparr>))
     | RedDone r \<Rightarrow> None)"

inductive red_step ::
  "'ep endpoint_ops \<Rightarrow> 'ep redundancy_endpoint \<times> red_thread list \<Rightarrow> 'ep redundancy_endpoint \<times> red_thread list \<Rightarrow> bool"
  for ops :: "'ep endpoint_ops" where
  RedStep: "i < length ts \<Longrightarrow> red_thread_step ops e (ts ! i) = Some (e', t') \<Longrightarrow> red_step ops (e, ts) (e', ts[i := t'])"

inductive_cases red_stepE: "red_step ops s s'"

definition red_start :: "ep_call \<Rightarrow> red_thread" where
  "red_start c = \<lparr>red_call = c, red_pc_of = RedStart\<rparr>"

fun run_pair ::
  "'ep endpoint_ops \<Rightarrow> 'ep redundancy_endpoint \<times> red_thread list \<Rightarrow> nat list
    \<Rightarrow> ('ep redundancy_endpoint \<times> red_thread list) option" where
  "run_pair ops (e, ts) [] = Some (e, ts)"
| "run_pair ops (e, ts) (i # is) =
    (if i < length ts
     then (case red_thread_step ops e (ts ! i) of
             None \<Rightarrow> None | Some (e', t') \<Rightarrow> run_pair ops (e', ts[i := t']) is)
     else None)"

lemma run_pair_reachable: "run_pair ops s is = Some s' \<Longrightarrow> (red_step ops)\<^sup>*\<^sup>* s s'"
  by (induction ops s "is" rule: run_pair.induct)
    (auto simp del: red_thread_step.simps split: if_splits option.splits prod.splits
      intro: converse_rtranclp_into_rtranclp red_step.intros)

text \<open>Alone, a thread does what the sequential model does.\<close>

lemma red_alone:
  assumes "call_ep (redundancy_ops ops) e c = (e', r)"
  shows "(red_step ops)\<^sup>*\<^sup>* (e, [red_start c]) (e', [(red_start c)\<lparr>red_pc_of := RedDone r\<rparr>])"
proof -
  have "\<exists>is. run_pair ops (e, [red_start c]) is = Some (e', [(red_start c)\<lparr>red_pc_of := RedDone r\<rparr>])"
  proof (cases "call_ep ops (red_primary e) c")
    case (Pair p x)
    show ?thesis
    proof (cases x)
      case (Inr v)
      then show ?thesis
        using assms Pair
        by (intro exI [of _ "[0]"]) (auto simp: redundancy_call redundancy_dispatch_def red_start_def)
    next
      case (Inl err)
      then have n: "run_pair ops (e, [red_start c]) (if red_secondary e = None then [0, 0] else [0, 0, 0])
          = Some (e', [(red_start c)\<lparr>red_pc_of := RedDone r\<rparr>])"
        using assms Pair
        by (auto simp: redundancy_call redundancy_dispatch_def red_start_def split: prod.splits)
      then show ?thesis ..
    qed
  qed
  then show ?thesis using run_pair_reachable by blast
qed

text \<open>Whatever the threads do, the pair fails over at most once.\<close>

definition failed_over :: "'ep redundancy_endpoint \<Rightarrow> 'ep redundancy_endpoint \<Rightarrow> bool" where
  "failed_over e e' \<longleftrightarrow>
     red_secondary e' = red_secondary e \<and> red_failovers e' = red_failovers e
   \<or> red_secondary e \<noteq> None \<and> red_secondary e' = None \<and> red_failovers e' = red_failovers e + 1"

lemma red_thread_step_failover: "red_thread_step ops e t = Some (e', t') \<Longrightarrow> failed_over e e'"
  by (auto simp: failed_over_def split: red_pc.splits prod.splits sum.splits option.splits)

lemma failover_once_concurrent:
  assumes "(red_step ops)\<^sup>*\<^sup>* (e, ts) (e', ts')"
  shows "failed_over e e'"
  using assms
proof (induction rule: rtranclp_induct2)
  case refl
  show ?case by (simp add: failed_over_def)
next
  case (step e1 ts1 e2 ts2)
  from step.hyps(2) have "failed_over e1 e2" 
    by (cases rule: red_step.cases) (auto dest: red_thread_step_failover simp del: red_thread_step.simps)
  with step.IH show ?case by (auto simp: failed_over_def)
qed

section \<open>Properties\<close>

text \<open>C33: a call can fail although the standby works. Two calls that both fail on the primary before either takes the lock again race for the secondary: the one that is first is answered by it, the other finds no secondary and returns the primary's error, while the same two calls made one after the other are both answered.\<close>

theorem failover_race:
  assumes "red_secondary e = Some sec" and "call_ep ops (red_primary e) c = (p, Inl err)"
    and "call_ep ops p c' = (p', Inl err')" and "call_ep ops sec c = (s, Inr v)" and "call_ep ops s c' = (s', Inr v')"
  shows "(\<exists>e'. (red_step ops)\<^sup>*\<^sup>* (e, [red_start c, red_start c'])
       (e', [(red_start c)\<lparr>red_pc_of := RedDone (Inr v)\<rparr>, (red_start c')\<lparr>red_pc_of := RedDone (Inl err')\<rparr>])
     \<and> red_primary e' = s)
    \<and> snd (run_calls (\<lambda>_. redundancy_ops ops) e [(0, c), (0, c')]) = [Inr v, Inr v']"
proof
  define e' where "e' = e\<lparr>red_primary := s, red_secondary := None, red_failovers := red_failovers e + 1\<rparr>"
  have "run_pair ops (e, [red_start c, red_start c']) [0, 1, 0, 0, 1]
      = Some (e', [(red_start c)\<lparr>red_pc_of := RedDone (Inr v)\<rparr>, (red_start c')\<lparr>red_pc_of := RedDone (Inl err')\<rparr>])"
    using assms by (simp add: red_start_def e'_def)
  then show "\<exists>e'. (red_step ops)\<^sup>*\<^sup>* (e, [red_start c, red_start c'])
       (e', [(red_start c)\<lparr>red_pc_of := RedDone (Inr v)\<rparr>, (red_start c')\<lparr>red_pc_of := RedDone (Inl err')\<rparr>])
     \<and> red_primary e' = s"
    by (intro exI [of _ e'] conjI) (rule run_pair_reachable, assumption, simp add: e'_def)
  show "snd (run_calls (\<lambda>_. redundancy_ops ops) e [(0, c), (0, c')]) = [Inr v, Inr v']"
    using assms by (simp add: redundancy_call redundancy_dispatch_def)
qed

lemma failover_race_witness:
  "\<exists>e'. (red_step (fault_ops mock_ops))\<^sup>*\<^sup>*
      (redundancy_new (fault_ops mock_ops) failing (fault_new (mock_endpoint_new Gpio [2])),
       [red_start (CallRead 4), red_start (CallRead 4)])
      (e', [(red_start (CallRead 4))\<lparr>red_pc_of := RedDone (Inr (Some [2]))\<rparr>,
            (red_start (CallRead 4))\<lparr>red_pc_of := RedDone (Inl EpError)\<rparr>])"
proof -
  have bad: "call_ep (fault_ops mock_ops) (failing\<lparr>fault_call_no := n, fault_total := m\<rparr>) (CallRead 4)
      = (failing\<lparr>fault_call_no := n + 1, fault_total := m + 1\<rparr>, Inl EpError)" for n m
    by (simp add: fault_call_ep planned_fault_def fault_triggered_def failing_def fault_inject_def fault_new_def Let_def
        del: call_ep.simps)
  have good: "call_ep (fault_ops mock_ops) (f\<lparr>fault_call_no := n, fault_total := m\<rparr>) (CallRead 4)
      = (f\<lparr>fault_call_no := n + 1, fault_total := m + 1\<rparr>, Inr (Some [2]))"
    if "f = fault_new (mock_endpoint_new Gpio [2])" for f n m
    by (simp add: that fault_call_ep planned_fault_def fault_new_def Let_def del: call_ep.simps)
      (simp add: mock_ops_def mock_read_def mock_endpoint_new_def)
  have zero: "failing = failing\<lparr>fault_call_no := 0, fault_total := 0\<rparr>"
    "fault_new (mock_endpoint_new Gpio [2])
      = (fault_new (mock_endpoint_new Gpio [2]))\<lparr>fault_call_no := 0, fault_total := 0\<rparr>"
    by (simp_all add: failing_def fault_inject_def fault_new_def)
  have pair: "red_secondary (redundancy_new (fault_ops mock_ops) failing (fault_new (mock_endpoint_new Gpio [2])))
      = Some (fault_new (mock_endpoint_new Gpio [2]))"
    "red_primary (redundancy_new (fault_ops mock_ops) failing (fault_new (mock_endpoint_new Gpio [2]))) = failing"
    by (simp_all add: redundancy_new_def)
  from failover_race [OF pair(1), unfolded pair(2), OF bad [of 0 0, folded zero] bad good [OF refl, of 0 0, folded zero]
      good [OF refl]]
  show ?thesis by blast
qed


end
