(* ===== verification/Rcp_Concurrent.thy ===== *)
theory Rcp_Concurrent
  imports Rcp_Failover Rcp_Udp_Traces
begin

text \<open>
  Requests that are handled at the same time. The server of \<open>src/mock.rs\<close> is shared between threads,
  and \<open>handle_abb\<close> takes each of its locks for one statement: for endpoint 0 the state, the root
  client, the registers; for a device the table and the objects. The object is then called outside
  the locks of the server, in as many steps as it takes locks of its own. A thread is its request
  and what it has loaded so far.
\<close>

section \<open>The calls of an endpoint\<close>

text \<open>
  The steps of the methods \<open>read\<close> and \<open>write\<close> of an endpoint: where a call begins, and what one step
  makes of the endpoint, with the rest of the call or its result.
\<close>

record ('ep, 'c) ep_threads =
  call_begin :: "ep_call \<Rightarrow> 'c"
  call_step :: "'ep \<Rightarrow> 'c \<Rightarrow> 'ep \<times> ('c + bytes option rcp_result)"

text \<open>An endpoint that holds one lock from the beginning to the end of each call, as \<open>MockEndpoint\<close> does.\<close>

definition one_lock :: "'ep endpoint_ops \<Rightarrow> ('ep, ep_call) ep_threads" where
  "one_lock ops = \<lparr>call_begin = id, call_step = (\<lambda>ep c. case call_ep ops ep c of (ep', r) \<Rightarrow> (ep', Inr r))\<rparr>"

definition mock_threads :: "(mock_endpoint, ep_call) ep_threads" where
  "mock_threads = one_lock mock_ops"

text \<open>\<open>RedundancyEndpoint\<close> gives its lock up between the failed call, the promotion and the second call.\<close>

definition redundancy_threads :: "'ep endpoint_ops \<Rightarrow> ('ep redundancy_endpoint, red_thread) ep_threads" where
  "redundancy_threads ops =
    \<lparr>call_begin = red_start,
     call_step = (\<lambda>e t. case red_thread_step ops e t of
       None \<Rightarrow> (e, Inl t)
     | Some (e', t') \<Rightarrow> (e', case red_pc_of t' of RedDone r \<Rightarrow> Inr r | _ \<Rightarrow> Inl t'))\<rparr>"

section \<open>The steps of one request\<close>

datatype 'c abb_pc =
    AbbStart
  | AbbState rc_server_state
  | AbbChecked
  | AbbFound endpoint_id
  | AbbObject ep_ref 'c
  | AbbDone "acf_abb_message rcp_result"

record 'c abb_thread =
  thr_stream :: stream_id
  thr_request :: acf_abb_message
  thr_pc :: "'c abb_pc"

text \<open>The end of the method, after the response payload is known or an error returned.\<close>

definition abb_response :: "acf_abb_message \<Rightarrow> bytes rcp_result \<Rightarrow> acf_abb_message rcp_result" where
  "abb_response request r =
    and_then r (\<lambda>response_payload.
      let response_info = build_response_info (abb_info request) (abb_info request) in
      and_then (verify_echo_back (abb_info request) response_info)
        (\<lambda>_. Inr \<lparr>abb_info = response_info, abb_payload = response_payload\<rparr>))"

definition abb_return :: "'c abb_thread \<Rightarrow> bytes rcp_result \<Rightarrow> 'c abb_thread" where
  "abb_return t r = t\<lparr>thr_pc := AbbDone (abb_response (thr_request t) r)\<rparr>"

fun abb_thread_step ::
  "('ep, 'c) ep_threads \<Rightarrow> rc_server \<times> 'ep ep_store \<Rightarrow> 'c abb_thread
    \<Rightarrow> ((rc_server \<times> 'ep ep_store) \<times> 'c abb_thread) option" where
  "abb_thread_step calls (srv, store) t =
    (let request = thr_request t in
     case thr_pc t of
       AbbStart \<Rightarrow>
         (case route_byte_bus_id (byte_bus_id (abb_info request)) of
            RouteEp0 \<Rightarrow> Some ((srv, store), t\<lparr>thr_pc := AbbState (srv_state srv)\<rparr>)
          | RouteDeviceEndpoint \<Rightarrow>
              (case lookup_binding (srv_endpoints srv) (thr_stream t) (byte_bus_id (abb_info request)) of
                 None \<Rightarrow> Some ((srv, store), abb_return t (Inl EpNotFound))
               | Some eid \<Rightarrow> Some ((srv, store), t\<lparr>thr_pc := AbbFound eid\<rparr>)))
     | AbbState state \<Rightarrow>
         (case check_ep0_access_for_stream state General (abb_info request) (thr_stream t) (srv_root_client srv) of
            Inl e \<Rightarrow> Some ((srv, store), abb_return t (Inl e))
          | Inr _ \<Rightarrow> Some ((srv, store), t\<lparr>thr_pc := AbbChecked\<rparr>))
     | AbbChecked \<Rightarrow>
         (if bmi_op (abb_info request)
          then (case decode_general_registers (abb_payload request) of
                  Inl e \<Rightarrow> Some ((srv, store), abb_return t (Inl e))
                | Inr decoded \<Rightarrow> Some ((srv\<lparr>srv_general := decoded\<rparr>, store), abb_return t (Inr [])))
          else Some ((srv, store), abb_return t (Inr (encode_general_registers (srv_general srv)))))
     | AbbFound eid \<Rightarrow>
         (case srv_endpoint_impls srv eid of
            None \<Rightarrow> Some ((srv, store), abb_return t (Inl EpNotFound))
          | Some r \<Rightarrow> Some ((srv, store), t\<lparr>thr_pc := AbbObject r (call_begin calls (request_call request))\<rparr>))
     | AbbObject r c \<Rightarrow>
         (case call_step calls (store r) c of
            (ep, Inl c') \<Rightarrow> Some ((srv, store(r := ep)), t\<lparr>thr_pc := AbbObject r c'\<rparr>)
          | (ep, Inr res) \<Rightarrow>
              Some ((srv, store(r := ep)), abb_return t (map_sum id (\<lambda>v. case v of None \<Rightarrow> [] | Some b \<Rightarrow> b) res)))
     | AbbDone r \<Rightarrow> None)"

declare abb_thread_step.simps [simp del]

definition abb_start :: "stream_id \<Rightarrow> acf_abb_message \<Rightarrow> 'c abb_thread" where
  "abb_start sid request = \<lparr>thr_stream = sid, thr_request = request, thr_pc = AbbStart\<rparr>"

section \<open>Runs of several threads\<close>

text \<open>A run keeps the order in which its threads finish.\<close>

definition finished :: "'c abb_thread \<Rightarrow> bool" where
  "finished t \<longleftrightarrow> (\<exists>r. thr_pc t = AbbDone r)"

definition thread_result :: "'c abb_thread \<Rightarrow> acf_abb_message rcp_result" where
  "thread_result t = (case thr_pc t of AbbDone r \<Rightarrow> r | _ \<Rightarrow> Inl Busy)"

inductive abb_run ::
  "('ep, 'c) ep_threads \<Rightarrow> (rc_server \<times> 'ep ep_store) \<times> 'c abb_thread list \<Rightarrow> nat list
    \<Rightarrow> (rc_server \<times> 'ep ep_store) \<times> 'c abb_thread list \<Rightarrow> bool"
  for calls :: "('ep, 'c) ep_threads" and start :: "(rc_server \<times> 'ep ep_store) \<times> 'c abb_thread list" where
  RunStart: "abb_run calls start [] start"
| RunStep: "abb_run calls start order (st, ts) \<Longrightarrow> i < length ts \<Longrightarrow>
     abb_thread_step calls st (ts ! i) = Some (st', t') \<Longrightarrow>
     abb_run calls start (if finished t' then order @ [i] else order) (st', ts[i := t'])"

text \<open>The calls of \<open>handle_abb\<close>, one after the other.\<close>

definition call_abb ::
  "'ep endpoint_ops \<Rightarrow> rc_server \<times> 'ep ep_store \<Rightarrow> 'c abb_thread
    \<Rightarrow> (rc_server \<times> 'ep ep_store) \<times> acf_abb_message rcp_result" where
  "call_abb ops st t = handle_abb ops st (thr_stream t) (thr_request t)"

section \<open>Where a request takes effect\<close>

text \<open>What a thread has loaded is still true as long as nobody else changes it.\<close>

definition loaded_ok :: "rc_server \<Rightarrow> ep_call abb_thread \<Rightarrow> bool" where
  "loaded_ok srv t \<longleftrightarrow>
     (let bus = byte_bus_id (abb_info (thr_request t)); dev = \<not> is_ep0_address bus in
      case thr_pc t of
        AbbStart \<Rightarrow> True
      | AbbState state \<Rightarrow> \<not> dev \<and> state = srv_state srv
      | AbbChecked \<Rightarrow> \<not> dev \<and> check_ep0_access_for_stream (srv_state srv) General (abb_info (thr_request t)) (thr_stream t)
          (srv_root_client srv) = Inr ()
      | AbbFound eid \<Rightarrow> dev \<and> lookup_binding (srv_endpoints srv) (thr_stream t) bus = Some eid
      | AbbObject r c \<Rightarrow> dev \<and> resolve srv (thr_stream t) bus = Some r \<and> c = request_call (thr_request t)
      | AbbDone r \<Rightarrow> True)"

lemma route_cases: "route_byte_bus_id bus = (if is_ep0_address bus then RouteEp0 else RouteDeviceEndpoint)"
  by (simp add: route_byte_bus_id_def)

lemma handle_abb_response:
  "handle_abb ops (srv, store) sid request =
    (if is_ep0_address (byte_bus_id (abb_info request))
     then (case handle_ep0 srv sid request of (srv', r) \<Rightarrow> ((srv', store), abb_response request r))
     else (case handle_device ops srv store sid request of (store', r) \<Rightarrow> ((srv, store'), abb_response request r)))"
  by (auto simp: handle_abb_def route_cases abb_response_def Let_def split: prod.splits sum.splits)

lemma step_keeps_request:
  assumes "abb_thread_step calls (srv, store) t = Some (st', t')"
  shows "thr_stream t' = thr_stream t \<and> thr_request t' = thr_request t \<and> \<not> finished t"
  using assms
  by (auto simp: abb_thread_step.simps abb_return_def finished_def Let_def
      split: abb_pc.splits request_route.splits option.splits sum.splits if_splits prod.splits)

lemma finished_return [simp]: "finished (abb_return t r)" "thread_result (abb_return t r) = abb_response (thr_request t) r"
  by (simp_all add: finished_def abb_return_def thread_result_def)

lemma call_ep0:
  "is_ep0_address (byte_bus_id (abb_info (thr_request t))) \<Longrightarrow>
     call_abb ops (srv, store) t =
       (case handle_ep0 srv (thr_stream t) (thr_request t) of (srv', r) \<Rightarrow> ((srv', store), abb_response (thr_request t) r))"
  by (simp add: call_abb_def handle_abb_response)

lemma call_device:
  "\<not> is_ep0_address (byte_bus_id (abb_info (thr_request t))) \<Longrightarrow>
     call_abb ops (srv, store) t =
       (case handle_device ops srv store (thr_stream t) (thr_request t) of
          (store', r) \<Rightarrow> ((srv, store'), abb_response (thr_request t) r))"
  by (simp add: call_abb_def handle_abb_response)

lemma step_loaded:
  assumes step: "abb_thread_step (one_lock ops) (srv, store) t = Some (st', t')" and ok: "loaded_ok srv t"
  shows "if finished t' then call_abb ops (srv, store) t = (st', thread_result t')
    else st' = (srv, store) \<and> loaded_ok srv t'"
proof (cases "thr_pc t")
  case AbbStart
  show ?thesis
  proof (cases "is_ep0_address (byte_bus_id (abb_info (thr_request t)))")
    case True
    then show ?thesis
      using step AbbStart by (auto simp: abb_thread_step.simps route_cases finished_def loaded_ok_def Let_def)
  next
    case False
    then show ?thesis
      using step AbbStart call_device [OF False, of ops srv store]
      by (auto simp: abb_thread_step.simps route_cases loaded_ok_def handle_device_def finished_def [of "t\<lparr>thr_pc := AbbFound _\<rparr>"] Let_def
          split: option.splits)
  qed
next
  case (AbbState state)
  then have ep0: "is_ep0_address (byte_bus_id (abb_info (thr_request t)))" and state: "state = srv_state srv"
    using ok by (simp_all add: loaded_ok_def Let_def)
  show ?thesis
    using step AbbState ep0 call_ep0 [OF ep0, of ops srv store]
    by (auto simp: abb_thread_step.simps state loaded_ok_def handle_ep0_def finished_def [of "t\<lparr>thr_pc := AbbChecked\<rparr>"] Let_def
        split: sum.splits)
next
  case AbbChecked
  then have ep0: "is_ep0_address (byte_bus_id (abb_info (thr_request t)))"
    and check: "check_ep0_access_for_stream (srv_state srv) General (abb_info (thr_request t)) (thr_stream t)
      (srv_root_client srv) = Inr ()"
    using ok by (simp_all add: loaded_ok_def Let_def)
  show ?thesis
    using step AbbChecked call_ep0 [OF ep0, of ops srv store]
    by (auto simp: abb_thread_step.simps handle_ep0_def check Let_def split: sum.splits if_splits)
next
  case (AbbFound eid)
  then have dev: "\<not> is_ep0_address (byte_bus_id (abb_info (thr_request t)))"
    and eid: "lookup_binding (srv_endpoints srv) (thr_stream t) (byte_bus_id (abb_info (thr_request t))) = Some eid"
    using ok by (simp_all add: loaded_ok_def Let_def)
  show ?thesis
    using step AbbFound dev call_device [OF dev, of ops srv store]
    by (auto simp: abb_thread_step.simps loaded_ok_def handle_device_def resolve_def eid
        one_lock_def finished_def [of "t\<lparr>thr_pc := AbbObject _ _\<rparr>"] Let_def split: option.splits)
next
  case (AbbObject r c)
  then have dev: "\<not> is_ep0_address (byte_bus_id (abb_info (thr_request t)))"
    and r: "resolve srv (thr_stream t) (byte_bus_id (abb_info (thr_request t))) = Some r"
    and c: "c = request_call (thr_request t)"
    using ok by (simp_all add: loaded_ok_def Let_def)
  show ?thesis
    using step AbbObject call_device [OF dev, of ops srv store]
    by (auto simp: abb_thread_step.simps handle_device_resolve r c one_lock_def request_call_def Let_def id_def sum.map_comp sum.map_ident o_def
        split: if_splits prod.splits)
next
  case (AbbDone r)
  then show ?thesis using step by (simp add: abb_thread_step.simps)
qed

section \<open>Every run is a sequence of calls\<close>

lemma loaded_configured: "configured_like srv srv' \<Longrightarrow> loaded_ok srv' t = loaded_ok srv t"
  by (simp add: loaded_ok_def configured_like_def resolve_def Let_def split: abb_pc.split)

lemma call_configured: "call_abb ops (srv, store) t = ((srv', store'), r) \<Longrightarrow> configured_like srv srv'"
  using handle_abb_server [of ops srv store "thr_stream t" "thr_request t" srv' store' r]
  by (auto simp: call_abb_def configured_like_def)

definition run_ok ::
  "'ep endpoint_ops \<Rightarrow> (rc_server \<times> 'ep ep_store) \<times> ep_call abb_thread list \<Rightarrow> nat list
    \<Rightarrow> (rc_server \<times> 'ep ep_store) \<times> ep_call abb_thread list \<Rightarrow> bool" where
  "run_ok ops start order now \<longleftrightarrow>
     map thr_stream (snd now) = map thr_stream (snd start) \<and> map thr_request (snd now) = map thr_request (snd start)
     \<and> (\<forall>t\<in>set (snd now). loaded_ok (fst (fst now)) t)
     \<and> distinct order \<and> set order = {i. i < length (snd now) \<and> finished (snd now ! i)}
     \<and> machine_run (call_abb ops) (fst start) (map ((!) (snd start)) order)
       = (fst now, map (\<lambda>i. thread_result (snd now ! i)) order)"

lemma call_abb_cong:
  "thr_stream t = thr_stream t' \<Longrightarrow> thr_request t = thr_request t' \<Longrightarrow> call_abb ops st t = call_abb ops st t'"
  by (simp add: call_abb_def)

lemma run_ok_step:
  assumes ok: "run_ok ops start order (st, ts)" and i: "i < length ts"
    and step: "abb_thread_step (one_lock ops) st (ts ! i) = Some (st', t')"
  shows "run_ok ops start (if finished t' then order @ [i] else order) (st', ts[i := t'])"
proof -
  obtain srv store where st: "st = (srv, store)" by fastforce
  obtain srv' store' where st': "st' = (srv', store')" by fastforce
  have same: "thr_stream t' = thr_stream (ts ! i)" "thr_request t' = thr_request (ts ! i)" "\<not> finished (ts ! i)"
    using step_keeps_request [OF step [unfolded st]] by simp_all
  have loaded: "\<forall>t\<in>set ts. loaded_ok srv t" using ok by (simp add: run_ok_def st)
  then have eff: "if finished t' then call_abb ops (srv, store) (ts ! i) = (st', thread_result t')
      else st' = (srv, store) \<and> loaded_ok srv t'"
    using step_loaded [OF step [unfolded st]] i by simp
  have conf: "configured_like srv srv'"
    using eff call_configured [of ops srv store "ts ! i" srv' store' "thread_result t'"]
    by (auto simp: st' configured_like_def split: if_splits)
  have new: "loaded_ok srv' t'"
    using eff by (cases "finished t'") (auto simp: st' finished_def loaded_ok_def Let_def)
  have len: "length ts = length (snd start)"
    using arg_cong [OF conjunct1 [OF ok [unfolded run_ok_def]], of length] by simp
  have start_i: "call_abb ops s (snd start ! i) = call_abb ops s (ts ! i)" for s
  proof (rule call_abb_cong)
    have "map thr_stream ts ! i = map thr_stream (snd start) ! i" "map thr_request ts ! i = map thr_request (snd start) ! i"
      using ok by (simp_all add: run_ok_def)
    then show "thr_stream (snd start ! i) = thr_stream (ts ! i)" "thr_request (snd start ! i) = thr_request (ts ! i)"
      using i len by simp_all
  qed
  have old: "j \<noteq> i" if "j \<in> set order" for j using ok that same(3) by (auto simp: run_ok_def)
  have results: "map (\<lambda>j. thread_result (ts[i := t'] ! j)) order = map (\<lambda>j. thread_result (ts ! j)) order"
    by (rule map_cong) (auto simp: nth_list_update dest: old)
  have seq: "machine_run (call_abb ops) (fst start) (map ((!) (snd start)) order)
      = (st, map (\<lambda>j. thread_result (ts[i := t'] ! j)) order)"
    using ok by (simp add: run_ok_def results del: map_eq_conv)
  have seq': "machine_run (call_abb ops) (fst start) (map ((!) (snd start)) (order @ [i]))
      = (st', map (\<lambda>j. thread_result (ts[i := t'] ! j)) (order @ [i]))" if "finished t'"
    using eff that i seq by (simp add: machine_run_append start_i st Let_def)
  have "map thr_stream (ts[i := t']) = map thr_stream ts" "map thr_request (ts[i := t']) = map thr_request ts"
    using same by (metis list_update_id map_update)+
  then have "map thr_stream (ts[i := t']) = map thr_stream (snd start)"
    "map thr_request (ts[i := t']) = map thr_request (snd start)"
    using ok by (simp_all add: run_ok_def)
  moreover have "\<forall>t\<in>set (ts[i := t']). loaded_ok srv' t"
    using loaded loaded_configured [OF conf] new set_update_subset_insert by fastforce
  moreover have "distinct (if finished t' then order @ [i] else order)"
    using ok old by (auto simp: run_ok_def)
  moreover have "set (if finished t' then order @ [i] else order) = {j. j < length (ts[i := t']) \<and> finished (ts[i := t'] ! j)}"
    using ok same(3) i by (auto simp: run_ok_def nth_list_update)
  ultimately show ?thesis
    using seq seq' eff by (auto simp: run_ok_def st st')
qed

lemma run_is_calls:
  assumes "abb_run (one_lock ops) start order now" and "\<forall>t\<in>set (snd start). thr_pc t = AbbStart"
  shows "run_ok ops start order now"
  using assms(1)
proof induction
  case RunStart
  have "\<not> finished (snd start ! i)" if "i < length (snd start)" for i
    using assms(2) that by (auto simp: finished_def)
  then show ?case using assms(2) by (auto simp: run_ok_def loaded_ok_def Let_def)
next
  case (RunStep order st ts i st' t')
  then show ?case using run_ok_step by blast
qed

section \<open>Runs end\<close>

fun steps_left :: "ep_call abb_pc \<Rightarrow> nat" where
  "steps_left AbbStart = 3"
| "steps_left (AbbState s) = 2"
| "steps_left AbbChecked = 1"
| "steps_left (AbbFound eid) = 2"
| "steps_left (AbbObject r c) = 1"
| "steps_left (AbbDone r) = 0"

lemma unfinished_steps:
  assumes "\<not> finished t"
  shows "\<exists>st' t'. abb_thread_step (one_lock ops) st t = Some (st', t')"
  using assms
  by (cases st; cases "thr_pc t")
    (auto simp: abb_thread_step.simps finished_def Let_def split: request_route.split option.split sum.split prod.split)

lemma step_goes_down: "abb_thread_step (one_lock ops) st t = Some (st', t') \<Longrightarrow> steps_left (thr_pc t') < steps_left (thr_pc t)"
  by (cases st)
    (auto simp: abb_thread_step.simps abb_return_def one_lock_def Let_def
      split: abb_pc.splits request_route.splits option.splits sum.splits if_splits prod.splits)

definition work_left :: "ep_call abb_thread list \<Rightarrow> nat" where
  "work_left ts = sum_list (map (\<lambda>t. steps_left (thr_pc t)) ts)"

lemma work_left_update:
  "i < length ts \<Longrightarrow> steps_left (thr_pc t') < steps_left (thr_pc (ts ! i)) \<Longrightarrow> work_left (ts[i := t']) < work_left ts"
proof (induction ts arbitrary: i)
  case (Cons t ts)
  then show ?case by (cases i) (auto simp: work_left_def)
qed simp

lemma run_can_end:
  assumes "abb_run (one_lock ops) start order (st, ts)"
  shows "\<exists>order' st' ts'. abb_run (one_lock ops) start (order @ order') (st', ts') \<and> (\<forall>t\<in>set ts'. finished t)"
  using assms
proof (induction "work_left ts" arbitrary: order st ts rule: less_induct)
  case less
  show ?case
  proof (cases "\<forall>t\<in>set ts. finished t")
    case True
    then show ?thesis using less.prems by (metis append_Nil2)
  next
    case False
    then obtain i where i: "i < length ts" "\<not> finished (ts ! i)" by (auto simp: in_set_conv_nth)
    then obtain st' t' where step: "abb_thread_step (one_lock ops) st (ts ! i) = Some (st', t')"
      using unfinished_steps by blast
    from less.hyps [OF work_left_update [OF i(1) step_goes_down [OF step]] RunStep [OF less.prems i(1) step]]
    show ?thesis by (metis append_assoc)
  qed
qed

section \<open>Concrete inputs\<close>

definition two_threads :: "'c abb_thread list" where
  "two_threads = [abb_start (sample_stream 1) (device_write 3 [9, 8]), abb_start (sample_stream 1) (device_read 3 64)]"

section \<open>Where calls take several locks\<close>

text \<open>
  Requests to a redundancy pair need not be calls, one after the other: as in \<open>Rcp_Failover\<close>, of two
  that are handled at the same time one can be refused, while two calls in sequence are both answered.
\<close>

fun run_schedule ::
  "('ep, 'c) ep_threads \<Rightarrow> (rc_server \<times> 'ep ep_store) \<times> 'c abb_thread list \<Rightarrow> nat list \<Rightarrow> nat list
    \<Rightarrow> (nat list \<times> (rc_server \<times> 'ep ep_store) \<times> 'c abb_thread list) option" where
  "run_schedule calls (st, ts) order [] = Some (order, st, ts)"
| "run_schedule calls (st, ts) order (i # is) =
    (if i < length ts
     then (case abb_thread_step calls st (ts ! i) of
             None \<Rightarrow> None
           | Some (st', t') \<Rightarrow> run_schedule calls (st', ts[i := t']) (if finished t' then order @ [i] else order) is)
     else None)"

lemma run_schedule_run:
  "run_schedule calls (st, ts) order is = Some (order', st', ts') \<Longrightarrow> abb_run calls start order (st, ts) \<Longrightarrow>
     abb_run calls start order' (st', ts')"
proof (induction calls "(st, ts)" order "is" arbitrary: st ts rule: run_schedule.induct)
  case (2 calls st ts order i "is")
  then obtain st1 t1 where i: "i < length ts" and step: "abb_thread_step calls st (ts ! i) = Some (st1, t1)"
    and rest: "run_schedule calls (st1, ts[i := t1]) (if finished t1 then order @ [i] else order) is = Some (order', st', ts')"
    by (auto split: if_splits option.splits)
  from 2(1) [OF i step refl rest RunStep [OF 2(3) i step]] show ?case .
qed simp

lemma pair_requests_race:
  assumes dev: "device_request srv sid m r" and "red_secondary (store r) = Some sec"
    and "call_ep ops (red_primary (store r)) (request_call m) = (p, Inl err)"
    and "call_ep ops p (request_call m) = (p', Inl err')"
    and "call_ep ops sec (request_call m) = (s, Inr v)" and "call_ep ops s (request_call m) = (s', Inr v')"
  shows "\<exists>st' ts'. abb_run (redundancy_threads ops) ((srv, store), [abb_start sid m, abb_start sid m]) [0, 1] (st', ts')
      \<and> thread_result (ts' ! 1) = Inl err'"
    and "\<forall>out \<in> set (snd (machine_run (call_abb (redundancy_ops ops)) (srv, store)
      [abb_start sid m :: red_thread abb_thread, abb_start sid m])). \<exists>response. out = Inr response"
proof -
  have "\<exists>st' ts'. run_schedule (redundancy_threads ops) ((srv, store), [abb_start sid m, abb_start sid m]) []
      [0, 0, 1, 1, 0, 1, 0, 0, 1] = Some ([0, 1], st', ts') \<and> thread_result (ts' ! 1) = Inl err'"
    using assms
    by (auto simp: device_request_def abb_thread_step.simps abb_start_def route_cases redundancy_threads_def red_start_def finished_def
        abb_return_def thread_result_def abb_response_def Let_def)
  then show "\<exists>st' ts'. abb_run (redundancy_threads ops) ((srv, store), [abb_start sid m, abb_start sid m]) [0, 1] (st', ts')
      \<and> thread_result (ts' ! 1) = Inl err'"
    using run_schedule_run [OF _ RunStart] by blast
  have call: "\<exists>response. call_abb (redundancy_ops ops) (srv, st) (abb_start sid m :: red_thread abb_thread)
      = ((srv, st(r := e)), Inr response)"
    if "call_ep (redundancy_ops ops) (st r) (request_call m) = (e, Inr res)" for st e res
    using handle_abb_device [OF dev, of "redundancy_ops ops" st] by (simp add: that call_abb_def abb_start_def)
  have one: "call_ep (redundancy_ops ops) (store r) (request_call m)
      = ((store r)\<lparr>red_primary := s, red_secondary := None, red_failovers := red_failovers (store r) + 1\<rparr>, Inr v)"
    using assms(2-5) by (simp add: redundancy_call redundancy_dispatch_def)
  have two: "call_ep (redundancy_ops ops)
      ((store r)\<lparr>red_primary := s, red_secondary := None, red_failovers := red_failovers (store r) + 1\<rparr>) (request_call m)
      = ((store r)\<lparr>red_primary := s', red_secondary := None, red_failovers := red_failovers (store r) + 1\<rparr>, Inr v')"
    using assms(6) by (simp add: redundancy_call redundancy_dispatch_def)
  show "\<forall>out \<in> set (snd (machine_run (call_abb (redundancy_ops ops)) (srv, store)
      [abb_start sid m :: red_thread abb_thread, abb_start sid m])). \<exists>response. out = Inr response"
    using call [of store, OF one] call [of "store(r := _)", unfolded fun_upd_same, OF two] by auto
qed

section \<open>Properties\<close>

text \<open>C10: requests handled at the same time by a server over mock endpoints, each of whose calls holds one lock, are handled one after the other. However the threads that run handle_abb interleave, the server, the objects and the results of the threads that have finished are those of calling handle_abb in the order in which they finished, each once; and every run can go on until all have finished. It holds while no registration, transition or change of the root client takes place, and not for endpoints like the redundancy pair, whose calls take several locks.\<close>

theorem concurrent_requests_are_calls:
  assumes "\<forall>t\<in>set ts. thr_pc t = AbbStart" and "abb_run mock_threads (st, ts) order (st', ts')"
  shows "distinct order \<and> set order = {i. i < length ts \<and> finished (ts' ! i)}
    \<and> machine_run (call_abb mock_ops) st (map ((!) ts) order) = (st', map (\<lambda>i. thread_result (ts' ! i)) order)
    \<and> (\<exists>order' st'' ts''. abb_run mock_threads (st, ts) (order @ order') (st'', ts'') \<and> (\<forall>t\<in>set ts''. finished t))"
proof -
  have ok: "run_ok mock_ops (st, ts) order (st', ts')"
    using run_is_calls [OF assms(2) [unfolded mock_threads_def]] assms(1) by simp
  then have "length ts' = length ts" unfolding run_ok_def by (metis fst_conv snd_conv length_map)
  with ok show ?thesis using run_can_end [OF assms(2) [unfolded mock_threads_def]] by (simp add: run_ok_def mock_threads_def)
qed

lemma concurrent_requests_are_calls_witness:
  "\<exists>order st' ts' out. abb_run mock_threads ((device_server, sample_store), two_threads) order (st', ts')
    \<and> (\<forall>t\<in>set ts'. finished t) \<and> distinct order
    \<and> machine_run (call_abb mock_ops) (device_server, sample_store) (map ((!) (two_threads :: ep_call abb_thread list)) order)
      = (st', out)"
proof -
  have start: "\<forall>t\<in>set two_threads. thr_pc t = AbbStart" by (simp add: two_threads_def abb_start_def)
  from run_can_end [OF RunStart [of "one_lock mock_ops" "((device_server, sample_store), two_threads)"]]
  obtain order st' ts' where r: "abb_run mock_threads ((device_server, sample_store), two_threads) order (st', ts')"
      "\<forall>t\<in>set ts'. finished t" by (auto simp: mock_threads_def)
  from concurrent_requests_are_calls [OF start r(1)] r show ?thesis by blast
qed

text \<open>C12: a revoked root client can still write. handle_abb checks the root client under one lock and stores the registers under another. If the root client is revoked between the two, the write is stored and acknowledged afterwards, although a call made after the revocation is refused.\<close>

theorem revoked_write_lands:
  assumes "srv_root_client srv = Some sid" and "is_ep0_address (byte_bus_id (abb_info request))" and "bmi_op (abb_info request)"
    and "decode_general_registers (abb_payload request) = Inr g"
  shows "\<exists>t1 t2 t3 response.
      abb_thread_step calls (srv, store) (abb_start sid request) = Some ((srv, store), t1)
    \<and> abb_thread_step calls (srv, store) t1 = Some ((srv, store), t2)
    \<and> abb_thread_step calls (set_root_client srv None, store) t2
        = Some (((set_root_client srv None)\<lparr>srv_general := g\<rparr>, store), t3)
    \<and> thread_result t3 = Inr response
    \<and> handle_abb ops (set_root_client srv None, store) sid request
        = ((set_root_client srv None, store), Inl UnauthorizedAccess)"
  using assms
  by (auto simp: abb_thread_step.simps abb_start_def route_cases check_general handle_abb_response handle_ep0_eq
      set_root_client_def abb_response_def build_response_info_def verify_echo_back_def Let_def abb_return_def thread_result_def)

lemma revoked_write_lands_witness:
  "\<exists>t1 t2 t3 response.
      abb_thread_step mock_threads (sample_server, sample_store) (abb_start (sample_stream 1) (ep0_write_message 7 zero_registers))
        = Some ((sample_server, sample_store), t1)
    \<and> abb_thread_step mock_threads (sample_server, sample_store) t1 = Some ((sample_server, sample_store), t2)
    \<and> abb_thread_step mock_threads (set_root_client sample_server None, sample_store) t2
        = Some (((set_root_client sample_server None)\<lparr>srv_general := zero_registers\<rparr>, sample_store), t3)
    \<and> thread_result t3 = Inr response"
  using revoked_write_lands [of sample_server "sample_stream 1" "ep0_write_message 7 zero_registers" zero_registers,
      where calls = mock_threads and ops = mock_ops and store = sample_store]
  by (auto simp: sample_server_def set_root_client_def ep0_write_message_def byte_message_info_default_def
      is_ep0_address_def EP0_BYTE_BUS_ID_def general_block.dec_enc)


end
