(* ===== verification/Rcp_Concurrent_Frames.thy ===== *)
theory Rcp_Concurrent_Frames
  imports Rcp_Concurrent
begin

text \<open>
  Frames that are handled at the same time: \<open>handle_ntscf_frame\<close> of \<open>src/mock.rs\<close> in several threads
  of one server. A thread runs its requests one after the other, each in the steps of
  \<open>Rcp_Concurrent\<close>, and then takes a number for its reply; what it does with its own buffer is part of
  the step before. The events of a run are the results of the requests and the numbers taken.
\<close>

section \<open>The steps of a frame\<close>

datatype 'c frame_pc =
    FrameRequest "'c abb_thread" "acf_abb_message list" bytes
  | FrameNumber bytes
  | FrameDone "bytes rcp_result"

record 'c frame_thread =
  frm_stream :: stream_id
  frm_pc :: "'c frame_pc"

datatype frame_event =
    FrameCall acf_abb_message "acf_abb_message rcp_result"
  | FrameTake u32

fun next_request :: "stream_id \<Rightarrow> acf_abb_message list \<Rightarrow> bytes \<Rightarrow> 'c frame_pc" where
  "next_request sid [] response_bytes = FrameNumber response_bytes"
| "next_request sid (request # requests) response_bytes =
    FrameRequest (abb_start sid request) requests response_bytes"

definition after_request ::
  "stream_id \<Rightarrow> acf_abb_message \<Rightarrow> acf_abb_message rcp_result \<Rightarrow> acf_abb_message list \<Rightarrow> bytes
    \<Rightarrow> 'c frame_pc" where
  "after_request sid request result requests response_bytes =
    (case (case result of
             Inr response \<Rightarrow> Inr response
           | Inl e \<Rightarrow> (case build_error_response (abb_info request) e of
                         Some error_response \<Rightarrow> Inr error_response
                       | None \<Rightarrow> Inl e)) of
       Inl e \<Rightarrow> FrameDone (Inl e)
     | Inr response \<Rightarrow>
         (case encode_acf_abb response of
            Inl e \<Rightarrow> FrameDone (Inl e)
          | Inr encoded \<Rightarrow> next_request sid requests (response_bytes @ encoded)))"

definition frame_start :: "stream_id \<Rightarrow> bytes \<Rightarrow> 'c frame_thread" where
  "frame_start sid frame =
    \<lparr>frm_stream = sid,
     frm_pc = (case and_then (decode_ntscf_frame frame) (\<lambda>(_, acf_bytes). decode_acf_abb_messages acf_bytes) of
                 Inl e \<Rightarrow> FrameDone (Inl e)
               | Inr requests \<Rightarrow> next_request sid requests [])\<rparr>"

fun frame_thread_step ::
  "('ep, 'c) ep_threads \<Rightarrow> rc_server \<times> 'ep ep_store \<Rightarrow> 'c frame_thread
    \<Rightarrow> ((rc_server \<times> 'ep ep_store) \<times> 'c frame_thread \<times> frame_event list) option" where
  "frame_thread_step calls (srv, store) t =
    (case frm_pc t of
       FrameRequest a requests response_bytes \<Rightarrow>
         (case abb_thread_step calls (srv, store) a of
            None \<Rightarrow> None
          | Some (st', a') \<Rightarrow>
              (case thr_pc a' of
                 AbbDone result \<Rightarrow>
                   Some (st', t\<lparr>frm_pc := after_request (frm_stream t) (thr_request a') result requests response_bytes\<rparr>,
                         [FrameCall (thr_request a') result])
               | _ \<Rightarrow> Some (st', t\<lparr>frm_pc := FrameRequest a' requests response_bytes\<rparr>, [])))
     | FrameNumber response_bytes \<Rightarrow>
         (let seq = srv_sequence_num srv in
          Some ((srv\<lparr>srv_sequence_num := seq + 1\<rparr>, store),
                t\<lparr>frm_pc := FrameDone (encode_ntscf_frame (frm_stream t) (ucast seq) response_bytes)\<rparr>,
                [FrameTake seq]))
     | FrameDone r \<Rightarrow> None)"

declare frame_thread_step.simps [simp del]

text \<open>A run, with its events in order and the thread of each.\<close>

inductive frame_run ::
  "('ep, 'c) ep_threads \<Rightarrow> rc_server \<times> 'ep ep_store \<Rightarrow> (stream_id \<times> bytes) list \<Rightarrow> (nat \<times> frame_event) list
    \<Rightarrow> (rc_server \<times> 'ep ep_store) \<times> 'c frame_thread list \<Rightarrow> bool"
  for calls :: "('ep, 'c) ep_threads" and st0 :: "rc_server \<times> 'ep ep_store" and frames :: "(stream_id \<times> bytes) list" where
  FramesStart: "frame_run calls st0 frames [] (st0, map (\<lambda>(sid, frame). frame_start sid frame) frames)"
| FramesStep: "frame_run calls st0 frames trace (st, ts) \<Longrightarrow> i < length ts \<Longrightarrow>
     frame_thread_step calls st (ts ! i) = Some (st', t', events) \<Longrightarrow>
     frame_run calls st0 frames (trace @ map (Pair i) events) (st', ts[i := t'])"

section \<open>One event after the other\<close>

text \<open>The events of a run as they would come about one at a time.\<close>

fun serial ::
  "'ep endpoint_ops \<Rightarrow> (nat \<Rightarrow> stream_id) \<Rightarrow> rc_server \<times> 'ep ep_store \<Rightarrow> (nat \<times> frame_event) list
    \<Rightarrow> (rc_server \<times> 'ep ep_store) option" where
  "serial ops sids st [] = Some st"
| "serial ops sids st ((i, FrameCall m r) # trace) =
    (case handle_abb ops st (sids i) m of (st', r') \<Rightarrow> if r' = r then serial ops sids st' trace else None)"
| "serial ops sids (srv, store) ((i, FrameTake n) # trace) =
    (if n = srv_sequence_num srv
     then serial ops sids (srv\<lparr>srv_sequence_num := srv_sequence_num srv + 1\<rparr>, store) trace else None)"

lemma serial_append:
  "serial ops sids st (trace @ trace') = (case serial ops sids st trace of None \<Rightarrow> None | Some st' \<Rightarrow> serial ops sids st' trace')"
  by (induction ops sids st trace rule: serial.induct) (auto split: prod.splits)

lemma serial_calls:
  "serial ops sids st trace = Some st' \<Longrightarrow> (i, FrameCall m r) \<in> set trace \<Longrightarrow>
     \<exists>s s'. handle_abb ops s (sids i) m = (s', r)"
  by (induction ops sids st trace rule: serial.induct) (auto split: prod.splits if_splits)

definition events_of :: "nat \<Rightarrow> (nat \<times> 'a) list \<Rightarrow> 'a list" where
  "events_of i trace = map snd (filter (\<lambda>e. fst e = i) trace)"

lemma events_of_append [simp]: "events_of i (trace @ trace') = events_of i trace @ events_of i trace'"
  by (simp add: events_of_def)

lemma events_of_map_Pair [simp]: "events_of i (map (Pair j) es) = (if i = j then es else [])"
  by (induction es) (auto simp: events_of_def)

text \<open>Where a thread stands after its own events, if they are events of its frame.\<close>

fun frame_path ::
  "stream_id \<Rightarrow> acf_abb_message list \<Rightarrow> bytes \<Rightarrow> frame_event list \<Rightarrow> ep_call frame_pc option" where
  "frame_path sid ms acc [] = Some (next_request sid ms acc)"
| "frame_path sid [] acc (FrameTake n # es) =
    (if es = [] then Some (FrameDone (encode_ntscf_frame sid (ucast n) acc)) else None)"
| "frame_path sid (m # ms) acc (FrameCall m' r # es) =
    (if m' \<noteq> m then None
     else case and_then (answer_of m r) encode_acf_abb of
            Inl e \<Rightarrow> if es = [] then Some (FrameDone (Inl e)) else None
          | Inr encoded \<Rightarrow> frame_path sid ms (acc @ encoded) es)"
| "frame_path sid ms acc es = None"

lemma after_request_answer:
  "after_request sid m r ms acc =
    (case and_then (answer_of m r) encode_acf_abb of
       Inl e \<Rightarrow> FrameDone (Inl e) | Inr encoded \<Rightarrow> next_request sid ms (acc @ encoded))"
  by (auto simp: after_request_def answer_of_def split: sum.splits option.splits)

lemma next_request_simps [simp]:
  "next_request sid ms acc \<noteq> FrameDone r"
  "next_request sid ms acc = FrameNumber b \<longleftrightarrow> ms = [] \<and> b = acc"
  "next_request sid ms acc = FrameRequest a ms' b \<longleftrightarrow> (\<exists>m. ms = m # ms' \<and> a = abb_start sid m \<and> b = acc)"
  by (cases ms; auto)+

lemma frame_path_call:
  "frame_path sid ms acc es = Some (FrameRequest (abb_start sid m) ms' acc') \<Longrightarrow>
     frame_path sid ms acc (es @ [FrameCall m r]) = Some (after_request sid m r ms' acc')"
  by (induction sid ms acc es rule: frame_path.induct)
    (auto simp: abb_start_def after_request_answer split: sum.splits if_splits)

lemma frame_path_take:
  "frame_path sid ms acc es = Some (FrameNumber acc') \<Longrightarrow>
     frame_path sid ms acc (es @ [FrameTake n]) = Some (FrameDone (encode_ntscf_frame sid (ucast n) acc'))"
  by (induction sid ms acc es rule: frame_path.induct) (auto split: sum.splits if_splits)

text \<open>The events of a frame that is answered: one for each request, and the number.\<close>

lemma frame_path_replied:
  "frame_path sid ms acc es = Some (FrameDone (Inr reply)) \<Longrightarrow>
     \<exists>rs n responses bs. es = map2 FrameCall ms rs @ [FrameTake n] \<and> length rs = length ms
       \<and> list_all2 (\<lambda>(m, r) response. answer_of m r = Inr response) (zip ms rs) responses
       \<and> encode_abb_messages responses = Inr bs \<and> encode_ntscf_frame sid (ucast n) (acc @ bs) = Inr reply"
proof (induction sid ms acc es rule: frame_path.induct)
  case (2 sid acc n es)
  then show ?case by (intro exI [of _ "[]"] exI [of _ n]) (auto split: if_splits)
next
  case (3 sid m ms acc m' r es)
  then obtain response encoded where a: "m' = m" "answer_of m r = Inr response" "encode_acf_abb response = Inr encoded"
    and p: "frame_path sid ms (acc @ encoded) es = Some (FrameDone (Inr reply))"
    by (auto simp: and_then_eq_Inr split: if_splits sum.splits)
  from 3(1) [OF _ _ p] a obtain rs n responses bs where "es = map2 FrameCall ms rs @ [FrameTake n]" "length rs = length ms"
    "list_all2 (\<lambda>(m, r) response. answer_of m r = Inr response) (zip ms rs) responses"
    "encode_abb_messages responses = Inr bs" "encode_ntscf_frame sid (ucast n) ((acc @ encoded) @ bs) = Inr reply"
    by auto
  with a show ?case
    by (intro exI [of _ "r # rs"] exI [of _ n] exI [of _ "response # responses"] exI [of _ "encoded @ bs"]) simp
qed simp_all


section \<open>Every run comes about one event at a time\<close>

fun coarse :: "'c frame_pc \<Rightarrow> 'c frame_pc" where
  "coarse (FrameRequest a ms acc) = FrameRequest (abb_start (thr_stream a) (thr_request a)) ms acc"
| "coarse pc = pc"

definition current_ok :: "rc_server \<Rightarrow> ep_call frame_thread \<Rightarrow> bool" where
  "current_ok srv t \<longleftrightarrow>
     (case frm_pc t of FrameRequest a ms acc \<Rightarrow> thr_stream a = frm_stream t \<and> \<not> finished a \<and> loaded_ok srv a | _ \<Rightarrow> True)"

lemma current_ok_configured: "configured_like srv srv' \<Longrightarrow> current_ok srv' t = current_ok srv t"
  by (simp add: current_ok_def loaded_configured split: frame_pc.split)

lemma coarse_next_request [simp]: "coarse (next_request sid ms acc) = next_request sid ms acc"
  by (cases ms) (simp_all add: abb_start_def)

lemma coarse_after_request [simp]: "coarse (after_request sid m r ms acc) = after_request sid m r ms acc"
  by (simp add: after_request_answer split: sum.split)

lemma current_ok_next: "frm_pc t = next_request (frm_stream t) ms acc \<Longrightarrow> current_ok srv t"
  by (cases ms) (simp_all add: current_ok_def loaded_ok_def abb_start_def finished_def Let_def)

lemma current_ok_after: "frm_pc t = after_request (frm_stream t) m r ms acc \<Longrightarrow> current_ok srv t"
  by (simp add: after_request_answer current_ok_def [of srv t] split: sum.splits)
    (use current_ok_next [of t] in \<open>simp add: current_ok_def\<close>)

lemma configured_refl [simp]: "configured_like srv srv"
  "configured_like srv (srv\<lparr>srv_sequence_num := n\<rparr>)"
  by (simp_all add: configured_like_def)

text \<open>
  A step has no event and no effect that another thread could see, or it is one whole call of
  \<open>handle_abb\<close>, or it takes a number.
\<close>

lemma frame_step_cases:
  assumes "frame_thread_step (one_lock ops) (srv, store) t = Some (st', t', es)" and "current_ok srv t"
  obtains (silent) "es = []" "st' = (srv, store)" "frm_stream t' = frm_stream t" "coarse (frm_pc t') = coarse (frm_pc t)"
      "current_ok srv t'"
    | (call) m r ms acc where "es = [FrameCall m r]" "handle_abb ops (srv, store) (frm_stream t) m = (st', r)"
      "frm_stream t' = frm_stream t" "coarse (frm_pc t) = FrameRequest (abb_start (frm_stream t) m) ms acc"
      "frm_pc t' = after_request (frm_stream t) m r ms acc"
    | (take) acc where "es = [FrameTake (srv_sequence_num srv)]" "frm_stream t' = frm_stream t"
      "st' = (srv\<lparr>srv_sequence_num := srv_sequence_num srv + 1\<rparr>, store)" "frm_pc t = FrameNumber acc"
      "frm_pc t' = FrameDone (encode_ntscf_frame (frm_stream t) (ucast (srv_sequence_num srv)) acc)"
proof (cases "frm_pc t")
  case (FrameRequest a ms acc)
  then have ok: "thr_stream a = frm_stream t" "loaded_ok srv a" using assms(2) by (simp_all add: current_ok_def)
  obtain st1 a' where s: "abb_thread_step (one_lock ops) (srv, store) a = Some (st1, a')"
    using assms(1) FrameRequest by (auto simp: frame_thread_step.simps split: option.splits)
  note same = step_keeps_request [OF s] and eff = step_loaded [OF s ok(2)]
  show ?thesis
  proof (cases "finished a'")
    case True
    then obtain r where r: "thr_pc a' = AbbDone r" by (auto simp: finished_def)
    show ?thesis
      by (rule call [of "thr_request a" r ms acc])
        (use assms(1) FrameRequest s r same eff True ok(1) in
          \<open>auto simp: frame_thread_step.simps call_abb_def thread_result_def\<close>)
  next
    case False
    then have e: "st' = st1" "t' = t\<lparr>frm_pc := FrameRequest a' ms acc\<rparr>" "es = []"
      using assms(1) FrameRequest s by (auto simp: frame_thread_step.simps finished_def split: abb_pc.splits)
    show ?thesis
      by (rule silent) (use e same eff False ok(1) FrameRequest in \<open>simp_all add: current_ok_def\<close>)
  qed
next
  case (FrameNumber acc)
  show ?thesis
    by (rule take [of acc]) (use assms(1) FrameNumber in \<open>auto simp: frame_thread_step.simps Let_def\<close>)
next
  case (FrameDone r)
  then show ?thesis using assms(1) by (simp add: frame_thread_step.simps)
qed

definition frame_ok :: "rc_server \<Rightarrow> stream_id \<times> bytes \<Rightarrow> frame_event list \<Rightarrow> ep_call frame_thread \<Rightarrow> bool" where
  "frame_ok srv f es t \<longleftrightarrow> frm_stream t = fst f \<and> current_ok srv t \<and>
     (case frame_requests (snd f) of
        Inl e \<Rightarrow> frm_pc t = FrameDone (Inl e) \<and> es = []
      | Inr ms \<Rightarrow> frame_path (fst f) ms [] es = Some (coarse (frm_pc t)))"

definition frames_ok ::
  "'ep endpoint_ops \<Rightarrow> rc_server \<times> 'ep ep_store \<Rightarrow> (stream_id \<times> bytes) list \<Rightarrow> (nat \<times> frame_event) list
    \<Rightarrow> (rc_server \<times> 'ep ep_store) \<times> ep_call frame_thread list \<Rightarrow> bool" where
  "frames_ok ops st0 frames trace now \<longleftrightarrow>
     length (snd now) = length frames \<and> fst ` set trace \<subseteq> {..<length frames}
     \<and> serial ops (\<lambda>i. fst (frames ! i)) st0 trace = Some (fst now)
     \<and> (\<forall>i<length frames. frame_ok (fst (fst now)) (frames ! i) (events_of i trace) (snd now ! i))"

lemma frame_ok_start: "frame_ok srv (sid, frame) [] (frame_start sid frame)"
proof -
  have s: "frame_start sid frame = \<lparr>frm_stream = sid,
      frm_pc = (case frame_requests frame of Inl e \<Rightarrow> FrameDone (Inl e) | Inr ms \<Rightarrow> next_request sid ms [])\<rparr>"
    by (simp add: frame_start_def frame_requests_def)
  show ?thesis
    by (cases "frame_requests frame") (auto simp: frame_ok_def s current_ok_def [of _ "\<lparr>frm_stream = _, frm_pc = FrameDone _\<rparr>"]
        intro: current_ok_next)
qed

lemma frame_ok_step:
  assumes step: "frame_thread_step (one_lock ops) (srv, store) t = Some (st', t', new)" and ok: "frame_ok srv f es t"
  shows "frame_ok (fst st') f (es @ new) t' \<and> configured_like srv (fst st')"
proof -
  have t: "frm_stream t = fst f" "current_ok srv t" using ok by (simp_all add: frame_ok_def)
  from step t(2) show ?thesis
  proof (cases rule: frame_step_cases)
    case silent
    then show ?thesis using ok step by (auto simp: frame_ok_def frame_thread_step.simps split: sum.splits)
  next
    case (call m r ms acc)
    then obtain requests where "frame_requests (snd f) = Inr requests"
        "frame_path (fst f) requests [] es = Some (FrameRequest (abb_start (fst f) m) ms acc)"
      using ok t(1) by (auto simp: frame_ok_def split: sum.splits)
    moreover obtain srv' store' where "st' = (srv', store')" by fastforce
    ultimately show ?thesis
      using call t(1) frame_path_call handle_abb_server [of ops srv store "frm_stream t" m srv' store' r]
      by (auto simp: frame_ok_def configured_like_def intro: current_ok_after)
  next
    case (take acc)
    then obtain requests where "frame_requests (snd f) = Inr requests"
        "frame_path (fst f) requests [] es = Some (FrameNumber acc)"
      using ok t(1) by (auto simp: frame_ok_def split: sum.splits)
    then show ?thesis using take t(1) frame_path_take by (auto simp: frame_ok_def current_ok_def)
  qed
qed

lemma serial_step:
  assumes "frame_thread_step (one_lock ops) (srv, store) t = Some (st', t', new)" and "current_ok srv t" and "frm_stream t = sids i"
  shows "serial ops sids (srv, store) (map (Pair i) new) = Some st'"
  using assms(1, 2) by (cases rule: frame_step_cases) (auto simp flip: assms(3))

lemma run_frames_ok: "frame_run (one_lock ops) st0 frames trace now \<Longrightarrow> frames_ok ops st0 frames trace now"
proof (induction rule: frame_run.induct)
  case FramesStart
  then show ?case
    using frame_ok_start by (fastforce simp: frames_ok_def events_of_def split: prod.split)
next
  case (FramesStep trace st ts i st' t' new)
  obtain srv store where st: "st = (srv, store)" by fastforce
  have len: "length ts = length frames" and ser: "serial ops (\<lambda>i. fst (frames ! i)) st0 trace = Some st"
    and ok: "\<And>j. j < length frames \<Longrightarrow> frame_ok srv (frames ! j) (events_of j trace) (ts ! j)"
    using FramesStep.IH by (simp_all add: frames_ok_def st)
  have i: "i < length frames" using FramesStep.hyps(2) len by simp
  note new = frame_ok_step [OF FramesStep.hyps(3) [unfolded st] ok [OF i]]
  have "frame_ok (fst st') (frames ! j) (events_of j (trace @ map (Pair i) new)) (ts[i := t'] ! j)" if "j < length frames" for j
    using new ok [OF that] that len current_ok_configured [of srv "fst st'"] by (cases "j = i") (auto simp: frame_ok_def)
  moreover have "serial ops (\<lambda>i. fst (frames ! i)) st0 (trace @ map (Pair i) new) = Some st'"
    using serial_step [OF FramesStep.hyps(3) [unfolded st], of "\<lambda>i. fst (frames ! i)" i] ok [OF i]
    by (simp add: serial_append ser st frame_ok_def)
  moreover have "fst ` set (trace @ map (Pair i) new) \<subseteq> {..<length frames}"
    using FramesStep.IH i by (auto simp: frames_ok_def)
  ultimately show ?case by (simp add: frames_ok_def len)
qed


section \<open>Runs end\<close>

fun frame_steps_left :: "ep_call frame_pc \<Rightarrow> nat" where
  "frame_steps_left (FrameRequest a ms acc) = steps_left (thr_pc a) + 4 * length ms + 1"
| "frame_steps_left (FrameNumber acc) = 1"
| "frame_steps_left (FrameDone r) = 0"

lemma next_steps_left: "frame_steps_left (next_request sid ms acc) \<le> 4 * length ms + 1"
  by (cases ms) (simp_all add: abb_start_def)

lemma after_steps_left: "frame_steps_left (after_request sid m r ms acc) \<le> 4 * length ms + 1"
  using next_steps_left by (simp add: after_request_answer split: sum.split)

lemma frame_step_goes_down:
  assumes "frame_thread_step (one_lock ops) (srv, store) t = Some (st', t', es)"
  shows "frame_steps_left (frm_pc t') < frame_steps_left (frm_pc t)"
proof (cases "frm_pc t")
  case (FrameRequest a ms acc)
  then obtain st1 a' where s: "abb_thread_step (one_lock ops) (srv, store) a = Some (st1, a')"
    using assms by (auto simp: frame_thread_step.simps split: option.splits)
  have down: "steps_left (thr_pc a') < steps_left (thr_pc a)" by (rule step_goes_down [OF s])
  have "frame_steps_left (after_request sid m r ms acc) < steps_left (thr_pc a) + 4 * length ms + 1" for sid m r
    using after_steps_left [of sid m r ms acc] down by linarith
  with down show ?thesis
    using assms FrameRequest s by (auto simp: frame_thread_step.simps split: abb_pc.splits)
qed (use assms in \<open>auto simp: frame_thread_step.simps Let_def\<close>)

lemma unfinished_frame_steps:
  assumes "current_ok srv t" and "\<nexists>r. frm_pc t = FrameDone r"
  shows "\<exists>st' t' new. frame_thread_step (one_lock ops) st t = Some (st', t', new)"
proof (cases "frm_pc t")
  case (FrameRequest a ms acc)
  then have "\<not> finished a" using assms(1) by (simp add: current_ok_def)
  then obtain st' a' where "abb_thread_step (one_lock ops) st a = Some (st', a')" using unfinished_steps by blast
  then show ?thesis
    using FrameRequest by (cases st; cases "thr_pc a'") (auto simp: frame_thread_step.simps)
next
  case (FrameNumber acc)
  then show ?thesis by (cases st) (simp add: frame_thread_step.simps Let_def)
qed (use assms(2) in simp)

lemma sum_list_update_less:
  "i < length xs \<Longrightarrow> f y < f (xs ! i) \<Longrightarrow> sum_list (map f (xs[i := y])) < sum_list (map (f :: 'a \<Rightarrow> nat) xs)"
proof (induction xs arbitrary: i)
  case (Cons x xs)
  then show ?case by (cases i) auto
qed simp

lemma frame_run_can_end:
  assumes "frame_run (one_lock ops) st0 frames trace (st, ts)"
  shows "\<exists>trace' st' ts'. frame_run (one_lock ops) st0 frames (trace @ trace') (st', ts') \<and> (\<forall>t\<in>set ts'. \<exists>r. frm_pc t = FrameDone r)"
  using assms
proof (induction "sum_list (map (\<lambda>t. frame_steps_left (frm_pc t)) ts)" arbitrary: trace st ts rule: less_induct)
  case less
  show ?case
  proof (cases "\<forall>t\<in>set ts. \<exists>r. frm_pc t = FrameDone r")
    case True
    then show ?thesis using less.prems by (metis append_Nil2)
  next
    case False
    then obtain i where i: "i < length ts" "\<nexists>r. frm_pc (ts ! i) = FrameDone r" by (auto simp: in_set_conv_nth)
    have "current_ok (fst st) (ts ! i)"
      using run_frames_ok [OF less.prems] i(1) by (simp add: frames_ok_def frame_ok_def)
    then obtain st' t' new where step: "frame_thread_step (one_lock ops) st (ts ! i) = Some (st', t', new)"
      using unfinished_frame_steps i(2) by blast
    have "frame_steps_left (frm_pc t') < frame_steps_left (frm_pc (ts ! i))"
      using frame_step_goes_down step by (cases st) blast
    from less.hyps [OF sum_list_update_less [OF i(1) this] FramesStep [OF less.prems i(1) step]]
    show ?thesis by (metis append_assoc)
  qed
qed

section \<open>Concurrent frames and the memory\<close>

text \<open>The calls of a run with what their answers say, and the numbers it gives out.\<close>

fun call_results :: "frame_event list \<Rightarrow> (acf_abb_message \<times> bytes rcp_result) list" where
  "call_results [] = []"
| "call_results (FrameCall m r # es) = (m, answer_payload r) # call_results es"
| "call_results (FrameTake n # es) = call_results es"

fun called :: "(nat \<times> frame_event) list \<Rightarrow> (nat \<times> acf_abb_message \<times> bytes rcp_result) list" where
  "called [] = []"
| "called ((i, e) # trace) = map (Pair i) (call_results [e]) @ called trace"

fun taken :: "(nat \<times> frame_event) list \<Rightarrow> u32 list" where
  "taken [] = []"
| "taken ((i, FrameTake n) # trace) = n # taken trace"
| "taken ((i, FrameCall m r) # trace) = taken trace"

lemma call_results_append: "call_results (es @ es') = call_results es @ call_results es'"
  by (induction es rule: call_results.induct) simp_all

lemma events_of_called: "events_of i (called trace) = call_results (events_of i trace)"
proof (induction trace rule: called.induct)
  case (2 j e trace)
  have "events_of i ((j, e) # trace) = (if i = j then [e] else []) @ events_of i trace"
    by (simp add: events_of_def)
  with 2 show ?case by (simp add: call_results_append)
qed (simp add: events_of_def)

lemma called_thread: "x \<in> set (called trace) \<Longrightarrow> fst x \<in> fst ` set trace"
  by (induction trace rule: called.induct) auto

lemma call_results_replied:
  "length rs = length ms \<Longrightarrow> call_results (map2 FrameCall ms rs @ [FrameTake n]) = zip ms (map answer_payload rs)"
  by (induction ms rs rule: list_induct2') simp_all

lemma counted_Suc: "map (\<lambda>k. s + of_nat k) [0..<Suc n] = s # map (\<lambda>k. (s + 1) + of_nat k) [0..<n]"
  for s :: u32
  by (rule nth_equalityI) (auto simp: nth_Cons simp del: upt_Suc split: nat.split)

lemma numbers_consecutive:
  "serial ops sids (srv, store) trace = Some st \<Longrightarrow>
     taken trace = map (\<lambda>k. srv_sequence_num srv + of_nat k) [0..<length (taken trace)]"
proof (induction trace arbitrary: srv store)
  case (Cons e trace)
  obtain i x where e: "e = (i, x)" by fastforce
  show ?case
  proof (cases x)
    case (FrameCall m r)
    obtain srv' store' r' where h: "handle_abb ops (srv, store) (sids i) m = ((srv', store'), r')"
      by (metis prod.collapse)
    then have "serial ops sids (srv', store') trace = Some st"
      using Cons.prems by (simp add: e FrameCall split: if_splits)
    moreover have "srv_sequence_num srv' = srv_sequence_num srv" using handle_abb_server [OF h] by auto
    ultimately show ?thesis using Cons.IH [of srv' store'] by (simp add: e FrameCall)
  next
    case (FrameTake n)
    then have "n = srv_sequence_num srv"
      and "serial ops sids (srv\<lparr>srv_sequence_num := srv_sequence_num srv + 1\<rparr>, store) trace = Some st"
      using Cons.prems by (simp_all add: e split: if_splits)
    with Cons.IH [of "srv\<lparr>srv_sequence_num := srv_sequence_num srv + 1\<rparr>" store] show ?thesis
      by (simp add: e FrameTake counted_Suc del: upt_Suc)
  qed
qed simp

lemma serial_memory:
  assumes "serial mock_ops sids st trace = Some st'" and "memory_inv st"
    and "\<And>i m r. (i, FrameCall m r) \<in> set trace \<Longrightarrow> request_ok m"
  shows "machine_run spec_request (spec_of st) (map (\<lambda>(i, m, out). (sids i, m)) (called trace))
      = (spec_of st', map (\<lambda>(i, m, out). out) (called trace))"
  using assms
proof (induction trace arbitrary: st)
  case (Cons e trace)
  obtain srv store where st: "st = (srv, store)" by fastforce
  obtain i x where e: "e = (i, x)" by fastforce
  have rest: "request_ok m" if "(j, FrameCall m r) \<in> set trace" for j m r
    using Cons.prems(3) [of j m r] that by simp
  show ?case
  proof (cases x)
    case (FrameCall m r)
    obtain st1 where h: "handle_abb mock_ops st (sids i) m = (st1, r)"
      and s: "serial mock_ops sids st1 trace = Some st'"
      using Cons.prems(1) by (auto simp: e FrameCall split: prod.splits if_splits)
    have "message_fits (sids i, m)" using Cons.prems(3) [of i m r] by (simp add: message_fits_def e FrameCall)
    from memory.keeps [OF Cons.prems(2) this] memory.simulates [OF Cons.prems(2) this]
    have "memory_inv st1" "spec_request (spec_of st) (sids i, m) = (spec_of st1, answer_payload r)"
      by (simp_all add: h del: spec_request.simps)
    with Cons.IH [OF s _ rest] show ?thesis by (simp add: e FrameCall del: spec_request.simps)
  next
    case (FrameTake n)
    let ?st1 = "(srv\<lparr>srv_sequence_num := srv_sequence_num srv + 1\<rparr>, store)"
    have "serial mock_ops sids ?st1 trace = Some st'" "memory_inv ?st1" "spec_of ?st1 = spec_of st"
      using Cons.prems(1, 2) by (simp_all add: e FrameTake st split: if_splits)
    with Cons.IH [of ?st1, OF _ _ rest] show ?thesis by (simp add: e FrameTake del: spec_of.simps)
  qed
qed simp


section \<open>A frame alone\<close>

text \<open>A thread that runs alone does what \<open>handle_ntscf_frame\<close> does.\<close>

lemma serial_dispatch:
  assumes "serial ops (\<lambda>_. sid) st (map (Pair i) es) = Some st'" and "frame_path sid ms acc es = Some (FrameDone r)"
  shows "case dispatch_requests ops st sid ms acc of ((srv, store), result) \<Rightarrow>
     (case result of
        Inl e \<Rightarrow> st' = (srv, store) \<and> r = Inl e
      | Inr out \<Rightarrow> st' = (srv\<lparr>srv_sequence_num := srv_sequence_num srv + 1\<rparr>, store)
          \<and> r = encode_ntscf_frame sid (ucast (srv_sequence_num srv)) out)"
  using assms
proof (induction ms arbitrary: st acc es)
  case Nil
  then show ?case by (cases st; cases es; cases "hd es") (auto split: if_splits)
next
  case (Cons m ms)
  from Cons.prems(2) obtain r' es' where es: "es = FrameCall m r' # es'"
    by (cases es; cases "hd es") (auto split: if_splits)
  obtain st1 where h: "handle_abb ops st sid m = (st1, r')" and s: "serial ops (\<lambda>_. sid) st1 (map (Pair i) es') = Some st'"
    using Cons.prems(1) by (auto simp: es split: prod.splits if_splits)
  show ?case
  proof (cases "and_then (answer_of m r') encode_acf_abb")
    case (Inl e)
    then show ?thesis
      using Cons.prems(2) s by (cases st1) (auto simp: es dispatch_requests_Cons h simp del: dispatch_requests.simps(2) split: if_splits)
  next
    case (Inr encoded)
    then have "frame_path sid ms (acc @ encoded) es' = Some (FrameDone r)" using Cons.prems(2) by (simp add: es)
    from Cons.IH [OF s this] show ?thesis by (simp add: dispatch_requests_Cons h Inr del: dispatch_requests.simps(2))
  qed
qed

lemma frame_alone:
  assumes "frame_run (one_lock ops) (srv, store) [(sid, frame)] trace (st', [t'])" and "frm_pc t' = FrameDone r"
  shows "handle_ntscf_frame ops (srv, store) sid frame = (st', r)"
proof -
  have ok: "fst ` set trace \<subseteq> {0}" "serial ops (\<lambda>i. fst ([(sid, frame)] ! i)) (srv, store) trace = Some st'"
    "frame_ok (fst st') (sid, frame) (events_of 0 trace) t'"
    using run_frames_ok [OF assms(1)] by (auto simp: frames_ok_def)
  have tr: "trace = map (Pair 0) (events_of 0 trace)"
    using ok(1) by (induction trace) (auto simp: events_of_def)
  have ser: "serial ops (\<lambda>_. sid) (srv, store) (map (Pair 0) (events_of 0 trace)) = Some st'"
  proof -
    have "serial ops sids st tr = serial ops (\<lambda>_. sids 0) st tr" if "fst ` set tr \<subseteq> {0}" for sids st tr
      using that by (induction ops sids st tr rule: serial.induct) (auto split: prod.split)
    from this [OF ok(1), of "\<lambda>i. fst ([(sid, frame)] ! i)" "(srv, store)"] ok(2) show ?thesis
      unfolding tr [symmetric] by simp
  qed
  show ?thesis
  proof (cases "frame_requests frame")
    case (Inl e)
    then have "events_of 0 trace = []" "r = Inl e" using ok(3) assms(2) by (simp_all add: frame_ok_def)
    then show ?thesis using ser by (simp add: handle_frame_cases Inl)
  next
    case (Inr ms)
    then have "frame_path sid ms [] (events_of 0 trace) = Some (FrameDone r)"
      using ok(3) assms(2) by (simp add: frame_ok_def)
    from serial_dispatch [OF ser this] show ?thesis
      by (auto simp: handle_frame_cases Inr split: prod.splits sum.splits)
  qed
qed

section \<open>Replies\<close>

lemma path_calls: "frame_path sid ms acc es = Some pc \<Longrightarrow> FrameCall m r \<in> set es \<Longrightarrow> m \<in> set ms"
  by (induction sid ms acc es rule: frame_path.induct) (auto split: if_splits sum.splits)

lemma event_of_thread: "(i, e) \<in> set trace \<Longrightarrow> e \<in> set (events_of i trace)"
  by (force simp: events_of_def)

lemma thread_of_event: "e \<in> set (events_of i trace) \<Longrightarrow> (i, e) \<in> set trace"
  by (force simp: events_of_def)

lemma run_requests_ok:
  assumes "frames_ok ops st0 frames trace now" and "(i, FrameCall m r) \<in> set trace"
  shows "request_ok m"
proof -
  have "i < length frames" using assms by (force simp: frames_ok_def)
  then have ok: "frame_ok (fst (fst now)) (frames ! i) (events_of i trace) (snd now ! i)"
    using assms(1) by (simp add: frames_ok_def)
  have e: "FrameCall m r \<in> set (events_of i trace)" using assms(2) by (rule event_of_thread)
  show ?thesis
  proof (cases "frame_requests (snd (frames ! i))")
    case (Inr ms)
    then have "m \<in> set ms" using ok e path_calls by (fastforce simp: frame_ok_def)
    then show ?thesis by (rule frame_requests_ok [OF Inr])
  qed (use ok e in \<open>simp add: frame_ok_def\<close>)
qed

lemma replied_frame:
  assumes run: "frames_ok ops st0 frames trace now" and i: "i < length frames"
    and pc: "frm_pc (snd now ! i) = FrameDone (Inr reply)"
  shows "\<exists>requests responses n. frame_requests (snd (frames ! i)) = Inr requests \<and> (i, FrameTake n) \<in> set trace
    \<and> map fst (events_of i (called trace)) = requests
    \<and> reply_of (fst (frames ! i)) (ucast n) responses reply \<and> list_all2 answers requests responses
    \<and> list_all2 shows_result (map snd (events_of i (called trace))) responses"
proof -
  obtain sid frame where f: "frames ! i = (sid, frame)" by fastforce
  have ok: "frame_ok (fst (fst now)) (frames ! i) (events_of i trace) (snd now ! i)"
    using run i by (simp add: frames_ok_def)
  have ser: "serial ops (\<lambda>i. fst (frames ! i)) st0 trace = Some (fst now)" using run by (simp add: frames_ok_def)
  from ok obtain ms where req: "frame_requests frame = Inr ms"
    and p: "frame_path sid ms [] (events_of i trace) = Some (FrameDone (Inr reply))"
    using pc by (auto simp: frame_ok_def f split: sum.splits)
  from frame_path_replied [OF p] obtain rs n responses bs where
    es: "events_of i trace = map2 FrameCall ms rs @ [FrameTake n]" and len: "length rs = length ms"
    and ans: "list_all2 (\<lambda>(m, r) response. answer_of m r = Inr response) (zip ms rs) responses"
    and bs: "encode_abb_messages responses = Inr bs" and e: "encode_ntscf_frame sid (ucast n) bs = Inr reply"
    by auto
  have answered: "answers m response" if "(m, r) \<in> set (zip ms rs)" "answer_of m r = Inr response" for m r response
  proof -
    have "FrameCall m r \<in> set (events_of i trace)" using that(1) by (force simp: es)
    from serial_calls [OF ser thread_of_event [OF this]] obtain s s' where "handle_abb ops s sid m = (s', r)"
      by (auto simp: f)
    then show ?thesis using that(2) by (rule answer_of_answers)
  qed
  have n: "(i, FrameTake n) \<in> set trace" by (rule thread_of_event) (simp add: es)
  have lens: "length responses = length ms" using ans len by (auto dest: list_all2_lengthD)
  have nth: "answer_of (ms ! k) (rs ! k) = Inr (responses ! k)" if "k < length ms" for k
    using list_all2_nthD [OF ans, of k] that len by simp
  have "answers (ms ! k) (responses ! k)" if "k < length ms" for k
    using answered [OF _ nth [OF that]] that len by (force simp: set_zip)
  then have "list_all2 answers ms (map on_wire responses)"
    using lens by (simp add: list_all2_conv_all_nth answers_on_wire)
  moreover have "list_all2 shows_result (map answer_payload rs) (map on_wire responses)"
    using nth lens len by (auto simp: list_all2_conv_all_nth shows_on_wire intro: answer_of_shows)
  moreover have "responses \<noteq> []" using lens frame_requests_nonempty [OF req] by auto
  then have "reply_of sid (ucast n) (map on_wire responses) reply"
    using decode_encode_ntscf_frame [OF e] decode_encode_abb_messages [OF bs] by (auto simp: reply_of_def)
  moreover have "events_of i (called trace) = zip ms (map answer_payload rs)"
    by (simp add: events_of_called es call_results_replied len)
  ultimately show ?thesis using req n len by (auto simp: f)
qed

section \<open>Properties\<close>

text \<open>C11: frames handled at the same time share one memory. However the threads that handle whole frames interleave, the calls of the run, in the order in which they finish, take the specification of the server to the state the server stands for; every frame that is answered has executed its requests in order, and its reply shows the results the specification gives at the places of its own calls, so what another frame wrote in between is seen. The sequence numbers are given out one after the other without a gap, and every run can go on until all frames are done.\<close>

theorem concurrent_frames_share_memory:
  assumes "memory_inv (srv, store)" and "frame_run mock_threads (srv, store) frames trace (st', ts')"
  shows "machine_run spec_request (spec_of (srv, store)) (map (\<lambda>(i, m, out). (fst (frames ! i), m)) (called trace))
      = (spec_of st', map (\<lambda>(i, m, out). out) (called trace))
    \<and> taken trace = map (\<lambda>k. srv_sequence_num srv + of_nat k) [0..<length (taken trace)]
    \<and> (\<forall>i reply. i < length frames \<longrightarrow> frm_pc (ts' ! i) = FrameDone (Inr reply) \<longrightarrow>
         (\<exists>requests responses n. frame_requests (snd (frames ! i)) = Inr requests \<and> (i, FrameTake n) \<in> set trace
            \<and> map fst (events_of i (called trace)) = requests
            \<and> reply_of (fst (frames ! i)) (ucast n) responses reply \<and> list_all2 answers requests responses
            \<and> list_all2 shows_result (map snd (events_of i (called trace))) responses))
    \<and> (\<exists>trace' st'' ts''. frame_run mock_threads (srv, store) frames (trace @ trace') (st'', ts'')
         \<and> (\<forall>t\<in>set ts''. \<exists>r. frm_pc t = FrameDone r))"
proof -
  have ok: "frames_ok mock_ops (srv, store) frames trace (st', ts')" using run_frames_ok [OF assms(2) [unfolded mock_threads_def]] .
  then have s: "serial mock_ops (\<lambda>i. fst (frames ! i)) (srv, store) trace = Some st'" by (simp add: frames_ok_def)
  show ?thesis
    using serial_memory [OF s assms(1) run_requests_ok [OF ok]] numbers_consecutive [OF s] replied_frame [OF ok]
      frame_run_can_end [OF assms(2) [unfolded mock_threads_def], folded mock_threads_def]
    by simp
qed

lemma concurrent_frames_share_memory_witness:
  "\<exists>wf rf trace st' ts'. frame_requests wf = Inr [on_wire (device_write 3 [9, 8])]
    \<and> frame_requests rf = Inr [on_wire (device_read 3 64)]
    \<and> frame_run mock_threads (device_server, sample_store) [(sample_stream 1, wf), (sample_stream 1, rf)] trace (st', ts')
    \<and> (\<forall>t\<in>set ts'. \<exists>r. frm_pc t = FrameDone r)
    \<and> fst (machine_run spec_request (spec_of (device_server, sample_store))
          (map (\<lambda>(i, m, out). (sample_stream 1, m)) (called trace))) = spec_of st'"
proof -
  obtain wf rf where f: "frame_requests wf = Inr [on_wire (device_write 3 [9, 8])]"
      "frame_requests rf = Inr [on_wire (device_read 3 64)]" using device_frames by blast
  have inv: "memory_inv (device_server, sample_store)" using device_server_facts(1) sample_store_ok by simp
  let ?frames = "[(sample_stream 1, wf), (sample_stream 1, rf)]"
  from concurrent_frames_share_memory [OF inv FramesStart [of mock_threads "(device_server, sample_store)" ?frames]]
  obtain trace st' ts' where r: "frame_run mock_threads (device_server, sample_store) ?frames trace (st', ts')"
      "\<forall>t\<in>set ts'. \<exists>r. frm_pc t = FrameDone r" by auto
  have "map (\<lambda>(i, m, out). (fst (?frames ! i), m)) (called trace) = map (\<lambda>(i, m, out). (sample_stream 1, m)) (called trace)"
  proof (rule map_cong)
    fix x assume "x \<in> set (called trace)"
    with called_thread have "fst x \<in> fst ` set trace" by blast
    moreover have "fst ` set trace \<subseteq> {..<2}" using run_frames_ok [OF r(1) [unfolded mock_threads_def]] by (simp add: frames_ok_def numeral_2_eq_2)
    ultimately have "fst x < 2" by blast
    then show "(case x of (i, m, out) \<Rightarrow> (fst (?frames ! i), m)) = (case x of (i, m, out) \<Rightarrow> (sample_stream 1, m))"
      by (cases x) (auto simp: less_2_cases_iff)
  qed simp
  with concurrent_frames_share_memory [OF inv r(1)] r f show ?thesis by (metis fst_conv)
qed


end
