(* ===== verification/Spec2Isabelle.thy ===== *)
theory Spec2Isabelle
  imports Rcp_Timestamp Rcp_Acf_Loop Rcp_Addressing Rcp_Regmap_Codecs Rcp_Ep0 Rcp_Watchdog Rcp_Evtgroup
    Rcp_Fragment Rcp_Request_Facts Rcp_Mock_Wire Rcp_Powerstate Rcp_Discovery
    Rcp_Gpio Rcp_Can Rcp_Iseled Rcp_Serial Rcp_Analog
    Rcp_Loan Rcp_Ratelimit Rcp_Bridges Rcp_Relay Rcp_Admin Rcp_Evidence
    Rcp_Rawsocket Rcp_Capi Rcp_Cli_Facts
    Rcp_Contracts Rcp_Udp_Traces Rcp_Crc_Reference Rcp_Queue Rcp_Serde
    Rcp_Udp_Memory Rcp_Concurrent Rcp_Concurrent_Frames Rcp_Failover
begin

text \<open>
  A verification development for the Rust crate \<open>rcp\<close> (\<open>src/src/*.rs\<close>), an implementation of the
  OPEN Alliance TC18 Remote Control Protocol.

  The program. An RC Server holds endpoints (GPIO, SPI, CAN and so on) and a map of general registers
  behind endpoint 0. Clients send it AVTPDU frames on a stream; each frame carries ACF messages, each
  message is a read or a write addressed by an 11-bit byte bus id, and each is answered by a response
  or an error response in one reply frame. Around this core stand the life of the server and of a
  request, the choice between competing requests, sequencers, the watchdog, end-to-end protection,
  fragmentation, power modes and discovery, the payloads of each kind of endpoint, endpoints that wrap
  other endpoints, the transports that carry frames, a relay adapter, a view of the types for C, and
  a command-line tool.

  How the parts interact. \<open>handle_ntscf_frame\<close> (\<open>mock.rs\<close>) decodes the frame (\<open>avtp.rs\<close>), splits it
  into messages (\<open>acf.rs\<close>), routes each one to endpoint 0 (\<open>ep0.rs\<close> decides by the server's state,
  \<open>lifecycle.rs\<close>, and the root client; the registers are encoded by \<open>regmap.rs\<close>) or to the endpoint
  bound to its address (\<open>addressing.rs\<close>), and encodes the responses again. \<open>request.rs\<close> holds the
  decisions an execution engine makes about requests that cannot be executed at once, on the signal of
  the watchdog (\<open>watchdog.rs\<close>) and on the order of timestamps (\<open>timestamp.rs\<close>). A message too large
  for a frame travels as fragments, which \<open>fragment.rs\<close> puts together and \<open>e2e.rs\<close> protects. Over UDP
  \<open>udp.rs\<close> puts discovery (\<open>discovery.rs\<close>) in front of the server; \<open>adapt.rs\<close> calls it directly. The tool
  (\<open>bin/rcp.rs\<close>) runs a server of its own for each command, or serves one over UDP.

  The theories, bottom up, each with the source it models.
    \<open>Rcp_Prelude\<close>: octets, words, big-endian conversion, \<open>Result\<close> as a sum, slices. No source.
    \<open>Rcp_Error\<close>: \<open>lib.rs\<close>, the error enumeration, its wire codes and its messages.
    \<open>Rcp_Interfaces\<close>: the shared interfaces as locales. \<open>wire_codec\<close> and \<open>exact_codec\<close> (an encoder and
      a decoder of fixed length), \<open>frame_codec\<close> (frames that fill their buffer), \<open>guarded_machine\<close> (a
      state machine driven by attempts).
    \<open>Rcp_Timestamp\<close>: \<open>timestamp.rs\<close>.
    \<open>Rcp_Avtp\<close>: \<open>avtp.rs\<close>, headers and frames.
    \<open>Rcp_Acf\<close>, \<open>Rcp_Acf_Messages\<close>, \<open>Rcp_Acf_Loop\<close>: \<open>acf.rs\<close>; definitions and the octets of a header in
      the first, what holds of whole messages and batches of messages in the second, how many turns
      the splitting loop takes in the third.
    \<open>Rcp_Addressing\<close>: \<open>addressing.rs\<close>; the locale \<open>binding_table\<close> is its contract.
    \<open>Rcp_Lifecycle\<close>: \<open>lifecycle.rs\<close>; a \<open>guarded_machine\<close>.
    \<open>Rcp_Regmap\<close>, \<open>Rcp_Regmap_Codecs\<close>: \<open>regmap.rs\<close>; the trait \<open>ConfigTableRow\<close> is the locale
      \<open>config_table_row\<close>, interpreted by all five row types.
    \<open>Rcp_Ep0\<close>: \<open>ep0.rs\<close>. \<open>Rcp_Watchdog\<close>: \<open>watchdog.rs\<close>. \<open>Rcp_Evtgroup\<close>: \<open>evtgroup.rs\<close>.
    \<open>Rcp_E2e\<close>: \<open>e2e.rs\<close>, the CRC engine, the covered octets, the trailer, fragment trains.
    \<open>Rcp_Fragment\<close>: \<open>fragment.rs\<close>; \<open>buffer_step\<close> is the step relation of its operations.
    \<open>Rcp_Request\<close>, \<open>Rcp_Request_Facts\<close>: \<open>request.rs\<close>; the sequencer bank provides the locale
      \<open>cell_store\<close>, the life of a request is a \<open>guarded_machine\<close>.
    \<open>Rcp_Mock\<close>, \<open>Rcp_Mock_Facts\<close>, \<open>Rcp_Mock_Wire\<close>: \<open>mock.rs\<close>; the trait \<open>Endpoint\<close> is the record
      \<open>endpoint_ops\<close>, its promise to the server is the locale \<open>endpoint_contract\<close>, and \<open>MockEndpoint\<close>
      keeps it. The third theory sees the server through the octets a client sends and receives.
    \<open>Rcp_Powerstate\<close>: \<open>powerstate.rs\<close>; a \<open>guarded_machine\<close> and the step relation \<open>power_step\<close>.
    \<open>Rcp_Discovery\<close>: \<open>discovery.rs\<close>.
    \<open>Rcp_Gpio\<close>: \<open>gpio.rs\<close> and \<open>wakeup.rs\<close>. \<open>Rcp_Can\<close>: \<open>can.rs\<close>. \<open>Rcp_Iseled\<close>: \<open>iseled.rs\<close>. \<open>Rcp_Serial\<close>: \<open>spi.rs\<close>,
      \<open>i2c.rs\<close>, \<open>uart.rs\<close>, \<open>lin.rs\<close>, \<open>mdio.rs\<close>. \<open>Rcp_Analog\<close>: \<open>adc.rs\<close>, \<open>pwm.rs\<close>. The frames are
      \<open>frame_codec\<close>s, the blocks \<open>exact_codec\<close>s; the classification of requests by their event nibble
      is the locale \<open>row2_request\<close> of \<open>Rcp_Evtgroup\<close>.
    \<open>Rcp_Decorators\<close>, \<open>Rcp_Decorator_Facts\<close>: \<open>proxy.rs\<close>, \<open>authz.rs\<close>, \<open>redundancy.rs\<close>, \<open>deadline.rs\<close>,
      \<open>faultinject.rs\<close>, \<open>record.rs\<close>, \<open>observe.rs\<close>, \<open>sim.rs\<close>; a wrapper makes an \<open>endpoint_ops\<close> from
      another one, and the locale \<open>endpoint_simulation\<close> lifts what it forgets to a whole server.
    \<open>Rcp_Loan\<close>: \<open>loan.rs\<close>; \<open>pool_step\<close> is the step relation of a pool and its holders.
    \<open>Rcp_Ratelimit\<close>: \<open>ratelimit.rs\<close>; \<open>Rcp_Float\<close> is the rounding of \<open>f64\<close> and its error.
    \<open>Rcp_Udp\<close>, \<open>Rcp_Udp_Facts\<close>: \<open>udp.rs\<close>, \<open>l2.rs\<close>; the locale \<open>transport\<close> is what all clients share.
      A client and a server meet on a \<open>network\<close> of addressed datagrams, each with the standard socket.
    \<open>Rcp_Bridges\<close>: \<open>shmem.rs\<close>, \<open>tlstransport.rs\<close>. \<open>Rcp_Relay\<close>: \<open>relay.rs\<close>, \<open>adapt.rs\<close>.
    \<open>Rcp_Admin\<close>: \<open>federation.rs\<close>, \<open>admin.rs\<close>, \<open>mdns.rs\<close>, \<open>dyndata.rs\<close>, \<open>config.rs\<close>.
    \<open>Rcp_Evidence\<close>: \<open>conformance.rs\<close>, \<open>iso21434.rs\<close>, \<open>certgap.rs\<close>, \<open>formal.rs\<close>, \<open>codegen.rs\<close>.
    \<open>Rcp_Rawsocket\<close>: the raw Ethernet socket of \<open>l2.rs\<close> on Linux, and the stub on other systems. \<open>Rcp_Capi\<close>: \<open>capi.rs\<close>.
    \<open>Rcp_Cli\<close>, \<open>Rcp_Cli_Facts\<close>: \<open>bin/rcp.rs\<close>; a command is a function from arguments to a run, that is
      the lines printed, the lines of errors and how it ends, a panic being one way to end.
    \<open>Rcp_Serde\<close>: \<open>base64_serde.rs\<close> and the serialised form of the messages of \<open>relay.rs\<close>.

  Above them stand theories that say what several parts, or one of them over time or between threads,
  amount to.
    \<open>Rcp_Memory\<close>: the specification of the server as an addressed memory, the machine \<open>spec_request\<close>
      with the state \<open>spec_server\<close>. The locale \<open>refined_machine\<close> is the simulation, its interpretation
      \<open>memory\<close> the proof that the server follows it; \<open>server_frames\<close> is a sequence of frames.
    \<open>Rcp_Contracts\<close>: which stacks of wrapped endpoints keep \<open>endpoint_contract\<close>.
    \<open>Rcp_Udp_Traces\<close>: sequences of arbitrary datagrams at the server of \<open>udp.rs\<close>.
    \<open>Rcp_Udp_Memory\<close>: the specification of that server, \<open>spec_net_request\<close>, the memory with a discovery
      claim beside it; its interpretation of \<open>refined_machine\<close> is \<open>network\<close>. The locale \<open>answering\<close> of
      \<open>Rcp_Memory\<close> is what the loops of both servers share.
    \<open>Rcp_Crc_Reference\<close>: long division of polynomials as the reference for the CRC engine.
    \<open>Rcp_Queue\<close>: the order in which a queue of pending requests is served.
    \<open>Rcp_Concurrent\<close>: \<open>handle_abb\<close> of \<open>mock.rs\<close> once more, as the steps \<open>abb_thread_step\<close> of a thread
      between its locks; the endpoint is called in steps of its own, \<open>ep_threads\<close>, one for \<open>MockEndpoint\<close>
      and several for a redundancy pair. \<open>abb_run\<close> is a run of several threads.
    \<open>Rcp_Concurrent_Frames\<close>: \<open>handle_ntscf_frame\<close> in the same way, \<open>frame_thread_step\<close>; \<open>frame_run\<close> is a run
      of several frames with its events, and \<open>frame_alone\<close> says that one frame alone is handled as by
      the sequential definition.
    \<open>Rcp_Failover\<close>: \<open>dispatch\<close> of \<open>redundancy.rs\<close> in the same way, \<open>red_thread_step\<close> and \<open>red_step\<close>.

  Correspondence. Definitions carry the names of the code, with the type's name in front where several
  types have a method of one name. An unsigned integer of w bits is a word of w bits and wraps as the
  code does where the code wraps; \<open>checked_sub\<close>, \<open>saturating_add\<close> and the like are written out.
  \<open>usize\<close> values are natural numbers where they only count elements of a vector. \<open>Result\<close> is a sum
  with the error on the left and \<open>?\<close> is \<open>and_then\<close>. A struct is a record, \<open>&mut self\<close> is the record
  returned updated, on the error paths as well. A hash map is a partial map. A closure that may have
  effects is a function on the caller's world. Shared endpoint objects live in a store and the server
  holds references; discovery caches shared by an admin server and a router live in a heap. A wrapper
  owns the endpoint it wraps. Sockets, channels and clocks are parameters, so is the rounding of \<open>f64\<close> in the definitions, and
  a wait that has not ended yet has the result \<open>None\<close>. Where the code takes a lock for one statement, the statement is
  atomic; the interleaved registrations of \<open>Rcp_Mock\<close> and the threads of \<open>Rcp_Concurrent\<close> and
  \<open>Rcp_Failover\<close> take steps of this kind.

  What the lemmas show. Codecs: what an encoder accepts, that the decoder returns it, that nothing is
  lost in reserved bits, also for batches of messages with padding. Protection: CRC-32/TC18 is the remainder
  of a polynomial division, and linear enough that a changed block of four octets is always seen, the covered octets determine the request,
  and a reassembled train has the checksum of the whole message. Server: replies match requests, one
  stream cannot reach what belongs to another, only the root client writes the registers, the calls
  succeed for endpoints that keep the contract, and over any sequence of frames the server over mock
  endpoints, plain or wrapped, is a memory addressed by stream and bus id. State machines: reachable states, final states,
  claims that no datagram takes away in time, one winner among racing requests, a queue
  served in the order of a stable sort. Wrappers: recording, measuring, deadlines, an
  attached proxy and an allowing policy do not show in the frames of a server; a redundant pair and
  injected faults do what a reference history says. Transports: a client's call over UDP, framed by the standard sockets of both sides, is the local
  call, and after any sequence of datagrams a remote read returns what was written last. Endpoint payloads: decoders accept the encodings of well-formed values and nothing else, the
  averages of \<open>adc.rs\<close> and the writes of \<open>gpio.rs\<close> are those of unbounded arithmetic. The tool: flags
  are read back, how each command ends, what a served datagram can change. Threads: requests to mock
  endpoints handled at the same time have the effect of calls in the order in which they finish, as long as the
  server is not reconfigured meanwhile (\<open>pair_requests_race\<close> shows that requests to a redundancy pair have not), frames handled at the same time see one memory and get
  consecutive numbers; a change of the root client and a failover show where they
  race with a request.

  Termination and bounds. Every recursion is total: the splitting loop of \<open>acf.rs\<close> consumes at least
  eight octets per turn (\<open>splitting_ends\<close>), the row loop of \<open>regmap.rs\<close> at least one, all other loops run
  over a list, so there is no fuel. The waiting loops of \<open>loan.rs\<close> and \<open>shmem.rs\<close> may not end; their
  results are options. So is the result of the loop of \<open>serve\<close>, which ends with a bound always and
  without one exactly when a call fails (\<open>serve_loop_ends\<close>). The invariant of the registry (\<open>register_endpoint_sound\<close>) holds as long as the
  32-bit counter of endpoint ids has not wrapped; \<open>frame_always_answered\<close> asks for endpoints of at most
  2036 octets because a longer read cannot be encoded in one message. The bound on the token bucket
  is for \<open>f64\<close> with its rounding, which can gain up to 2^-52 of the burst in each call; its range holds for every
  monotone rounding that keeps zero and the burst.

  What is not modelled. Poisoned locks, allocation failure, threads other than interleaved
  registrations, requests and redundant calls, the holders of a pool and the peers of a channel; infinite and undefined \<open>f64\<close> values.
  The calls of the operating system and of the \<open>nix\<close> crate, and the parsing and printing of JSON, YAML
  and base64 by other crates, are parameters; a serialised value is a tree, not a text. Derived
  serialisation is modelled for the messages of the relay only. A method that only hands out a field
  is the field's selector.

  The properties that involve several components stand in this theory, each other one at the end of
  the theory of its component.
\<close>

section \<open>Further facts\<close>

text \<open>Streams are isolated from each other. A frame of one stream leaves every endpoint object alone that is not registered for this stream.\<close>

theorem streams_isolated:
  assumes "handle_ntscf_frame ops (srv, store) sid frame = ((srv', store'), result)"
    and "\<not> reaches srv sid r"
  shows "store' r = store r"
  by (rule handled_frame_store [OF assms])

text \<open>Behind endpoints that hold at most 2036 octets no frame is given up. Unless the root client writes EP0 with less than a register block, every request is answered; the reply is sent whenever the responses fit an NTSCF frame, which is always so for a single request.\<close>

theorem frame_always_answered:
  assumes "frame_requests frame = Inr requests" and "\<forall>r. length (mock_buf (store r)) \<le> 2036"
    and "\<forall>m\<in>set requests. no_short_ep0_write srv sid m"
  shows "\<exists>srv' store' out. dispatch_requests mock_ops (srv, store) sid requests [] = ((srv', store'), Inr out)
    \<and> (length requests = 1 \<longrightarrow> length out \<le> 2044)
    \<and> (length out \<le> 2047 \<longrightarrow> (\<exists>reply. handle_ntscf_frame mock_ops (srv, store) sid frame
           = ((srv'\<lparr>srv_sequence_num := srv_sequence_num srv + 1\<rparr>, store'), Inr reply)))"
proof -
  have "mock.store_ok store" using assms(2) by (intro mock.store_okI) (simp add: mock_ok_def)
  moreover have "\<forall>m\<in>set requests. request_ok m \<and> no_short_ep0_write srv sid m"
    using assms(1, 3) frame_requests_ok by blast
  ultimately obtain srv' store' out
    where d: "dispatch_requests mock_ops (srv, store) sid requests [] = ((srv', store'), Inr out)"
    using mock.dispatch_contract by blast
  have "length out \<le> 2044" if "length requests = 1"
    using that d dispatch_single [of mock_ops "(srv, store)" sid] by (cases requests) auto
  then show ?thesis using d dispatched_frame_handled [OF assms(1) d] by blast
qed

text \<open>The checksum of a reassembled train is the checksum of the message it carries. Once a fresh buffer has accepted a whole train, verifying it against the final fragment computes the CRC-32/TC18 of the covered octets of the unfragmented message.\<close>

theorem train_crc_is_message_crc:
  assumes "limit \<noteq> 0" and "payloads \<noteq> []" and "length (concat payloads) \<le> unat limit"
  shows "\<exists>buf outcomes. accept_all (fragment_buffer_new limit) (train info payloads) = (buf, Inr outcomes)
    \<and> verify_reassembled_train_crc buf h (CoverAbb final) True
      = and_then (build_crc32_coverage_buffer h (CoverAbb (final\<lparr>abb_payload := concat payloads\<rparr>)))
          (\<lambda>b. Inr (crc32_tc18 b))"
proof -
  obtain buf where acc: "accept_all (fragment_buffer_new limit) (train info payloads)
      = (buf, Inr (replicate (length payloads - 1) Continuing @ [Complete]))" and seg: "segments buf = payloads"
    using accept_train [OF assms] by blast
  have "check_fragment_crc_placement False True = Inr ()" by (simp add: check_fragment_crc_placement_Inr_iff)
  then show ?thesis
    using acc by (simp add: verify_reassembled_train_crc_def crc32_tc18_for_fragment_train_def seg train_coverage_abb)
qed

section \<open>Properties\<close>

text \<open>C1: every request of a frame is answered, in order. Whatever endpoints the server has, a reply to a frame carries the stream of the request, the next sequence number and, for each request in the frame, one response that echoes its bus id and transaction number and is marked as a response.\<close>

theorem frame_answered_in_order:
  assumes "handle_ntscf_frame ops (srv, store) sid frame = (st', Inr reply)"
  shows "\<exists>requests responses. frame_requests frame = Inr requests
    \<and> reply_of sid (ucast (srv_sequence_num srv)) responses reply \<and> list_all2 answers requests responses"
proof -
  from assms obtain requests where req: "frame_requests frame = Inr requests"
    by (auto simp: handle_frame_cases split: sum.splits)
  with handled_frame_reply [OF req assms] show ?thesis by blast
qed

lemma frame_answered_in_order_witness:
  "\<exists>frame st' reply requests responses.
     handle_ntscf_frame mock_ops (sample_server, sample_store) (sample_stream 1) frame = (st', Inr reply)
     \<and> frame_requests frame = Inr requests
     \<and> reply_of (sample_stream 1) (ucast (srv_sequence_num sample_server)) responses reply
     \<and> list_all2 answers requests responses"
proof -
  obtain frame st' reply where
    h: "handle_ntscf_frame mock_ops (sample_server, sample_store) (sample_stream 1) frame = (st', Inr reply)"
    using sample_frame_handled by blast
  from frame_answered_in_order [OF h] h show ?thesis by blast
qed

text \<open>C8: endpoint 0 works end to end for the root client. A frame that writes the general registers and then reads them is handled: the server holds the written registers, no endpoint is touched, and the second response of the reply decodes to the written registers.\<close>

theorem ep0_write_then_read:
  assumes "srv_root_client srv = Some sid"
    and "encode_abb_messages [ep0_write_message n g, ep0_read_message n'] = Inr body"
    and "encode_ntscf_frame sid num body = Inr frame"
  shows "\<exists>srv' reply a b. handle_ntscf_frame ops (srv, store) sid frame = ((srv', store), Inr reply)
    \<and> srv_general srv' = g \<and> reply_of sid (ucast (srv_sequence_num srv)) [a, b] reply
    \<and> decode_general_registers (abb_payload b) = Inr g"
proof -
  have req: "frame_requests frame = Inr [on_wire (ep0_write_message n g), on_wire (ep0_read_message n')]"
    using frame_requests_encoded [OF assms(2) _ assms(3)] by simp
  from ep0_write_read_dispatch [OF assms(1), of ops store n g n'] obtain a b bs where
    d: "dispatch_requests ops (srv, store) sid [on_wire (ep0_write_message n g), on_wire (ep0_read_message n')] []
        = ((srv\<lparr>srv_general := g\<rparr>, store), Inr bs)"
    and len: "length bs \<le> 2047" and dec: "decode_acf_abb_messages bs = Inr [a, b]"
    and pay: "abb_payload b = encode_general_registers g"
    by blast
  obtain reply where e: "encode_ntscf_frame sid (ucast (srv_sequence_num srv)) bs = Inr reply"
    using len by (simp add: encode_ntscf_frame_cases)
  have "reply_of sid (ucast (srv_sequence_num srv)) [a, b] reply"
    using decode_encode_ntscf_frame [OF e] dec by (auto simp: reply_of_def)
  moreover have "handle_ntscf_frame ops (srv, store) sid frame
      = ((srv\<lparr>srv_general := g, srv_sequence_num := srv_sequence_num srv + 1\<rparr>, store), Inr reply)"
    using e by (simp add: handle_frame_cases req d del: dispatch_requests.simps)
  moreover have "decode_general_registers (abb_payload b) = Inr g"
    by (simp add: pay general_block.dec_enc)
  ultimately show ?thesis by force
qed

lemma ep0_write_then_read_witness:
  "\<exists>body frame srv' reply a b.
     encode_abb_messages [ep0_write_message 7 zero_registers, ep0_read_message 8] = Inr body
     \<and> encode_ntscf_frame (sample_stream 1) 0 body = Inr frame
     \<and> handle_ntscf_frame mock_ops (sample_server, sample_store) (sample_stream 1) frame = ((srv', sample_store), Inr reply)
     \<and> srv_general srv' = zero_registers
     \<and> reply_of (sample_stream 1) (ucast (srv_sequence_num sample_server)) [a, b] reply
     \<and> decode_general_registers (abb_payload b) = Inr zero_registers"
proof -
  obtain wb rb where w: "encode_acf_abb (ep0_write_message 7 zero_registers) = Inr wb"
    and r: "encode_acf_abb (ep0_read_message 8) = Inr rb"
    using ep0_messages_encodable by blast
  then have e: "encode_abb_messages [ep0_write_message 7 zero_registers, ep0_read_message 8] = Inr (wb @ rb)"
    by simp
  have "length (wb @ rb) \<le> 2047"
    using encode_acf_abb_length(1) [OF w] encode_acf_abb_length(1) [OF r] pad_for_less [of 65]
    by (simp add: ep0_write_message_def ep0_read_message_def general_block.length_enc pad_for_def)
  then obtain frame where f: "encode_ntscf_frame (sample_stream 1) 0 (wb @ rb) = Inr frame"
    by (simp add: encode_ntscf_frame_cases)
  have root: "srv_root_client sample_server = Some (sample_stream 1)"
    by (simp add: sample_server_def set_root_client_def)
  from ep0_write_then_read [OF root e f, of mock_ops sample_store] e f show ?thesis by blast
qed

text \<open>C9: a frame cannot change what its sender has no right to. Handling a frame never changes the lifecycle state, the root client or the registered endpoints, and it changes the general registers only if its stream is the root client.\<close>

theorem frame_cannot_change_server:
  assumes "handle_ntscf_frame ops (srv, store) sid frame = ((srv', store'), result)"
  shows "srv_state srv' = srv_state srv \<and> srv_root_client srv' = srv_root_client srv
    \<and> srv_endpoints srv' = srv_endpoints srv \<and> srv_endpoint_impls srv' = srv_endpoint_impls srv
    \<and> srv_next_endpoint_id srv' = srv_next_endpoint_id srv
    \<and> (srv_root_client srv \<noteq> Some sid \<longrightarrow> srv_general srv' = srv_general srv)"
  by (rule handled_frame_server [OF assms])

lemma frame_cannot_change_server_witness:
  "\<exists>frame srv' store' result.
     frame_requests frame = Inr [on_wire (ep0_write_message 7 zero_registers), on_wire (ep0_read_message 8)]
     \<and> handle_ntscf_frame mock_ops (sample_server, sample_store) (sample_stream 2) frame = ((srv', store'), result)
     \<and> srv_general srv' = srv_general sample_server"
proof -
  obtain frame where f: "frame_requests frame = Inr [on_wire (ep0_write_message 7 zero_registers), on_wire (ep0_read_message 8)]"
    using sample_frame by blast
  obtain srv' store' result where
    h: "handle_ntscf_frame mock_ops (sample_server, sample_store) (sample_stream 2) frame = ((srv', store'), result)"
    by (metis prod.collapse)
  have "srv_root_client sample_server \<noteq> Some (sample_stream 2)"
    by (simp add: sample_server_def set_root_client_def sample_stream_def)
  with frame_cannot_change_server [OF h] f h show ?thesis by blast
qed


end
